theory Spec2Isabelle
  imports Main "HOL-Library.Word"
begin

unbundle bit_operations_syntax

section \<open>Value representation (codegen/valueHelpersInline.cpp)\<close>

text \<open>
  A \<open>Value\<close> is a 64-bit word.  A C++ \<open>double\<close> is modelled by its IEEE-754 bit
  pattern, so \<open>encodeDouble\<close> and \<open>decodeDouble\<close>, which reinterpret the bits, are the
  identity on words.  A heap pointer is a 64-bit address, \<open>nullptr\<close> is \<open>0\<close>.
\<close>

type_synonym Value = "64 word"
type_synonym addr = "64 word"

datatype ValueType = DOUBLE | BOOL | NIL | INT_T | OBJ

definition MASK_SIGN :: Value where "MASK_SIGN = 0x8000000000000000"
definition MASK_EXPONENT :: Value where "MASK_EXPONENT = 0x7ff0000000000000"
definition MASK_QUIET :: Value where "MASK_QUIET = 0x0008000000000000"
definition MASK_TYPE :: Value where "MASK_TYPE = 0x0007000000000000"
definition MASK_SIGNATURE :: Value where "MASK_SIGNATURE = 0xffff000000000000"
definition MASK_FULL :: Value where "MASK_FULL = 0xffffffffffffffff"
definition MASK_NAN :: Value where "MASK_NAN = 0x7ff0000000000000"
definition MASK_PAYLOAD_INT :: Value where "MASK_PAYLOAD_INT = 0x00000000ffffffff"
definition MASK_PAYLOAD_OBJ :: Value where "MASK_PAYLOAD_OBJ = 0x0000ffffffffffff"

definition MASK_TYPE_NAN :: Value where "MASK_TYPE_NAN = 0x0000000000000000"
definition MASK_TYPE_FALSE :: Value where "MASK_TYPE_FALSE = 0x0001000000000000"
definition MASK_TYPE_TRUE :: Value where "MASK_TYPE_TRUE = 0x0002000000000000"
definition MASK_TYPE_NIL :: Value where "MASK_TYPE_NIL = 0x0003000000000000"
definition MASK_TYPE_INT :: Value where "MASK_TYPE_INT = 0x0004000000000000"
definition MASK_TYPE_OBJ :: Value where "MASK_TYPE_OBJ = MASK_SIGN"

definition MASK_SIGNATURE_NAN :: Value where "MASK_SIGNATURE_NAN = MASK_NAN"
definition MASK_SIGNATURE_FALSE :: Value where "MASK_SIGNATURE_FALSE = MASK_NAN OR MASK_TYPE_FALSE"
definition MASK_SIGNATURE_TRUE :: Value where "MASK_SIGNATURE_TRUE = MASK_NAN OR MASK_TYPE_TRUE"
definition MASK_SIGNATURE_NIL :: Value where "MASK_SIGNATURE_NIL = MASK_NAN OR MASK_TYPE_NIL"
definition MASK_SIGNATURE_INT :: Value where "MASK_SIGNATURE_INT = MASK_NAN OR MASK_TYPE_INT"
definition MASK_SIGNATURE_OBJ :: Value where
  "MASK_SIGNATURE_OBJ = MASK_SIGN OR MASK_NAN OR MASK_TYPE_OBJ"

text \<open>\<open>getType\<close>: the \<open>switch\<close> falls through to \<open>NIL\<close> for every signature it does not list.\<close>

definition getType :: "Value \<Rightarrow> ValueType" where
  "getType x =
     (if (NOT x) AND MASK_EXPONENT \<noteq> 0 then DOUBLE
      else if x AND MASK_SIGNATURE = MASK_SIGNATURE_NAN then DOUBLE
      else if x AND MASK_SIGNATURE = MASK_SIGNATURE_FALSE then BOOL
      else if x AND MASK_SIGNATURE = MASK_SIGNATURE_TRUE then BOOL
      else if x AND MASK_SIGNATURE = MASK_SIGNATURE_INT then INT_T
      else if x AND MASK_SIGNATURE = MASK_SIGNATURE_OBJ then OBJ
      else NIL)"

definition encodeDouble :: "64 word \<Rightarrow> Value" where "encodeDouble x = x"
definition encodeInt :: "32 word \<Rightarrow> Value" where "encodeInt x = MASK_SIGNATURE_INT OR ucast x"
definition encodeBool :: "bool \<Rightarrow> Value" where
  "encodeBool x = (if x then MASK_SIGNATURE_TRUE else MASK_SIGNATURE_FALSE)"
definition encodeObj :: "addr \<Rightarrow> Value" where "encodeObj x = MASK_SIGNATURE_OBJ OR x"
definition encodeNil :: Value where "encodeNil = MASK_SIGNATURE_NIL"
definition decodeDouble :: "Value \<Rightarrow> 64 word" where "decodeDouble x = x"
definition decodeInt :: "Value \<Rightarrow> 32 word" where "decodeInt x = ucast (x AND MASK_PAYLOAD_INT)"
definition decodeBool :: "Value \<Rightarrow> bool" where "decodeBool x = (x AND MASK_TYPE_TRUE \<noteq> 0)"
definition decodeObj :: "Value \<Rightarrow> addr" where "decodeObj x = x AND MASK_PAYLOAD_OBJ"

definition isDouble :: "Value \<Rightarrow> bool" where "isDouble x = (getType x = DOUBLE)"
definition isBool :: "Value \<Rightarrow> bool" where "isBool x = (getType x = BOOL)"
definition isNil :: "Value \<Rightarrow> bool" where "isNil x = (getType x = NIL)"
definition isInt :: "Value \<Rightarrow> bool" where "isInt x = (getType x = INT_T)"
definition isObj :: "Value \<Rightarrow> bool" where "isObj x = (getType x = OBJ)"
definition isNumber :: "Value \<Rightarrow> bool" where "isNumber x = (isDouble x \<or> isInt x)"


section \<open>Garbage collector (MemoryManagment/garbageCollector.cpp)\<close>

text \<open>
  What the collector sees of a heap object is the \<open>Obj\<close> base: the mark bit, the result
  of the virtual \<open>getSize()\<close> and the pointers that the virtual \<open>trace()\<close> pushes on the
  mark stack.  \<open>mem\<close> is the memory the pointers of the \<open>objects\<close> list point into;
  a pointer outside its domain is dangling (or null) and dereferencing it is undefined
  behaviour, which the model returns as \<open>None\<close>.
\<close>

record GCObj =
  marked :: bool
  getSize :: "64 word"
  trace :: "addr list"

datatype SystemError = FailedAllocation "64 word"

text \<open>
  \<open>markStack\<close> is kept with the back of the vector at the head of the list.
  \<open>interned\<close> is the string intern map as an association list.
  \<open>vmAttached\<close> says whether the \<open>vm\<close> pointer is set; \<open>threadsPaused\<close> is the effect of
  \<open>VM::pauseAllThreads\<close> and \<open>VM::unpauseAllThreads\<close>, which are not among the sources.
\<close>

record GarbageCollector =
  heapSize :: "64 word"
  heapSizeLimit :: "64 word"
  shouldCollect :: bool
  objects :: "addr list"
  markStack :: "addr list"
  interned :: "(string \<times> addr) list"
  mem :: "addr \<rightharpoonup> GCObj"
  vmAttached :: bool
  threadsPaused :: bool
  systemErrors :: "SystemError list"

definition HEAP_START_SIZE :: "64 word" where "HEAP_START_SIZE = 1024"

text \<open>
  \<open>alloc\<close>: the outcome of \<open>new byte[size]\<close> is the argument \<open>block\<close>: \<open>Some p\<close> for the
  pointer obtained, \<open>None\<close> for \<open>std::bad_alloc\<close>.  The result is the returned pointer
  and the collector afterwards.
\<close>

definition alloc :: "64 word \<Rightarrow> addr option \<Rightarrow> GarbageCollector \<Rightarrow> addr \<times> GarbageCollector" where
  "alloc sz block gc =
     (let gc1 = gc\<lparr>heapSize := heapSize gc + sz\<rparr>;
          gc2 = (if heapSize gc1 > heapSizeLimit gc1
                 then gc1\<lparr>shouldCollect := True,
                          threadsPaused := (if vmAttached gc1 then True else threadsPaused gc1)\<rparr>
                 else gc1);
          gc3 = (case block of
                   Some p \<Rightarrow> gc2
                 | None \<Rightarrow> gc2\<lparr>systemErrors := systemErrors gc2 @ [FailedAllocation sz]\<rparr>);
          ptr = (case block of Some p \<Rightarrow> p | None \<Rightarrow> 0)
      in (ptr, gc3\<lparr>objects := objects gc3 @ [ptr]\<rparr>))"

definition markObj :: "addr \<Rightarrow> GarbageCollector \<Rightarrow> GarbageCollector" where
  "markObj object gc = gc\<lparr>markStack := object # markStack gc\<rparr>"

text \<open>
  \<open>markRoots\<close> calls \<open>vm->mark(this)\<close>, which is not among the sources; \<open>roots\<close> is the
  sequence of pointers it hands to \<open>markObj\<close>.
\<close>

definition markRoots :: "addr list \<Rightarrow> GarbageCollector \<Rightarrow> GarbageCollector" where
  "markRoots roots gc = fold markObj roots gc"

text \<open>The mark loop on the memory and the mark stack.\<close>

function mark_loop :: "(addr \<rightharpoonup> GCObj) \<Rightarrow> addr list \<Rightarrow> (addr \<rightharpoonup> GCObj) option" where
  "mark_loop m [] = Some m"
| "mark_loop m (ptr # st) =
     (case m ptr of
        None \<Rightarrow> None
      | Some ob \<Rightarrow>
          if marked ob then mark_loop m st
          else mark_loop (m(ptr \<mapsto> ob\<lparr>marked := True\<rparr>)) (rev (trace ob) @ st))"
  by pat_completeness auto

definition unmarked :: "(addr \<rightharpoonup> GCObj) \<Rightarrow> addr set" where
  "unmarked m = {p. \<exists>ob. m p = Some ob \<and> \<not> marked ob}"

definition mark :: "GarbageCollector \<Rightarrow> GarbageCollector option" where
  "mark gc = (case mark_loop (mem gc) (markStack gc) of
                None \<Rightarrow> None
              | Some m \<Rightarrow> Some (gc\<lparr>mem := m, markStack := []\<rparr>))"

text \<open>The first loop of \<open>sweep\<close>: entries of the intern map whose string is unmarked are erased.\<close>

fun pruneInterned :: "(addr \<rightharpoonup> GCObj) \<Rightarrow> (string \<times> addr) list \<Rightarrow> (string \<times> addr) list option" where
  "pruneInterned m [] = Some []"
| "pruneInterned m ((k, p) # rest) =
     (case m p of
        None \<Rightarrow> None
      | Some ob \<Rightarrow>
          (case pruneInterned m rest of
             None \<Rightarrow> None
           | Some rest' \<Rightarrow> Some (if \<not> marked ob then rest' else (k, p) # rest')))"

text \<open>
  The second loop of \<open>sweep\<close>, \<open>for (int i = objects.size() - 1; i >= 0; i--)\<close>, from the
  value \<open>i\<close> of the counter on.  \<open>delete obj\<close> takes the object out of the memory.
\<close>

function sweepObjects :: "int \<Rightarrow> GarbageCollector \<Rightarrow> GarbageCollector option" where
  "sweepObjects i gc =
     (if i \<ge> 0 then
        (if nat i < length (objects gc) then
           (let obj = objects gc ! nat i in
            case mem gc obj of
              None \<Rightarrow> None
            | Some ob \<Rightarrow>
                if \<not> marked ob then
                  sweepObjects (i - 1)
                    (gc\<lparr>mem := (mem gc)(obj := None),
                        objects := take (nat i) (objects gc) @ drop (Suc (nat i)) (objects gc)\<rparr>)
                else
                  sweepObjects (i - 1)
                    (gc\<lparr>heapSize := heapSize gc + getSize ob,
                        mem := (mem gc)(obj \<mapsto> ob\<lparr>marked := False\<rparr>)\<rparr>))
         else None)
      else Some gc)"
  by pat_completeness auto

termination sweepObjects
  by (relation "measure (\<lambda>(i, gc). nat (i + 1))") auto

declare sweepObjects.simps [simp del]

text \<open>
  The start value of the counter: \<open>objects.size() - 1\<close> is computed in \<open>size_t\<close> and
  converted to \<open>int\<close>, which keeps the low 32 bits and reads them as a signed number.
\<close>

definition sweepStart :: "GarbageCollector \<Rightarrow> int" where
  "sweepStart gc = sint (word_of_int (int (length (objects gc)) - 1) :: 32 word)"

definition sweep :: "GarbageCollector \<Rightarrow> GarbageCollector option" where
  "sweep gc =
     (let gc1 = gc\<lparr>heapSize := 0\<rparr> in
      case pruneInterned (mem gc1) (interned gc1) of
        None \<Rightarrow> None
      | Some kept \<Rightarrow> sweepObjects (sweepStart gc1) (gc1\<lparr>interned := kept\<rparr>))"

text \<open>
  \<open>collect()\<close>, the run-time variant.  The statement \<open>heapSizeLimit << 1;\<close> computes the
  shifted value and drops it.  Clearing \<open>shouldCollect\<close>, \<open>unpauseAllThreads\<close> and the
  \<open>notify_all\<close> on the children's condition variable release the child threads.
\<close>

definition collect :: "addr list \<Rightarrow> GarbageCollector \<Rightarrow> GarbageCollector option" where
  "collect roots gc =
     (case mark (markRoots roots gc) of
        None \<Rightarrow> None
      | Some gc1 \<Rightarrow>
          (case sweep gc1 of
             None \<Rightarrow> None
           | Some gc2 \<Rightarrow>
               (let gc3 = (if heapSize gc2 > heapSizeLimit gc2
                           then (let dropped = push_bit 1 (heapSizeLimit gc2) in gc2)
                           else gc2)
                in Some (gc3\<lparr>shouldCollect := False, threadsPaused := False\<rparr>))))"

text \<open>The mark bit behind a pointer, as the sweep reads it (\<open>obj->marked\<close>).\<close>

definition isMarked :: "(addr \<rightharpoonup> GCObj) \<Rightarrow> addr \<Rightarrow> bool" where
  "isMarked m p = (case m p of None \<Rightarrow> False | Some ob \<Rightarrow> marked ob)"

definition sizeOf :: "(addr \<rightharpoonup> GCObj) \<Rightarrow> addr \<Rightarrow> 64 word" where
  "sizeOf m p = (case m p of None \<Rightarrow> 0 | Some ob \<Rightarrow> getSize ob)"

text \<open>
  A collector state used to run the definitions: two registered objects, the first marked
  and interned, the second unmarked and interned.
\<close>

definition gc_example :: GarbageCollector where
  "gc_example =
     \<lparr>heapSize = 3145728, heapSizeLimit = HEAP_START_SIZE * 1024, shouldCollect = True,
      objects = [8, 16], markStack = [],
      interned = [(''a'', 8), (''b'', 16)],
      mem = [8 \<mapsto> \<lparr>marked = True, getSize = 2097152, trace = []\<rparr>,
             16 \<mapsto> \<lparr>marked = False, getSize = 1048576, trace = []\<rparr>],
      vmAttached = True, threadsPaused = True, systemErrors = []\<rparr>"

text \<open>The same two objects before marking, with the first as the only root.\<close>

definition gc_before_collect :: GarbageCollector where
  "gc_before_collect =
     gc_example\<lparr>mem := [8 \<mapsto> \<lparr>marked = False, getSize = 2097152, trace = []\<rparr>,
                         16 \<mapsto> \<lparr>marked = False, getSize = 1048576, trace = []\<rparr>]\<rparr>"

section \<open>Heap objects\<close>

text \<open>
  The object classes are declared in \<open>Objects/objects.h\<close>, which is not among the sources;
  each constructor below carries the fields that the sources read and write.  Maps from
  names (\<open>methods\<close>, \<open>fields\<close>) are partial functions.  A native stub is named by its
  number in the table of stubs.\<close>

datatype ObjType =
  STRING | FUNC | NATIVE | BOUND_NATIVE | ARRAY | CLOSURE | CLASS | INSTANCE
  | BOUND_METHOD | UPVALUE | FILE | MUTEX | FUTURE

datatype Obj =
    ObjString string
  | ObjFunc int nat nat nat string
      \<comment> \<open>\<open>arity\<close>, \<open>upvalueCount\<close>, \<open>bytecodeOffset\<close>, \<open>constantsOffset\<close>, \<open>name\<close>\<close>
  | ObjNativeFunc nat int string
      \<comment> \<open>\<open>func\<close>, \<open>arity\<close>, \<open>name\<close>\<close>
  | ObjBoundNativeFunc nat int string Value
      \<comment> \<open>\<open>func\<close>, \<open>arity\<close>, \<open>name\<close>, \<open>receiver\<close>\<close>
  | ObjUpval Value
      \<comment> \<open>\<open>val\<close>\<close>
  | ObjClosure addr "addr list"
      \<comment> \<open>\<open>func\<close>, \<open>upvals\<close>\<close>
  | ObjArray "Value list" "64 word"
      \<comment> \<open>\<open>values\<close>, \<open>numOfHeapPtr\<close>\<close>
  | ObjClass string "string \<rightharpoonup> Value"
      \<comment> \<open>\<open>name\<close>, \<open>methods\<close>\<close>
  | ObjInstance addr "string \<rightharpoonup> Value"
      \<comment> \<open>\<open>klass\<close> (null for a struct literal), \<open>fields\<close>\<close>
  | ObjBoundMethod Value addr
      \<comment> \<open>\<open>receiver\<close>, \<open>method\<close>\<close>
  | ObjFile
  | ObjMutex
  | ObjFuture "nat option" Value bool
      \<comment> \<open>\<open>thread\<close> (a child thread by its number, or null), \<open>val\<close>, whether \<open>fut\<close> is ready\<close>

fun objType :: "Obj \<Rightarrow> ObjType" where
  "objType (ObjString s) = STRING"
| "objType (ObjFunc a u b c n) = FUNC"
| "objType (ObjNativeFunc f a n) = NATIVE"
| "objType (ObjBoundNativeFunc f a n r) = BOUND_NATIVE"
| "objType (ObjUpval v) = UPVALUE"
| "objType (ObjClosure f us) = CLOSURE"
| "objType (ObjArray vs n) = ARRAY"
| "objType (ObjClass n ms) = CLASS"
| "objType (ObjInstance k fs) = INSTANCE"
| "objType (ObjBoundMethod r m) = BOUND_METHOD"
| "objType ObjFile = FILE"
| "objType ObjMutex = MUTEX"
| "objType (ObjFuture thr v ready) = FUTURE"

type_synonym heap = "addr \<rightharpoonup> Obj"

text \<open>
  What interpretation can end in besides a result: \<open>runtimeError(msg, code)\<close> throws the
  integer code (the message is not modelled); \<open>Undefined\<close> stands for undefined behaviour
  of the C++ (a dangling or null pointer dereferenced, an array read out of range, an
  overflow of signed arithmetic); \<open>Blocked\<close> stands for a wait that has not ended.
\<close>

datatype failure = RuntimeError nat | Undefined | Blocked

definition runtimeError :: "nat \<Rightarrow> failure + 'a" where
  "runtimeError errorCode = Inl (RuntimeError errorCode)"

definition andThen :: "failure + 'a \<Rightarrow> ('a \<Rightarrow> failure + 'b) \<Rightarrow> failure + 'b" where
  "andThen r f = (case r of Inl e \<Rightarrow> Inl e | Inr x \<Rightarrow> f x)"

text \<open>
  \<open>isObj(x) && decodeObj(x)->type == ty\<close>, the shape of \<open>isString\<close>, \<open>isArray\<close>,
  \<open>isInstance\<close>, \<open>isUpvalue\<close> and the others.
\<close>

definition isObjOfType :: "heap \<Rightarrow> ObjType \<Rightarrow> Value \<Rightarrow> failure + bool" where
  "isObjOfType h ty x =
     (if isObj x then
        (case h (decodeObj x) of
           None \<Rightarrow> Inl Undefined
         | Some ob \<Rightarrow> Inr (objType ob = ty))
      else Inr False)"

definition isString :: "heap \<Rightarrow> Value \<Rightarrow> failure + bool" where "isString h = isObjOfType h STRING"
definition isArray :: "heap \<Rightarrow> Value \<Rightarrow> failure + bool" where "isArray h = isObjOfType h ARRAY"
definition isClosure :: "heap \<Rightarrow> Value \<Rightarrow> failure + bool" where "isClosure h = isObjOfType h CLOSURE"
definition isClass :: "heap \<Rightarrow> Value \<Rightarrow> failure + bool" where "isClass h = isObjOfType h CLASS"
definition isInstance :: "heap \<Rightarrow> Value \<Rightarrow> failure + bool" where "isInstance h = isObjOfType h INSTANCE"
definition isUpvalue :: "heap \<Rightarrow> Value \<Rightarrow> failure + bool" where "isUpvalue h = isObjOfType h UPVALUE"

definition isFalsey :: "Value \<Rightarrow> bool" where
  "isFalsey x = (getType x = NIL \<or> (getType x = BOOL \<and> \<not> decodeBool x))"

subsection \<open>Equality of values\<close>

text \<open>
  Modelled from the spec: \<open>ObjString::toString\<close> is not among the sources; for the
  comparison of two strings to be content equality it returns the characters of the
  string.  What \<open>toString\<close> prints for the other kinds of object is the parameter
  \<open>printed\<close>.
\<close>

definition toString :: "(Obj \<Rightarrow> string) \<Rightarrow> Obj \<Rightarrow> string" where
  "toString printed ob = (case ob of ObjString s \<Rightarrow> s | _ \<Rightarrow> printed ob)"

text \<open>
  \<open>equals\<close>.  The macro \<open>FLOAT_EQ\<close> is defined in a header that is not among the sources;
  it is a parameter, applied as in the source to the two \<open>Value\<close> words.
\<close>

definition equals :: "(Value \<Rightarrow> Value \<Rightarrow> bool) \<Rightarrow> (Obj \<Rightarrow> string) \<Rightarrow> heap \<Rightarrow> Value \<Rightarrow> Value \<Rightarrow> failure + bool" where
  "equals FLOAT_EQ printed h x y =
     (let type = getType x in
      if type \<noteq> getType y then Inr False
      else if type = DOUBLE then Inr (FLOAT_EQ x y)
      else if type = OBJ then
        (case h (decodeObj x) of
           None \<Rightarrow> Inl Undefined
         | Some ox \<Rightarrow>
             if objType ox = STRING then
               (case h (decodeObj y) of
                  None \<Rightarrow> Inl Undefined
                | Some oy \<Rightarrow> Inr (toString printed ox = toString printed oy))
             else Inr (x = y))
      else Inr (x = y))"

section \<open>Threads (Runtime/thread.cpp)\<close>

text \<open>
  The shared code block \<open>vm->code\<close>: the byte array and the constant pool.
\<close>

record Chunk =
  bytecode :: "8 word list"
  constants :: "Value list"

record CallFrame =
  closure :: addr
  ip :: nat
  slots :: nat

text \<open>
  A thread together with what its interpreter loop works on.  \<open>stack\<close> is the part of the
  stack array below \<open>stackTop\<close>; \<open>STACK_MAX\<close> and \<open>FRAMES_MAX\<close>, the sizes of the two
  arrays, are declared in a header that is not among the sources and are fields here.
  \<open>pc\<close>, \<open>slotStart\<close> and \<open>constantOffset\<close> are the locals \<open>ip\<close>, \<open>slotStart\<close> and
  \<open>constantOffset\<close> of \<open>executeBytecode\<close>, with \<open>pc\<close> and \<open>slotStart\<close> as indices into the
  byte array and the stack.  \<open>heap\<close> is the memory behind the object pointers.  Each
  \<open>new\<close> of an object is modelled by a bump allocator: the object is placed at
  \<open>nextFree\<close>, which then advances.
\<close>

record Thread =
  stack :: "Value list"
  frames :: "CallFrame list"
  STACK_MAX :: nat
  FRAMES_MAX :: nat
  code :: Chunk
  pc :: nat
  slotStart :: nat
  constantOffset :: nat
  heap :: heap
  nextFree :: addr

definition new :: "Obj \<Rightarrow> Thread \<Rightarrow> addr \<times> Thread" where
  "new ob t = (nextFree t, t\<lparr>heap := (heap t)(nextFree t \<mapsto> ob), nextFree := nextFree t + 16\<rparr>)"

definition push :: "Value \<Rightarrow> Thread \<Rightarrow> failure + Thread" where
  "push val t =
     (if length (stack t) \<ge> STACK_MAX t then runtimeError 1
      else Inr (t\<lparr>stack := stack t @ [val]\<rparr>))"

definition pop :: "Thread \<Rightarrow> failure + Value \<times> Thread" where
  "pop t =
     (if stack t = [] then Inl Undefined
      else Inr (last (stack t), t\<lparr>stack := butlast (stack t)\<rparr>))"

definition peek :: "nat \<Rightarrow> Thread \<Rightarrow> failure + Value" where
  "peek depth t =
     (if depth < length (stack t) then Inr (stack t ! (length (stack t) - 1 - depth))
      else Inl Undefined)"

text \<open>Writing the slot \<open>stackTop[-1 - depth]\<close>.\<close>

definition poke :: "nat \<Rightarrow> Value \<Rightarrow> Thread \<Rightarrow> failure + Thread" where
  "poke depth val t =
     (if depth < length (stack t)
      then Inr (t\<lparr>stack := (stack t)[length (stack t) - 1 - depth := val]\<rparr>)
      else Inl Undefined)"

definition READ_BYTE :: "Thread \<Rightarrow> failure + 8 word \<times> Thread" where
  "READ_BYTE t =
     (if pc t < length (bytecode (code t))
      then Inr (bytecode (code t) ! pc t, t\<lparr>pc := pc t + 1\<rparr>)
      else Inl Undefined)"

definition READ_SHORT :: "Thread \<Rightarrow> failure + 16 word \<times> Thread" where
  "READ_SHORT t =
     (if pc t + 1 < length (bytecode (code t))
      then Inr (push_bit 8 (ucast (bytecode (code t) ! pc t)) OR ucast (bytecode (code t) ! (pc t + 1)),
                t\<lparr>pc := pc t + 2\<rparr>)
      else Inl Undefined)"

definition constantAt :: "nat \<Rightarrow> Thread \<Rightarrow> failure + Value" where
  "constantAt i t =
     (if constantOffset t + i < length (constants (code t))
      then Inr (constants (code t) ! (constantOffset t + i))
      else Inl Undefined)"

definition READ_CONSTANT :: "Thread \<Rightarrow> failure + Value \<times> Thread" where
  "READ_CONSTANT t =
     andThen (READ_BYTE t) (\<lambda>(b, t1).
     andThen (constantAt (unat b) t1) (\<lambda>v. Inr (v, t1)))"

definition READ_CONSTANT_LONG :: "Thread \<Rightarrow> failure + Value \<times> Thread" where
  "READ_CONSTANT_LONG t =
     andThen (READ_SHORT t) (\<lambda>(s, t1).
     andThen (constantAt (unat s) t1) (\<lambda>v. Inr (v, t1)))"

text \<open>\<open>asString(v)->str\<close>: the pointer is taken for a string without a check.\<close>

definition strOf :: "heap \<Rightarrow> Value \<Rightarrow> failure + string" where
  "strOf h v = (case h (decodeObj v) of Some (ObjString s) \<Rightarrow> Inr s | _ \<Rightarrow> Inl Undefined)"

definition READ_STRING :: "Thread \<Rightarrow> failure + string \<times> Thread" where
  "READ_STRING t =
     andThen (READ_CONSTANT t) (\<lambda>(v, t1).
     andThen (strOf (heap t1) v) (\<lambda>s. Inr (s, t1)))"

subsection \<open>Calls\<close>

text \<open>\<open>Thread::call\<close>.  The function object behind \<open>closure->func\<close> gives the arity.\<close>

definition call :: "addr \<Rightarrow> nat \<Rightarrow> Thread \<Rightarrow> failure + Thread" where
  "call clos argCount t =
     (case heap t clos of
        Some (ObjClosure func upvals) \<Rightarrow>
          (case heap t func of
             Some (ObjFunc arity upvalueCount bytecodeOffset constantsOffset name) \<Rightarrow>
               if int argCount \<noteq> arity then runtimeError 2
               else if length (frames t) = FRAMES_MAX t then runtimeError 1
               else if length (stack t) < argCount + 1 then Inl Undefined
               else Inr (t\<lparr>frames := frames t @
                          [\<lparr>closure = clos, ip = bytecodeOffset,
                            slots = length (stack t) - argCount - 1\<rparr>]\<rparr>)
           | _ \<Rightarrow> Inl Undefined)
      | _ \<Rightarrow> Inl Undefined)"

text \<open>
  The call of a native stub, \<open>native(this, argCount)\<close>, and what follows it: when the
  stub answers true, the value on top replaces the slot below it.  The stubs themselves
  are the parameter \<open>natives\<close>.
\<close>

definition callNative ::
  "(nat \<Rightarrow> nat \<Rightarrow> Thread \<Rightarrow> failure + bool \<times> Thread) \<Rightarrow> nat \<Rightarrow> nat \<Rightarrow> Thread \<Rightarrow> failure + Thread" where
  "callNative natives func argCount t =
     andThen (natives func argCount t) (\<lambda>(collapse, t1).
       if collapse then
         andThen (peek 0 t1) (\<lambda>top.
         andThen (poke 1 top t1) (\<lambda>t2.
         andThen (pop t2) (\<lambda>(v, t3). Inr t3)))
       else Inr t1)"

text \<open>\<open>Thread::callValue\<close>, one case per object type as in the \<open>switch\<close>.\<close>

definition callValue ::
  "(nat \<Rightarrow> nat \<Rightarrow> Thread \<Rightarrow> failure + bool \<times> Thread) \<Rightarrow> Value \<Rightarrow> nat \<Rightarrow> Thread \<Rightarrow> failure + Thread" where
  "callValue natives callee argCount t =
     (if isObj callee then
        (case heap t (decodeObj callee) of
           None \<Rightarrow> Inl Undefined
         | Some (ObjClosure func upvals) \<Rightarrow> call (decodeObj callee) argCount t
         | Some (ObjNativeFunc func arity name) \<Rightarrow>
             if arity \<noteq> -1 \<and> int argCount \<noteq> arity then runtimeError 2
             else callNative natives func argCount t
         | Some (ObjBoundNativeFunc func arity name receiver) \<Rightarrow>
             andThen (poke argCount receiver t) (\<lambda>t1.
               if arity \<noteq> -1 \<and> int argCount \<noteq> arity then runtimeError 2
               else callNative natives func argCount t1)
         | Some (ObjClass name methods) \<Rightarrow>
             (let (inst, t1) = new (ObjInstance (decodeObj callee) Map.empty) t in
              andThen (poke argCount (encodeObj inst) t1) (\<lambda>t2.
                case methods name of
                  Some ctor \<Rightarrow> call (decodeObj ctor) argCount t2
                | None \<Rightarrow> if argCount \<noteq> 0 then runtimeError 2 else Inr t2))
         | Some (ObjBoundMethod receiver method) \<Rightarrow>
             andThen (poke argCount receiver t) (\<lambda>t1. call method argCount t1)
         | Some _ \<Rightarrow> runtimeError 3)
      else runtimeError 3)"

subsection \<open>Upvalues and locals\<close>

text \<open>\<open>captureUpvalue\<close>; \<open>local\<close> is the index of the stack slot.\<close>

definition captureUpvalue :: "nat \<Rightarrow> Thread \<Rightarrow> failure + addr \<times> Thread" where
  "captureUpvalue local t =
     (if local < length (stack t) then
        (let (upval, t1) = new (ObjUpval (stack t ! local)) t
         in Inr (upval, t1\<lparr>stack := (stack t1)[local := encodeObj upval]\<rparr>))
      else Inl Undefined)"

text \<open>\<open>frame->closure->upvals\<close> of the running frame.\<close>

definition frameUpvals :: "Thread \<Rightarrow> failure + addr list" where
  "frameUpvals t =
     (if frames t = [] then Inl Undefined
      else (case heap t (closure (last (frames t))) of
              Some (ObjClosure func upvals) \<Rightarrow> Inr upvals
            | _ \<Rightarrow> Inl Undefined))"

text \<open>
  The loop of \<open>CLOSURE\<close> over the upvalue slots of the new closure: \<open>n\<close> slots are still
  to be filled, \<open>acc\<close> holds the ones filled so far.
\<close>

fun fillUpvals :: "nat \<Rightarrow> addr list \<Rightarrow> Thread \<Rightarrow> failure + addr list \<times> Thread" where
  "fillUpvals 0 acc t = Inr (acc, t)"
| "fillUpvals (Suc n) acc t =
     andThen (READ_BYTE t) (\<lambda>(isLocal, t1).
     andThen (READ_BYTE t1) (\<lambda>(index, t2).
       if isLocal \<noteq> 0 then
         andThen (captureUpvalue (slotStart t2 + unat index) t2) (\<lambda>(upval, t3).
           fillUpvals n (acc @ [upval]) t3)
       else
         andThen (frameUpvals t2) (\<lambda>ups.
           if unat index < length ups then fillUpvals n (acc @ [ups ! unat index]) t2
           else Inl Undefined)))"

text \<open>
  Modelled from the spec: the constructor of \<open>ObjClosure\<close>, which \<open>CLOSURE\<close> calls, is not
  among the sources; the closure it makes has one upvalue slot for each of
  \<open>func->upvalueCount\<close>.  The rest is the opcode as written: the loop assigns every slot.
\<close>

definition op_CLOSURE :: "Thread \<Rightarrow> failure + Thread" where
  "op_CLOSURE t =
     andThen (READ_CONSTANT t) (\<lambda>(fv, t1).
       case heap t1 (decodeObj fv) of
         Some (ObjFunc arity upvalueCount bytecodeOffset constantsOffset name) \<Rightarrow>
           (let (clos, t2) = new (ObjClosure (decodeObj fv) (replicate upvalueCount 0)) t1 in
            andThen (fillUpvals upvalueCount [] t2) (\<lambda>(ups, t3).
              push (encodeObj clos) (t3\<lparr>heap := (heap t3)(clos \<mapsto> ObjClosure (decodeObj fv) ups)\<rparr>)))
       | _ \<Rightarrow> Inl Undefined)"

definition op_GET_LOCAL :: "Thread \<Rightarrow> failure + Thread" where
  "op_GET_LOCAL t =
     andThen (READ_BYTE t) (\<lambda>(slot, t1).
       if slotStart t1 + unat slot < length (stack t1) then
         (let val = stack t1 ! (slotStart t1 + unat slot) in
          andThen (isUpvalue (heap t1) val) (\<lambda>up.
            if up then
              (case heap t1 (decodeObj val) of
                 Some (ObjUpval v) \<Rightarrow> push v t1
               | _ \<Rightarrow> Inl Undefined)
            else push val t1))
       else Inl Undefined)"

definition op_SET_LOCAL :: "Thread \<Rightarrow> failure + Thread" where
  "op_SET_LOCAL t =
     andThen (READ_BYTE t) (\<lambda>(slot, t1).
       if slotStart t1 + unat slot < length (stack t1) then
         (let val = stack t1 ! (slotStart t1 + unat slot) in
          andThen (isUpvalue (heap t1) val) (\<lambda>up.
          andThen (peek 0 t1) (\<lambda>top.
            if up then Inr (t1\<lparr>heap := (heap t1)(decodeObj val \<mapsto> ObjUpval top)\<rparr>)
            else Inr (t1\<lparr>stack := (stack t1)[slotStart t1 + unat slot := top]\<rparr>))))
       else Inl Undefined)"

definition op_GET_UPVALUE :: "Thread \<Rightarrow> failure + Thread" where
  "op_GET_UPVALUE t =
     andThen (READ_BYTE t) (\<lambda>(slot, t1).
     andThen (frameUpvals t1) (\<lambda>ups.
       if unat slot < length ups then
         (case heap t1 (ups ! unat slot) of
            Some (ObjUpval v) \<Rightarrow> push v t1
          | _ \<Rightarrow> Inl Undefined)
       else Inl Undefined))"

definition op_SET_UPVALUE :: "Thread \<Rightarrow> failure + Thread" where
  "op_SET_UPVALUE t =
     andThen (READ_BYTE t) (\<lambda>(slot, t1).
     andThen (frameUpvals t1) (\<lambda>ups.
     andThen (peek 0 t1) (\<lambda>top.
       if unat slot < length ups then
         (case heap t1 (ups ! unat slot) of
            Some (ObjUpval v) \<Rightarrow> Inr (t1\<lparr>heap := (heap t1)(ups ! unat slot \<mapsto> ObjUpval top)\<rparr>)
          | _ \<Rightarrow> Inl Undefined)
       else Inl Undefined)))"

subsection \<open>Arrays and structs\<close>

text \<open>
  The lambda \<open>checkArrayBounds\<close>.  \<open>index\<close> is an \<open>int32_t\<close>; \<open>arr->values.size()\<close> is a
  \<open>size_t\<close>, so \<open>arr->values.size() - 1\<close> is computed in 64-bit unsigned arithmetic and
  \<open>index\<close> is converted to 64 bits unsigned (sign-extended) for the comparison.
\<close>

definition checkArrayBounds :: "Value \<Rightarrow> Value list \<Rightarrow> failure + 32 word" where
  "checkArrayBounds field vals =
     (if \<not> isInt field then runtimeError 3
      else
        (let index = decodeInt field in
         if sint index < 0 \<or> (scast index :: 64 word) > of_nat (length vals) - 1
         then runtimeError 9
         else Inr index))"

text \<open>Reading \<open>arr->values[index]\<close> with the \<open>uInt64 index\<close> that \<open>checkArrayBounds\<close> returned.\<close>

definition valueAt :: "Value list \<Rightarrow> 32 word \<Rightarrow> failure + Value" where
  "valueAt vals index32 =
     (let index = unat (scast index32 :: 64 word) in
      if index < length vals then Inr (vals ! index) else Inl Undefined)"

text \<open>The loop of \<open>CREATE_ARRAY\<close>: \<open>n\<close> values are still to be popped into the array.\<close>

fun popIntoArray :: "nat \<Rightarrow> Value list \<Rightarrow> 64 word \<Rightarrow> Thread \<Rightarrow> failure + (Value list \<times> 64 word) \<times> Thread" where
  "popIntoArray 0 vals numOfHeapPtr t = Inr ((vals, numOfHeapPtr), t)"
| "popIntoArray (Suc n) vals numOfHeapPtr t =
     andThen (pop t) (\<lambda>(val, t1).
       popIntoArray n (vals[n := val]) (if isObj val then numOfHeapPtr + 1 else numOfHeapPtr) t1)"

definition op_CREATE_ARRAY :: "Thread \<Rightarrow> failure + Thread" where
  "op_CREATE_ARRAY t =
     andThen (READ_BYTE t) (\<lambda>(sz, t1).
       (let (arr, t2) = new (ObjArray (replicate (unat sz) 0) 0) t1 in
        andThen (popIntoArray (unat sz) (replicate (unat sz) 0) 0 t2) (\<lambda>((vals, n), t3).
          push (encodeObj arr) (t3\<lparr>heap := (heap t3)(arr \<mapsto> ObjArray vals n)\<rparr>))))"

definition op_GET :: "Thread \<Rightarrow> failure + Thread" where
  "op_GET t =
     andThen (pop t) (\<lambda>(field, t1).
     andThen (pop t1) (\<lambda>(callee, t2).
     andThen (isArray (heap t2) callee) (\<lambda>isArr.
       if isArr then
         (case heap t2 (decodeObj callee) of
            Some (ObjArray vals numOfHeapPtr) \<Rightarrow>
              andThen (checkArrayBounds field vals) (\<lambda>index.
              andThen (valueAt vals index) (\<lambda>v. push v t2))
          | _ \<Rightarrow> Inl Undefined)
       else
         andThen (isInstance (heap t2) callee) (\<lambda>isInst.
           case (if isInst then heap t2 (decodeObj callee) else None) of
             Some (ObjInstance klass fs) \<Rightarrow>
               if klass = 0 then
                 andThen (isString (heap t2) field) (\<lambda>isStr.
                   if \<not> isStr then runtimeError 3
                   else
                     andThen (strOf (heap t2) field) (\<lambda>name.
                       case fs name of
                         Some v \<Rightarrow> push v t2
                       | None \<Rightarrow> runtimeError 4))
               else runtimeError 3
           | _ \<Rightarrow> runtimeError 3))))"

definition op_SET :: "Thread \<Rightarrow> failure + Thread" where
  "op_SET t =
     andThen (pop t) (\<lambda>(field, t1).
     andThen (pop t1) (\<lambda>(callee, t2).
     andThen (peek 0 t2) (\<lambda>val.
     andThen (isArray (heap t2) callee) (\<lambda>isArr.
       if isArr then
         (case heap t2 (decodeObj callee) of
            Some (ObjArray vals numOfHeapPtr) \<Rightarrow>
              andThen (checkArrayBounds field vals) (\<lambda>index.
              andThen (valueAt vals index) (\<lambda>old.
                (let n = (if isObj val \<and> \<not> isObj old then numOfHeapPtr + 1
                          else if \<not> isObj val \<and> isObj old then numOfHeapPtr - 1
                          else numOfHeapPtr)
                 in Inr (t2\<lparr>heap := (heap t2)(decodeObj callee \<mapsto>
                        ObjArray (vals[unat (scast index :: 64 word) := val]) n)\<rparr>))))
          | _ \<Rightarrow> Inl Undefined)
       else
         andThen (isInstance (heap t2) callee) (\<lambda>isInst.
           case (if isInst then heap t2 (decodeObj callee) else None) of
             Some (ObjInstance klass fs) \<Rightarrow>
               if klass = 0 then
                 andThen (isString (heap t2) field) (\<lambda>isStr.
                   if \<not> isStr then runtimeError 3
                   else
                     andThen (strOf (heap t2) field) (\<lambda>name.
                       Inr (t2\<lparr>heap := (heap t2)(decodeObj callee \<mapsto>
                              ObjInstance klass (fs(name \<mapsto> val)))\<rparr>)))
               else runtimeError 3
           | _ \<Rightarrow> runtimeError 3)))))"

definition op_SET_PROPERTY :: "Thread \<Rightarrow> failure + Thread" where
  "op_SET_PROPERTY t =
     andThen (pop t) (\<lambda>(inst, t1).
     andThen (isInstance (heap t1) inst) (\<lambda>isInst.
       if \<not> isInst then runtimeError 3
       else
         (case heap t1 (decodeObj inst) of
            Some (ObjInstance klass fs) \<Rightarrow>
              andThen (READ_STRING t1) (\<lambda>(name, t2).
              andThen (peek 0 t2) (\<lambda>val.
                Inr (t2\<lparr>heap := (heap t2)(decodeObj inst \<mapsto>
                       ObjInstance klass (fs(name \<mapsto> val)))\<rparr>)))
          | _ \<Rightarrow> Inl Undefined)))"

text \<open>The loop of \<open>CREATE_STRUCT\<close>: \<open>n\<close> fields are still to be read and popped.\<close>

fun readFields :: "nat \<Rightarrow> (string \<rightharpoonup> Value) \<Rightarrow> Thread \<Rightarrow> failure + (string \<rightharpoonup> Value) \<times> Thread" where
  "readFields 0 fs t = Inr (fs, t)"
| "readFields (Suc n) fs t =
     andThen (READ_STRING t) (\<lambda>(name, t1).
     andThen (pop t1) (\<lambda>(val, t2).
       readFields n (fs(name \<mapsto> val)) t2))"

definition op_CREATE_STRUCT :: "Thread \<Rightarrow> failure + Thread" where
  "op_CREATE_STRUCT t =
     andThen (READ_BYTE t) (\<lambda>(numOfFields, t1).
       (let (inst, t2) = new (ObjInstance 0 Map.empty) t1 in
        andThen (readFields (unat numOfFields) Map.empty t2) (\<lambda>(fs, t3).
          push (encodeObj inst) (t3\<lparr>heap := (heap t3)(inst \<mapsto> ObjInstance 0 fs)\<rparr>))))"

subsection \<open>Property access\<close>

datatype Builtin =
  Builtin_COMMON | Builtin_STRING | Builtin_ARRAY | Builtin_FILE | Builtin_MUTEX | Builtin_FUTURE

text \<open>
  \<open>findNativeMethod\<close>.  The table \<open>vm->nativeClasses\<close> of methods of the builtin types is
  the parameter \<open>nativeClasses\<close>; a method is its stub and its arity.
\<close>

definition findNativeMethod ::
  "(Builtin \<Rightarrow> string \<rightharpoonup> nat \<times> int) \<Rightarrow> heap \<Rightarrow> Value \<Rightarrow> string \<Rightarrow> failure + nat \<times> int" where
  "findNativeMethod nativeClasses h receiver name =
     andThen
       (if isObj receiver then
          (case h (decodeObj receiver) of
             None \<Rightarrow> Inl Undefined
           | Some ob \<Rightarrow>
               Inr (case objType ob of
                      STRING \<Rightarrow> Builtin_STRING
                    | ARRAY \<Rightarrow> Builtin_ARRAY
                    | FILE \<Rightarrow> Builtin_FILE
                    | MUTEX \<Rightarrow> Builtin_MUTEX
                    | FUTURE \<Rightarrow> Builtin_FUTURE
                    | _ \<Rightarrow> Builtin_COMMON))
        else Inr Builtin_COMMON)
       (\<lambda>type.
          case nativeClasses type name of
            Some m \<Rightarrow> Inr m
          | None \<Rightarrow> runtimeError 4)"

text \<open>\<open>bindMethod\<close>: the result says whether the method was found.\<close>

definition bindMethod :: "addr \<Rightarrow> string \<Rightarrow> Thread \<Rightarrow> failure + bool \<times> Thread" where
  "bindMethod klass name t =
     (case heap t klass of
        Some (ObjClass cname methods) \<Rightarrow>
          (case methods name of
             None \<Rightarrow> Inr (False, t)
           | Some m \<Rightarrow>
               andThen (peek 0 t) (\<lambda>receiver.
                 (let (bound, t1) = new (ObjBoundMethod receiver (decodeObj m)) t in
                  andThen (poke 0 (encodeObj bound) t1) (\<lambda>t2. Inr (True, t2)))))
      | _ \<Rightarrow> Inl Undefined)"

definition bindMethodToPrimitive ::
  "(Builtin \<Rightarrow> string \<rightharpoonup> nat \<times> int) \<Rightarrow> Value \<Rightarrow> string \<Rightarrow> Thread \<Rightarrow> failure + Thread" where
  "bindMethodToPrimitive nativeClasses receiver methodName t =
     andThen (findNativeMethod nativeClasses (heap t) receiver methodName) (\<lambda>(func, arity).
       (let (bound, t1) = new (ObjBoundNativeFunc func arity methodName receiver) t
        in push (encodeObj bound) t1))"

definition op_GET_PROPERTY :: "(Builtin \<Rightarrow> string \<rightharpoonup> nat \<times> int) \<Rightarrow> Thread \<Rightarrow> failure + Thread" where
  "op_GET_PROPERTY nativeClasses t =
     andThen (pop t) (\<lambda>(inst, t1).
     andThen (READ_STRING t1) (\<lambda>(name, t2).
     andThen (isInstance (heap t2) inst) (\<lambda>isInst.
       case (if isInst then heap t2 (decodeObj inst) else None) of
         Some (ObjInstance klass fs) \<Rightarrow>
           (case fs name of
              Some v \<Rightarrow> push v t2
            | None \<Rightarrow>
                if klass \<noteq> 0 then
                  andThen (bindMethod klass name t2) (\<lambda>(found, t3).
                    if found then Inr t3
                    else bindMethodToPrimitive nativeClasses inst name t3)
                else bindMethodToPrimitive nativeClasses inst name t2)
       | _ \<Rightarrow> bindMethodToPrimitive nativeClasses inst name t2)))"

subsection \<open>Frames, calls and returns in the interpreter loop\<close>

text \<open>The macros \<open>STORE_FRAME\<close> and \<open>LOAD_FRAME\<close>.\<close>

definition STORE_FRAME :: "Thread \<Rightarrow> failure + Thread" where
  "STORE_FRAME t =
     (if frames t = [] then Inl Undefined
      else Inr (t\<lparr>frames := butlast (frames t) @ [(last (frames t))\<lparr>ip := pc t\<rparr>]\<rparr>))"

definition LOAD_FRAME :: "Thread \<Rightarrow> failure + Thread" where
  "LOAD_FRAME t =
     (if frames t = [] then Inl Undefined
      else
        (let frame = last (frames t) in
         case heap t (closure frame) of
           Some (ObjClosure func upvals) \<Rightarrow>
             (case heap t func of
                Some (ObjFunc arity upvalueCount bytecodeOffset constantsOffset name) \<Rightarrow>
                  Inr (t\<lparr>slotStart := slots frame, pc := ip frame,
                         constantOffset := constantsOffset\<rparr>)
              | _ \<Rightarrow> Inl Undefined)
         | _ \<Rightarrow> Inl Undefined))"

definition op_CALL :: "(nat \<Rightarrow> nat \<Rightarrow> Thread \<Rightarrow> failure + bool \<times> Thread) \<Rightarrow> Thread \<Rightarrow> failure + Thread" where
  "op_CALL natives t =
     andThen (READ_BYTE t) (\<lambda>(argCount, t1).
     andThen (STORE_FRAME t1) (\<lambda>t2.
     andThen (peek (unat argCount) t2) (\<lambda>callee.
     andThen (callValue natives callee (unat argCount) t2) LOAD_FRAME)))"

text \<open>
  \<open>RETURN\<close>.  When the last frame is popped the interpreter loop is left; the model
  then returns the thread with no frame (for a child thread the result goes to its
  future, which is not modelled).
\<close>

definition op_RETURN :: "Thread \<Rightarrow> failure + Thread" where
  "op_RETURN t =
     andThen (pop t) (\<lambda>(result, t1).
       if frames t1 = [] then Inl Undefined
       else
         (let t2 = t1\<lparr>frames := butlast (frames t1)\<rparr> in
          if frames t2 = [] then Inr t2
          else if slotStart t2 \<le> length (stack t2) then
            andThen (push result (t2\<lparr>stack := take (slotStart t2) (stack t2)\<rparr>)) LOAD_FRAME
          else Inl Undefined))"

definition op_POP :: "Thread \<Rightarrow> failure + Thread" where
  "op_POP t = andThen (pop t) (\<lambda>(v, t1). Inr t1)"

definition op_LOAD_INT :: "Thread \<Rightarrow> failure + Thread" where
  "op_LOAD_INT t = andThen (READ_BYTE t) (\<lambda>(b, t1). push (encodeInt (ucast b)) t1)"

definition op_NIL :: "Thread \<Rightarrow> failure + Thread" where
  "op_NIL t = push encodeNil t"

text \<open>
  One turn of the interpreter loop with the opcode decoded: the opcode byte is read and
  the instruction \<open>instr\<close> that it stands for is run.  (The numbering of the opcodes is
  declared in a header that is not among the sources.)
\<close>

definition dispatch :: "(Thread \<Rightarrow> failure + Thread) \<Rightarrow> Thread \<Rightarrow> failure + Thread" where
  "dispatch instr t = andThen (READ_BYTE t) (\<lambda>(opcode, t1). instr t1)"

definition op_CONSTANT :: "Thread \<Rightarrow> failure + Thread" where
  "op_CONSTANT t = andThen (READ_CONSTANT t) (\<lambda>(constant, t1). push constant t1)"

section \<open>Running instruction sequences\<close>

text \<open>
  \<open>run\<close> performs the given instructions one after the other, each after reading its
  opcode byte, and stops at the first failure.  What is observed of a run: the stack,
  an object, and the field of a struct.
\<close>

definition run :: "(Thread \<Rightarrow> failure + Thread) list \<Rightarrow> Thread \<Rightarrow> failure + Thread" where
  "run instrs t = fold (\<lambda>instr r. andThen r (dispatch instr)) instrs (Inr t)"

definition stackAfter :: "failure + Thread \<Rightarrow> Value list option" where
  "stackAfter r = (case r of Inl e \<Rightarrow> None | Inr t \<Rightarrow> Some (stack t))"

definition objectAfter :: "failure + Thread \<Rightarrow> addr \<Rightarrow> Obj option" where
  "objectAfter r a = (case r of Inl e \<Rightarrow> None | Inr t \<Rightarrow> heap t a)"

definition structFieldAfter :: "failure + Thread \<Rightarrow> addr \<Rightarrow> string \<Rightarrow> Value option" where
  "structFieldAfter r a name =
     (case objectAfter r a of
        Some (ObjInstance klass fs) \<Rightarrow> if klass = 0 then fs name else None
      | _ \<Rightarrow> None)"

definition no_natives :: "nat \<Rightarrow> nat \<Rightarrow> Thread \<Rightarrow> failure + bool \<times> Thread" where
  "no_natives func argCount t = Inl Undefined"

text \<open>
  Two sibling closures over one local: the statements
  \<^verbatim>\<open>let f = fn() { return x; }; let g = fn() { x = 5; }; g(); f(); x;\<close>
  in a function whose closure is in slot 0 and whose local \<open>x\<close>, in slot 1, holds 1.
  The values of \<open>f()\<close> and \<open>x\<close> are left on the stack.  The function objects of \<open>f\<close>
  (code at 20) and \<open>g\<close> (code at 24) are the constants 0 and 1; each names one upvalue,
  the local in slot 1.  Opcode bytes are written as 0.
  \<^verbatim>\<open>
   0 CLOSURE 0 (1,1)    4 CLOSURE 1 (1,1)    8 GET_LOCAL 3   10 CALL 0   12 POP
  13 GET_LOCAL 2       15 CALL 0            17 GET_LOCAL 1
  20 GET_UPVALUE 0     22 RETURN
  24 LOAD_INT 5        26 SET_UPVALUE 0     28 POP          29 NIL      30 RETURN
  \<close>
\<close>

definition siblings_start :: Thread where
  "siblings_start =
     \<lparr>stack = [encodeObj 0x130, encodeInt 1],
      frames = [\<lparr>closure = 0x130, ip = 0, slots = 0\<rparr>],
      STACK_MAX = 256, FRAMES_MAX = 64,
      code = \<lparr>bytecode = [0, 0, 1, 1,  0, 1, 1, 1,  0, 3,  0, 0,  0,  0, 2,  0, 0,  0, 1,  0,
                           0, 0,  0,  0,
                           0, 5,  0, 0,  0,  0,  0],
               constants = [encodeObj 0x100, encodeObj 0x110]\<rparr>,
      pc = 0, slotStart = 0, constantOffset = 0,
      heap = [0x100 \<mapsto> ObjFunc 0 1 20 0 ''f'', 0x110 \<mapsto> ObjFunc 0 1 24 0 ''g'',
              0x120 \<mapsto> ObjFunc 0 0 0 0 ''script'', 0x130 \<mapsto> ObjClosure 0x120 []],
      nextFree = 0x200\<rparr>"

definition siblings_program :: "(Thread \<Rightarrow> failure + Thread) list" where
  "siblings_program =
     [op_CLOSURE, op_CLOSURE,
      op_GET_LOCAL, op_CALL no_natives,
        op_LOAD_INT, op_SET_UPVALUE, op_POP, op_NIL, op_RETURN,
      op_POP,
      op_GET_LOCAL, op_CALL no_natives,
        op_GET_UPVALUE, op_RETURN,
      op_GET_LOCAL]"

text \<open>
  The statements \<^verbatim>\<open>let a = []; a[0];\<close> in a function, \<open>a\<close> being the local in slot 1:
  \<^verbatim>\<open>0 CREATE_ARRAY 0    2 GET_LOCAL 1    4 LOAD_INT 0    6 GET\<close>
\<close>

definition empty_array_start :: Thread where
  "empty_array_start =
     \<lparr>stack = [encodeObj 0x130],
      frames = [\<lparr>closure = 0x130, ip = 0, slots = 0\<rparr>],
      STACK_MAX = 256, FRAMES_MAX = 64,
      code = \<lparr>bytecode = [0, 0,  0, 1,  0, 0,  0], constants = []\<rparr>,
      pc = 0, slotStart = 0, constantOffset = 0,
      heap = [0x120 \<mapsto> ObjFunc 0 0 0 0 ''script'', 0x130 \<mapsto> ObjClosure 0x120 []],
      nextFree = 0x200\<rparr>"

definition empty_array_program :: "(Thread \<Rightarrow> failure + Thread) list" where
  "empty_array_program = [op_CREATE_ARRAY, op_GET_LOCAL, op_LOAD_INT, op_GET]"

text \<open>
  The statements \<^verbatim>\<open>let s = {}; s["x"] = 1;\<close> in a function, \<open>s\<close> being the local in slot 1
  and the string \<open>"x"\<close> constant 0:
  \<^verbatim>\<open>0 CREATE_STRUCT 0    2 LOAD_INT 1    4 GET_LOCAL 1    6 CONSTANT 0    8 SET\<close>
\<close>

definition struct_start :: Thread where
  "struct_start =
     \<lparr>stack = [encodeObj 0x130],
      frames = [\<lparr>closure = 0x130, ip = 0, slots = 0\<rparr>],
      STACK_MAX = 256, FRAMES_MAX = 64,
      code = \<lparr>bytecode = [0, 0,  0, 1,  0, 1,  0, 0,  0], constants = [encodeObj 0x140]\<rparr>,
      pc = 0, slotStart = 0, constantOffset = 0,
      heap = [0x120 \<mapsto> ObjFunc 0 0 0 0 ''script'', 0x130 \<mapsto> ObjClosure 0x120 [],
              0x140 \<mapsto> ObjString ''x''],
      nextFree = 0x200\<rparr>"

definition struct_program :: "(Thread \<Rightarrow> failure + Thread) list" where
  "struct_program = [op_CREATE_STRUCT, op_LOAD_INT, op_GET_LOCAL, op_CONSTANT, op_SET]"

text \<open>
  The thread of the struct example just before its \<open>SET\<close>, and a thread about to run
  \<^verbatim>\<open>s.x = 1\<close> on the same struct: \<open>LOAD_INT 1\<close> and \<open>GET_LOCAL 1\<close> done, the operand of
  \<open>SET_PROPERTY\<close> (constant 0, the string \<open>"x"\<close>) next in the code.
\<close>

definition struct_before_SET :: Thread where
  "struct_before_SET =
     struct_start\<lparr>stack := [encodeObj 0x130, encodeObj 0x200, encodeInt 1, encodeObj 0x200,
                            encodeObj 0x140],
                  pc := 9,
                  heap := (heap struct_start)(0x200 \<mapsto> ObjInstance 0 Map.empty),
                  nextFree := 0x210\<rparr>"

definition struct_before_SET_PROPERTY :: Thread where
  "struct_before_SET_PROPERTY =
     struct_start\<lparr>stack := [encodeObj 0x130, encodeObj 0x200, encodeInt 1, encodeObj 0x200],
                  pc := 7,
                  heap := (heap struct_start)(0x200 \<mapsto> ObjInstance 0 Map.empty),
                  nextFree := 0x210\<rparr>"

section \<open>The switch instruction\<close>

text \<open>
  The loop of \<open>SWITCH\<close> over the case constants: \<open>n\<close> constants are still to be read,
  \<open>i\<close> is the loop counter; the result is the counter at the first match.
\<close>

fun switchScan :: "Value \<Rightarrow> nat \<Rightarrow> nat \<Rightarrow> Thread \<Rightarrow> failure + nat option" where
  "switchScan val 0 i t = Inr None"
| "switchScan val (Suc n) i t =
     andThen (READ_CONSTANT t) (\<lambda>(c, t1).
       if val = c then Inr (Some i) else switchScan val n (Suc i) t1)"

definition op_SWITCH :: "Thread \<Rightarrow> failure + Thread" where
  "op_SWITCH t =
     andThen (pop t) (\<lambda>(val, t1).
     andThen (READ_SHORT t1) (\<lambda>(caseNum, t2).
       (let offset = pc t2 + unat caseNum in
        andThen (switchScan val (unat caseNum) 0 t2) (\<lambda>found.
          (let jumpOffset = (case found of
                               Some i \<Rightarrow> offset + i * 2
                             | None \<Rightarrow> offset + unat caseNum * 2)
           in andThen (READ_SHORT (t2\<lparr>pc := jumpOffset\<rparr>)) (\<lambda>(jmp, t3).
                Inr (t3\<lparr>pc := pc t3 + unat jmp\<rparr>)))))))"

fun switchScanLong :: "Value \<Rightarrow> nat \<Rightarrow> nat \<Rightarrow> Thread \<Rightarrow> failure + nat option" where
  "switchScanLong val 0 i t = Inr None"
| "switchScanLong val (Suc n) i t =
     andThen (READ_CONSTANT_LONG t) (\<lambda>(c, t1).
       if val = c then Inr (Some i) else switchScanLong val n (Suc i) t1)"

definition op_SWITCH_LONG :: "Thread \<Rightarrow> failure + Thread" where
  "op_SWITCH_LONG t =
     andThen (pop t) (\<lambda>(val, t1).
     andThen (READ_SHORT t1) (\<lambda>(caseNum, t2).
       (let offset = pc t2 + unat caseNum * 2 in
        andThen (switchScanLong val (unat caseNum) 0 t2) (\<lambda>found.
          (let jumpOffset = (case found of
                               Some i \<Rightarrow> offset + i * 2
                             | None \<Rightarrow> offset + unat caseNum * 2)
           in andThen (READ_SHORT (t2\<lparr>pc := jumpOffset\<rparr>)) (\<lambda>(jmp, t3).
                Inr (t3\<lparr>pc := pc t3 + unat jmp\<rparr>)))))))"

definition pcAfter :: "failure + Thread \<Rightarrow> nat option" where
  "pcAfter r = (case r of Inl e \<Rightarrow> None | Inr t \<Rightarrow> Some (pc t))"

section \<open>Compiler (codegen/compiler.cpp)\<close>

text \<open>
  \<open>error(...)\<close> reports a diagnostic and throws \<open>CompilerException\<close>; the message is not
  modelled.  \<open>CompilerUndefined\<close> stands for undefined behaviour of the C++ (a vector
  indexed out of range).
\<close>

datatype compileFailure = CompilerException | CompilerUndefined

text \<open>
  The opcodes, in the order of the cases of the interpreter loop.  Their numbers are
  declared in a header that is not among the sources; \<open>opc\<close> below is the numbering,
  \<open>+OpCode::X\<close> in the source.  (\<open>NIL\<close>, \<open>NOT\<close>, \<open>CLOSURE\<close> and \<open>CLASS\<close> carry a suffix here.)
\<close>

datatype (plugins only: ) OpCode =
    POP | POPN | LOAD_INT | CONSTANT | CONSTANT_LONG | NIL_OP | TRUE | FALSE
  | NEGATE | NOT_OP | BIN_NOT | INCREMENT
  | BITWISE_XOR | BITWISE_OR | BITWISE_AND | ADD | SUBTRACT | MULTIPLY | DIVIDE | MOD
  | BITSHIFT_LEFT | BITSHIFT_RIGHT
  | EQUAL | NOT_EQUAL | GREATER | GREATER_EQUAL | LESS | LESS_EQUAL
  | GET_NATIVE | DEFINE_GLOBAL | DEFINE_GLOBAL_LONG | GET_GLOBAL | GET_GLOBAL_LONG
  | SET_GLOBAL | SET_GLOBAL_LONG | GET_LOCAL | SET_LOCAL | GET_UPVALUE | SET_UPVALUE
  | JUMP | JUMP_IF_FALSE | JUMP_IF_TRUE | JUMP_IF_FALSE_POP | LOOP_IF_TRUE | LOOP | JUMP_POPN
  | SWITCH | SWITCH_LONG
  | CALL | RETURN | CLOSURE_OP | CLOSURE_LONG
  | LAUNCH_ASYNC | AWAIT
  | CREATE_ARRAY | GET | SET | CLASS_OP | GET_PROPERTY | GET_PROPERTY_LONG
  | SET_PROPERTY | SET_PROPERTY_LONG | CREATE_STRUCT | CREATE_STRUCT_LONG
  | METHOD | INVOKE | INVOKE_LONG | INHERIT | GET_SUPER | GET_SUPER_LONG
  | SUPER_INVOKE | SUPER_INVOKE_LONG

definition UINT16_MAX :: nat where "UINT16_MAX = 65535"
definition SHORT_CONSTANT_LIMIT :: nat where "SHORT_CONSTANT_LIMIT = 255"

subsection \<open>Emitting bytes\<close>

text \<open>The bytes go to the chunk of the function being compiled; line numbers are left out.\<close>

definition emitByte :: "8 word \<Rightarrow> Chunk \<Rightarrow> Chunk" where
  "emitByte b c = c\<lparr>bytecode := bytecode c @ [b]\<rparr>"

definition emitBytes :: "8 word \<Rightarrow> 8 word \<Rightarrow> Chunk \<Rightarrow> Chunk" where
  "emitBytes byte1 byte2 c = emitByte byte2 (emitByte byte1 c)"

definition emit16Bit :: "16 word \<Rightarrow> Chunk \<Rightarrow> Chunk" where
  "emit16Bit number c = emitBytes (ucast (drop_bit 8 number AND 0xff)) (ucast (number AND 0xff)) c"

definition emitByteAnd16Bit :: "8 word \<Rightarrow> 16 word \<Rightarrow> Chunk \<Rightarrow> Chunk" where
  "emitByteAnd16Bit b num c = emit16Bit num (emitByte b c)"

text \<open>
  Modelled from the spec: \<open>Chunk::addConstant\<close>, which \<open>makeConstant\<close> calls, is not
  among the sources; it appends the value to the constant pool of the chunk and returns
  its index.  The rest is \<open>makeConstant\<close> as written: the constant stays in the pool when
  the index is too large and the exception is thrown.
\<close>

definition makeConstant :: "Value \<Rightarrow> Chunk \<Rightarrow> Chunk \<times> (compileFailure + 16 word)" where
  "makeConstant v c =
     (let constant = length (constants c);
          c1 = c\<lparr>constants := constants c @ [v]\<rparr>
      in (c1, if constant > UINT16_MAX then Inl CompilerException else Inr (of_nat constant)))"

text \<open>
  \<open>emitJump\<close> and \<open>patchJump\<close> compute with \<open>int\<close>: a size or a difference of sizes, computed
  in \<open>size_t\<close>, is converted to \<open>int\<close> (\<open>toInt\<close> below: the low 32 bits, read as a signed
  number).  \<open>error\<close> throws \<open>CompilerException\<close>; writing outside the code is undefined.
\<close>

definition toInt :: "int \<Rightarrow> int" where
  "toInt n = sint (word_of_int n :: 32 word)"

definition emitJump :: "8 word \<Rightarrow> Chunk \<Rightarrow> int \<times> Chunk" where
  "emitJump jumpType c =
     (let c1 = emitBytes 0xff 0xff (emitByte jumpType c)
      in (toInt (int (length (bytecode c1)) - 2), c1))"

definition patchJump :: "int \<Rightarrow> Chunk \<Rightarrow> compileFailure + Chunk" where
  "patchJump offset c =
     (let jump = toInt (int (length (bytecode c)) - offset - 2) in
      if jump > int UINT16_MAX then Inl CompilerException
      else if 0 \<le> offset \<and> nat offset + 1 < length (bytecode c) then
        Inr (c\<lparr>bytecode := (bytecode c)[nat offset := word_of_int (jump div 256),
                                          nat offset + 1 := word_of_int jump]\<rparr>)
      else Inl CompilerUndefined)"

subsection \<open>Switch statements\<close>

text \<open>
  A case constant is one of the five literal tokens the parser admits.  For a number the
  token carries the value that \<open>encodeNumber\<close> (not among the sources) makes of it, for
  a string the address of the \<open>ObjString\<close> that the compiler creates for it.
\<close>

datatype CaseConstant = Tok_NUMBER Value | Tok_TRUE | Tok_FALSE | Tok_NIL | Tok_STRING addr

fun caseConstantValue :: "CaseConstant \<Rightarrow> Value" where
  "caseConstantValue (Tok_NUMBER v) = v"
| "caseConstantValue Tok_TRUE = encodeBool True"
| "caseConstantValue Tok_FALSE = encodeBool False"
| "caseConstantValue Tok_NIL = encodeNil"
| "caseConstantValue (Tok_STRING p) = encodeObj p"

text \<open>
  A case: the lexeme of its keyword (\<open>case\<close> or \<open>default\<close>), its constants, and the code
  that \<open>beginScope(); _case->accept(this); endScope();\<close> emits for its statements.
  A switch statement: the code of the expression in parentheses, the cases, and the flag
  \<open>hasDefault\<close> set by the parser.  The placeholders of \<open>break\<close> and \<open>advance\<close> inside a
  body, which \<open>patchScopeJumps\<close> overwrites in place, are part of the body and not modelled
  further: patching them changes neither the length of the code nor the jump table.
\<close>

datatype CaseStmt = CaseStmt string "CaseConstant list" "8 word list"

datatype SwitchStmt = SwitchStmt "8 word list" "CaseStmt list" bool

fun caseConstantsOf :: "CaseStmt \<Rightarrow> CaseConstant list" where
  "caseConstantsOf (CaseStmt caseType cs body) = cs"

text \<open>
  The first loop: every constant of every case goes to the constant pool; a constant
  whose \<open>makeConstant\<close> throws is skipped by the \<open>catch\<close>.
\<close>

fun collectConstants :: "CaseConstant list \<Rightarrow> 16 word list \<Rightarrow> bool \<Rightarrow> Chunk \<Rightarrow> 16 word list \<times> bool \<times> Chunk" where
  "collectConstants [] cs isLong c = (cs, isLong, c)"
| "collectConstants (k # ks) cs isLong c =
     (case makeConstant (caseConstantValue k) c of
        (c1, Inl e) \<Rightarrow> collectConstants ks cs isLong c1
      | (c1, Inr constant) \<Rightarrow>
          collectConstants ks (cs @ [constant])
            (if unat constant > SHORT_CONSTANT_LIMIT then True else isLong) c1)"

text \<open>
  The jump slots, one for each constant and one for the default: positions and code.
  The positions are kept in a \<open>vector<uint16_t>\<close>, which holds the low 16 bits of the code
  size.
\<close>

fun emitJumpSlots :: "nat \<Rightarrow> 16 word list \<Rightarrow> Chunk \<Rightarrow> 16 word list \<times> Chunk" where
  "emitJumpSlots 0 jumps c = (jumps, c)"
| "emitJumpSlots (Suc n) jumps c =
     emitJumpSlots n (jumps @ [of_nat (length (bytecode c))]) (emit16Bit 0xffff c)"

text \<open>The inner loop that patches the jump of each constant of a case; \<open>i\<close> runs on.\<close>

fun patchCaseJumps :: "nat \<Rightarrow> 16 word list \<Rightarrow> nat \<Rightarrow> Chunk \<Rightarrow> compileFailure + nat \<times> Chunk" where
  "patchCaseJumps 0 jumps i c = Inr (i, c)"
| "patchCaseJumps (Suc constantNum) jumps i c =
     (if i < length jumps then
        (case patchJump (uint (jumps ! i)) c of
           Inl e \<Rightarrow> Inl e
         | Inr c1 \<Rightarrow> patchCaseJumps constantNum jumps (Suc i) c1)
      else Inl CompilerUndefined)"

text \<open>
  The loop over the cases: patch the jumps, emit the body, emit the implicit break.  The
  positions of the implicit breaks are kept in a \<open>vector<uint32_t>\<close>.
\<close>

fun compileCases ::
  "(OpCode \<Rightarrow> 8 word) \<Rightarrow> CaseStmt list \<Rightarrow> 16 word list \<Rightarrow> nat \<Rightarrow> 32 word list \<Rightarrow> Chunk \<Rightarrow> compileFailure + 32 word list \<times> Chunk" where
  "compileCases opc [] jumps i implicitBreaks c = Inr (implicitBreaks, c)"
| "compileCases opc (CaseStmt caseType cs body # rest) jumps i implicitBreaks c =
     (case (if caseType = ''default''
            then (case patchJump (uint (jumps ! (length jumps - 1))) c of
                    Inl e \<Rightarrow> Inl e
                  | Inr c1 \<Rightarrow> Inr (i, c1))
            else patchCaseJumps (length cs) jumps i c) of
        Inl e \<Rightarrow> Inl e
      | Inr (i1, c1) \<Rightarrow>
          (let c2 = c1\<lparr>bytecode := bytecode c1 @ body\<rparr>;
               (brk, c3) = emitJump (opc JUMP) c2
           in compileCases opc rest jumps i1 (implicitBreaks @ [word_of_int brk]) c3))"

text \<open>The last loop: each \<open>uInt jmp\<close> is passed to \<open>patchJump\<close> as an \<open>int\<close>.\<close>

fun patchJumps :: "32 word list \<Rightarrow> Chunk \<Rightarrow> compileFailure + Chunk" where
  "patchJumps [] c = Inr c"
| "patchJumps (jmp # jmps) c =
     (case patchJump (sint jmp) c of Inl e \<Rightarrow> Inl e | Inr c1 \<Rightarrow> patchJumps jmps c1)"

text \<open>
  \<open>visitSwitchStmt\<close>.  When there is no default case the source assigns the current code
  size to the last element of the local vector \<open>jumps\<close>, which is not read afterwards:
  \<open>jumps1\<close> below.  The code is not touched by that statement.
\<close>

definition visitSwitchStmt :: "(OpCode \<Rightarrow> 8 word) \<Rightarrow> SwitchStmt \<Rightarrow> Chunk \<Rightarrow> compileFailure + Chunk" where
  "visitSwitchStmt opc stmt c =
     (case stmt of SwitchStmt expr cases hasDefault \<Rightarrow>
        (let c0 = c\<lparr>bytecode := bytecode c @ expr\<rparr>;
             (cs, isLong, c1) = collectConstants (concat (map caseConstantsOf cases)) [] False c0;
             c2 = (if isLong
                   then fold emit16Bit cs (emitByteAnd16Bit (opc SWITCH_LONG) (of_nat (length cs)) c1)
                   else fold (\<lambda>constant. emitByte (ucast constant)) cs
                          (emitByteAnd16Bit (opc SWITCH) (of_nat (length cs)) c1));
             (jumps, c3) = emitJumpSlots (length cs + 1) [] c2
         in case compileCases opc cases jumps 0 [] c3 of
              Inl e \<Rightarrow> Inl e
            | Inr (implicitBreaks, c4) \<Rightarrow>
                (let jumps1 = (if \<not> hasDefault
                               then jumps[length jumps - 1 := of_nat (length (bytecode c4))]
                               else jumps)
                 in patchJumps implicitBreaks c4)))"

text \<open>
  Examples: \<^verbatim>\<open>switch (e) { case 1: s }\<close> and \<^verbatim>\<open>switch (e) { case 1: s default: s }\<close>,
  compiled into an empty chunk; \<open>e\<close> is compiled apart and the body \<open>s\<close> is the one byte
  \<open>body\<close>.  \<open>switch_thread\<close> is a thread about to execute the compiled instruction with
  \<open>scrutinee\<close> on top of its stack.
\<close>

definition switch_no_default :: "8 word \<Rightarrow> SwitchStmt" where
  "switch_no_default body =
     SwitchStmt [] [CaseStmt ''case'' [Tok_NUMBER (encodeInt 1)] [body]] False"

definition switch_with_default :: "8 word \<Rightarrow> SwitchStmt" where
  "switch_with_default body =
     SwitchStmt [] [CaseStmt ''case'' [Tok_NUMBER (encodeInt 1)] [body],
                    CaseStmt ''default'' [] [body]] True"

definition empty_chunk :: Chunk where
  "empty_chunk = \<lparr>bytecode = [], constants = []\<rparr>"

definition switch_thread :: "Chunk \<Rightarrow> Value \<Rightarrow> Thread" where
  "switch_thread c scrutinee =
     \<lparr>stack = [encodeObj 0x130, scrutinee],
      frames = [\<lparr>closure = 0x130, ip = 0, slots = 0\<rparr>],
      STACK_MAX = 256, FRAMES_MAX = 64,
      code = c,
      pc = 0, slotStart = 0, constantOffset = 0,
      heap = [0x120 \<mapsto> ObjFunc 0 0 0 0 ''script'', 0x130 \<mapsto> ObjClosure 0x120 []],
      nextFree = 0x200\<rparr>"

definition runSwitch :: "(OpCode \<Rightarrow> 8 word) \<Rightarrow> SwitchStmt \<Rightarrow> Value \<Rightarrow> nat option" where
  "runSwitch opc stmt scrutinee =
     (case visitSwitchStmt opc stmt empty_chunk of
        Inl e \<Rightarrow> None
      | Inr c \<Rightarrow> pcAfter (dispatch op_SWITCH (switch_thread c scrutinee)))"

definition compiledCode :: "compileFailure + Chunk \<Rightarrow> 8 word list option" where
  "compiledCode r = (case r of Inl e \<Rightarrow> None | Inr c \<Rightarrow> Some (bytecode c))"

definition switch_strings :: "8 word \<Rightarrow> SwitchStmt" where
  "switch_strings body =
     SwitchStmt [] [CaseStmt ''case'' [Tok_STRING 0x140] [body],
                    CaseStmt ''default'' [] [body]] True"

subsection \<open>Class declarations\<close>

text \<open>
  What the compiler knows of the parsed modules: the top-level declarations of each (name
  and kind), its imports (the alias, if any, and the imported module as its position in
  \<open>units\<close>) and the names it exports.
\<close>

datatype ASTType = AST_VAR | AST_FUNC | AST_CLASS

record Dependency =
  depAlias :: "string option"
  depModule :: nat

record CSLModule =
  topDeclarations :: "(string \<times> ASTType) list"
  deps :: "Dependency list"
  exports :: "string list"

text \<open>
  The compiler at global scope (\<open>current->scopeDepth = 0\<close>; class declarations are
  top-level declarations).  A global is its name and its value.  \<open>curUnit\<close> is the
  position of the module being compiled.  \<open>objs\<close> is the memory behind the objects the
  compiler creates, with the same bump allocation as in a thread.
\<close>

record Compiler =
  globals :: "(string \<times> Value) list"
  definedGlobals :: "bool list"
  curGlobalIndex :: nat
  units :: "CSLModule list"
  curUnit :: nat
  objs :: heap
  objsFree :: addr

definition newObj :: "Obj \<Rightarrow> Compiler \<Rightarrow> addr \<times> Compiler" where
  "newObj ob cpl =
     (objsFree cpl,
      cpl\<lparr>objs := (objs cpl)(objsFree cpl \<mapsto> ob), objsFree := objsFree cpl + 16\<rparr>)"

text \<open>The search of \<open>parseVar\<close> through the globals of the current file, from index \<open>i\<close>.\<close>

fun findGlobal :: "string \<Rightarrow> (string \<times> Value) list \<Rightarrow> nat \<Rightarrow> nat \<Rightarrow> nat option" where
  "findGlobal nm gs i 0 = None"
| "findGlobal nm gs i (Suc n) =
     (if i < length gs \<and> nm = fst (gs ! i) then Some i else findGlobal nm gs (Suc i) n)"

definition parseVar :: "string \<Rightarrow> Compiler \<Rightarrow> compileFailure + nat" where
  "parseVar nm cpl =
     (case findGlobal nm (globals cpl) (curGlobalIndex cpl)
             (length (globals cpl) - curGlobalIndex cpl) of
        Some i \<Rightarrow> Inr i
      | None \<Rightarrow> Inl CompilerException)"

definition defineVar :: "nat \<Rightarrow> Compiler \<Rightarrow> Compiler" where
  "defineVar index cpl = cpl\<lparr>definedGlobals := (definedGlobals cpl)[index := True]\<rparr>"

text \<open>
  The loop of \<open>resolveGlobal\<close> over the declarations of the current file: the symbol is
  not declared here, or it is declared but not yet defined (\<open>return -2\<close>), or it is found
  at an index with its kind.
\<close>

datatype Scan = NotInThisFile | NotDefined | InThisFile nat ASTType

fun scanDeclarations :: "string \<Rightarrow> (string \<times> ASTType) list \<Rightarrow> nat \<Rightarrow> bool list \<Rightarrow> compileFailure + Scan" where
  "scanDeclarations symbol [] index defined = Inr NotInThisFile"
| "scanDeclarations symbol ((nm, kind) # decls) index defined =
     (if symbol = nm then
        (if index < length defined then
           (if \<not> defined ! index then Inr NotDefined else Inr (InThisFile index kind))
         else Inl CompilerUndefined)
      else scanDeclarations symbol decls (Suc index) defined)"

text \<open>The index in \<open>globals\<close> of the first declaration of the module at position \<open>m\<close>.\<close>

definition globalIndexOf :: "CSLModule list \<Rightarrow> nat \<Rightarrow> nat" where
  "globalIndexOf us m = sum_list (map (\<lambda>u. length (topDeclarations u)) (take m us))"

text \<open>\<open>checkSymbol\<close>: the loop over the imports of the current file.\<close>

fun checkSymbolDeps :: "string \<Rightarrow> Dependency list \<Rightarrow> Compiler \<Rightarrow> compileFailure + int" where
  "checkSymbolDeps symbol [] cpl = Inr (- 1)"
| "checkSymbolDeps symbol (dep # rest) cpl =
     (if depModule dep < length (units cpl) then
        (let decls = topDeclarations (units cpl ! depModule dep) in
         if depAlias dep = None \<and> symbol \<in> set (map fst decls) then
           (case findGlobal symbol (globals cpl) (globalIndexOf (units cpl) (depModule dep))
                   (length decls) of
              Some i \<Rightarrow> Inr (int i)
            | None \<Rightarrow> Inl CompilerException)
         else checkSymbolDeps symbol rest cpl)
      else Inl CompilerUndefined)"

definition checkSymbol :: "string \<Rightarrow> Compiler \<Rightarrow> compileFailure + int" where
  "checkSymbol symbol cpl =
     (if curUnit cpl < length (units cpl)
      then checkSymbolDeps symbol (deps (units cpl ! curUnit cpl)) cpl
      else Inl CompilerUndefined)"

definition resolveGlobal :: "string \<Rightarrow> bool \<Rightarrow> Compiler \<Rightarrow> compileFailure + int" where
  "resolveGlobal symbol canAssign cpl =
     (if curUnit cpl < length (units cpl) then
        (case scanDeclarations symbol (topDeclarations (units cpl ! curUnit cpl))
                (curGlobalIndex cpl) (definedGlobals cpl) of
           Inl e \<Rightarrow> Inl e
         | Inr NotDefined \<Rightarrow> Inr (- 2)
         | Inr (InThisFile index kind) \<Rightarrow>
             if canAssign then
               (if kind = AST_FUNC then Inl CompilerException
                else if kind = AST_CLASS then Inl CompilerException
                else Inr (int index))
             else Inr (int index)
         | Inr NotInThisFile \<Rightarrow>
             if canAssign then Inl CompilerException else checkSymbol symbol cpl)
      else Inl CompilerUndefined)"

text \<open>
  \<open>resolveModuleVariable\<close>: the import with the given alias, then the position of the
  variable among the exports of that module, counted from the module's first global.
\<close>

fun findAlias :: "string \<Rightarrow> Dependency list \<Rightarrow> Dependency option" where
  "findAlias moduleAlias [] = None"
| "findAlias moduleAlias (dep # rest) =
     (if depAlias dep = Some moduleAlias then Some dep else findAlias moduleAlias rest)"

fun positionIn :: "string \<Rightarrow> string list \<Rightarrow> nat \<Rightarrow> nat option" where
  "positionIn v [] index = None"
| "positionIn v (e # es) index = (if e = v then Some index else positionIn v es (Suc index))"

definition resolveModuleVariable :: "string \<Rightarrow> string \<Rightarrow> Compiler \<Rightarrow> compileFailure + nat" where
  "resolveModuleVariable moduleAlias variable cpl =
     (if curUnit cpl < length (units cpl) then
        (case findAlias moduleAlias (deps (units cpl ! curUnit cpl)) of
           None \<Rightarrow> Inl CompilerException
         | Some dep \<Rightarrow>
             if depModule dep < length (units cpl) then
               (case positionIn variable (exports (units cpl ! depModule dep))
                       (globalIndexOf (units cpl) (depModule dep)) of
                  Some index \<Rightarrow> Inr index
                | None \<Rightarrow> Inl CompilerException)
             else Inl CompilerException)
      else Inl CompilerUndefined)"

text \<open>
  A class declaration: the name, the superclass expression if the class inherits (an
  identifier or a module access), and the methods.  Compiling the body of a method is not
  modelled: a method is its name and the function object that \<open>endFuncDecl\<close> returns for
  it; \<open>method_closure\<close> is the end of \<open>method\<close>, which wraps that function in a closure.
\<close>

datatype InheritedClass = LITERAL string | MODULE_ACCESS string string

datatype ClassDecl = ClassDecl string "InheritedClass option" "(string \<times> addr) list"

definition method_closure :: "addr \<Rightarrow> Compiler \<Rightarrow> compileFailure + addr \<times> Compiler" where
  "method_closure func cpl =
     (case objs cpl func of
        Some (ObjFunc arity upvalueCount bytecodeOffset constantsOffset fname) \<Rightarrow>
          if upvalueCount \<noteq> 0 then Inl CompilerException
          else Inr (newObj (ObjClosure func []) cpl)
      | _ \<Rightarrow> Inl CompilerUndefined)"

text \<open>The loop over the methods: each goes into the method table of the new class.\<close>

fun addMethods :: "(string \<times> addr) list \<Rightarrow> (string \<rightharpoonup> Value) \<Rightarrow> Compiler \<Rightarrow> compileFailure + (string \<rightharpoonup> Value) \<times> Compiler" where
  "addMethods [] methods cpl = Inr (methods, cpl)"
| "addMethods ((nm, func) # ms) methods cpl =
     (case method_closure func cpl of
        Inl e \<Rightarrow> Inl e
      | Inr (clos, cpl1) \<Rightarrow> addMethods ms (methods(nm \<mapsto> encodeObj clos)) cpl1)"

text \<open>
  The part of \<open>visitClassDecl\<close> for a class that inherits: the index of the superclass
  among the globals, and the check that the global there holds a class.  The result is
  \<open>currentClass->superclass\<close>.
\<close>

definition resolveSuperclass :: "InheritedClass \<Rightarrow> Compiler \<Rightarrow> compileFailure + addr" where
  "resolveSuperclass inherited cpl =
     (case (case inherited of
              LITERAL token \<Rightarrow>
                (case resolveGlobal token False cpl of
                   Inl e \<Rightarrow> Inl e
                 | Inr arg \<Rightarrow>
                     if arg = - 1 then Inl CompilerException
                     else if arg = - 2 then Inl CompilerException
                     else Inr (nat arg))
            | MODULE_ACCESS moduleName ident \<Rightarrow> resolveModuleVariable moduleName ident cpl) of
        Inl e \<Rightarrow> Inl e
      | Inr superclassIndex \<Rightarrow>
          if superclassIndex < length (globals cpl) then
            (case isClass (objs cpl) (snd (globals cpl ! superclassIndex)) of
               Inl e \<Rightarrow> Inl CompilerUndefined
             | Inr isCls \<Rightarrow>
                 if \<not> isCls then Inl CompilerException
                 else Inr (decodeObj (snd (globals cpl ! superclassIndex))))
          else Inl CompilerUndefined)"

definition visitClassDecl :: "ClassDecl \<Rightarrow> Compiler \<Rightarrow> compileFailure + Compiler" where
  "visitClassDecl decl cpl =
     (case decl of ClassDecl className inherits methods \<Rightarrow>
        (case parseVar className cpl of
           Inl e \<Rightarrow> Inl e
         | Inr index \<Rightarrow>
             (let (klass, cpl1) = newObj (ObjClass className Map.empty) cpl in
              case (case inherits of
                      None \<Rightarrow> Inr None
                    | Some inherited \<Rightarrow>
                        (case resolveSuperclass inherited cpl1 of
                           Inl e \<Rightarrow> Inl e
                         | Inr superclass \<Rightarrow> Inr (Some superclass))) of
                Inl e \<Rightarrow> Inl e
              | Inr superclass \<Rightarrow>
                  (case addMethods methods Map.empty (defineVar index cpl1) of
                     Inl e \<Rightarrow> Inl e
                   | Inr (ms, cpl2) \<Rightarrow>
                       if index < length (globals cpl2) then
                         Inr (cpl2\<lparr>objs := (objs cpl2)(klass \<mapsto> ObjClass className ms),
                                    globals := (globals cpl2)
                                      [index := (fst (globals cpl2 ! index), encodeObj klass)]\<rparr>)
                       else Inl CompilerUndefined))))"

subsection \<open>Invoking methods at run time\<close>

text \<open>\<open>invokeFromClass\<close>: the result says whether the class has the method.\<close>

definition invokeFromClass :: "addr \<Rightarrow> string \<Rightarrow> nat \<Rightarrow> Thread \<Rightarrow> failure + bool \<times> Thread" where
  "invokeFromClass klass methodName argCount t =
     (case heap t klass of
        Some (ObjClass cname methods) \<Rightarrow>
          (case methods methodName of
             None \<Rightarrow> Inr (False, t)
           | Some m \<Rightarrow> andThen (call (decodeObj m) argCount t) (\<lambda>t1. Inr (True, t1)))
      | _ \<Rightarrow> Inl Undefined)"

text \<open>The end of \<open>invoke\<close>: the method of a builtin type, looked up by name.\<close>

definition invokeNative ::
  "(nat \<Rightarrow> nat \<Rightarrow> Thread \<Rightarrow> failure + bool \<times> Thread) \<Rightarrow> (Builtin \<Rightarrow> string \<rightharpoonup> nat \<times> int) \<Rightarrow>
     Value \<Rightarrow> string \<Rightarrow> nat \<Rightarrow> Thread \<Rightarrow> failure + Thread" where
  "invokeNative natives nativeClasses receiver fieldName argCount t =
     andThen (findNativeMethod nativeClasses (heap t) receiver fieldName) (\<lambda>(func, arity).
       if arity \<noteq> -1 \<and> int argCount \<noteq> arity then runtimeError 2
       else callNative natives func argCount t)"

definition invoke ::
  "(nat \<Rightarrow> nat \<Rightarrow> Thread \<Rightarrow> failure + bool \<times> Thread) \<Rightarrow> (Builtin \<Rightarrow> string \<rightharpoonup> nat \<times> int) \<Rightarrow>
     string \<Rightarrow> nat \<Rightarrow> Thread \<Rightarrow> failure + Thread" where
  "invoke natives nativeClasses fieldName argCount t =
     andThen (peek argCount t) (\<lambda>receiver.
     andThen (isInstance (heap t) receiver) (\<lambda>isInst.
       case (if isInst then heap t (decodeObj receiver) else None) of
         Some (ObjInstance klass fs) \<Rightarrow>
           (case fs fieldName of
              Some v \<Rightarrow>
                andThen (poke argCount v t) (\<lambda>t1. callValue natives v argCount t1)
            | None \<Rightarrow>
                if klass \<noteq> 0 then
                  andThen (invokeFromClass klass fieldName argCount t) (\<lambda>(found, t1).
                    if found then Inr t1
                    else invokeNative natives nativeClasses receiver fieldName argCount t1)
                else invokeNative natives nativeClasses receiver fieldName argCount t)
       | _ \<Rightarrow> invokeNative natives nativeClasses receiver fieldName argCount t))"

definition op_INVOKE ::
  "(nat \<Rightarrow> nat \<Rightarrow> Thread \<Rightarrow> failure + bool \<times> Thread) \<Rightarrow> (Builtin \<Rightarrow> string \<rightharpoonup> nat \<times> int) \<Rightarrow>
     Thread \<Rightarrow> failure + Thread" where
  "op_INVOKE natives nativeClasses t =
     andThen (READ_BYTE t) (\<lambda>(argCount, t1).
     andThen (READ_STRING t1) (\<lambda>(methodName, t2).
     andThen (STORE_FRAME t2) (\<lambda>t3.
     andThen (invoke natives nativeClasses methodName (unat argCount) t3) LOAD_FRAME)))"

text \<open>
  \<open>INHERIT\<close>, the instruction that copies the methods of the class below the top of the
  stack into the class on top.  The compiler never emits it.
\<close>

definition op_INHERIT :: "Thread \<Rightarrow> failure + Thread" where
  "op_INHERIT t =
     andThen (peek 1 t) (\<lambda>superclass.
     andThen (isClass (heap t) superclass) (\<lambda>isCls.
       if \<not> isCls then runtimeError 3
       else
         andThen (peek 0 t) (\<lambda>sub.
           case (heap t (decodeObj superclass), heap t (decodeObj sub)) of
             (Some (ObjClass supername supermethods), Some (ObjClass subname submethods)) \<Rightarrow>
               Inr (t\<lparr>heap := (heap t)(decodeObj sub \<mapsto>
                      ObjClass subname (submethods ++ supermethods))\<rparr>)
           | _ \<Rightarrow> Inl Undefined)))"

text \<open>
  Example: one module declaring \<^verbatim>\<open>class A { fn greet() { ... } }\<close> and
  \<^verbatim>\<open>class B : A { }\<close>.  \<open>inherit_start\<close> is the compiler after \<open>A\<close> has been compiled: the
  class object of \<open>A\<close> is at \<open>0x300\<close> with the method \<open>greet\<close>, a closure at \<open>0x310\<close> over the
  function at \<open>0x320\<close> (code at 4, one parameter slot for \<open>this\<close> aside).
\<close>

definition inherit_start :: Compiler where
  "inherit_start =
     \<lparr>globals = [(''A'', encodeObj 0x300), (''B'', encodeNil)],
      definedGlobals = [True, False],
      curGlobalIndex = 0,
      units = [\<lparr>topDeclarations = [(''A'', AST_CLASS), (''B'', AST_CLASS)], deps = [], exports = []\<rparr>],
      curUnit = 0,
      objs = [0x300 \<mapsto> ObjClass ''A'' [''greet'' \<mapsto> encodeObj 0x310],
              0x310 \<mapsto> ObjClosure 0x320 [],
              0x320 \<mapsto> ObjFunc 0 0 4 0 ''greet'',
              0x120 \<mapsto> ObjFunc 0 0 0 0 ''script'', 0x130 \<mapsto> ObjClosure 0x120 [],
              0x140 \<mapsto> ObjString ''greet''],
      objsFree = 0x400\<rparr>"

definition class_B :: ClassDecl where
  "class_B = ClassDecl ''B'' (Some (LITERAL ''A'')) []"

text \<open>
  A thread over the objects the compiler left, with an instance of the class at \<open>klass\<close>
  on its stack, about to execute \<^verbatim>\<open>INVOKE 0 "greet"\<close> (the name is constant 0).  No
  builtin type has a method of that name.
\<close>

definition invoke_thread :: "heap \<Rightarrow> addr \<Rightarrow> Thread" where
  "invoke_thread h klass =
     \<lparr>stack = [encodeObj 0x130, encodeObj 0x500],
      frames = [\<lparr>closure = 0x130, ip = 0, slots = 0\<rparr>],
      STACK_MAX = 256, FRAMES_MAX = 64,
      code = \<lparr>bytecode = [0, 0, 0, 0, 0, 0], constants = [encodeObj 0x140]\<rparr>,
      pc = 0, slotStart = 0, constantOffset = 0,
      heap = h(0x500 \<mapsto> ObjInstance klass Map.empty),
      nextFree = 0x600\<rparr>"

definition no_native_methods :: "Builtin \<Rightarrow> string \<rightharpoonup> nat \<times> int" where
  "no_native_methods b = Map.empty"

definition invokeGreet :: "compileFailure + Compiler \<Rightarrow> addr \<Rightarrow> (failure + Thread) option" where
  "invokeGreet r klass =
     (case r of
        Inl e \<Rightarrow> None
      | Inr cpl \<Rightarrow>
          Some (dispatch (op_INVOKE no_natives no_native_methods) (invoke_thread (objs cpl) klass)))"

definition classAfter :: "compileFailure + Compiler \<Rightarrow> string \<Rightarrow> Obj option" where
  "classAfter r nm =
     (case r of
        Inl e \<Rightarrow> None
      | Inr cpl \<Rightarrow>
          (case map_of (globals cpl) nm of
             None \<Rightarrow> None
           | Some v \<Rightarrow> objs cpl (decodeObj v)))"

definition framesAfter :: "(failure + Thread) option \<Rightarrow> CallFrame list option" where
  "framesAfter r = (case r of Some (Inr t) \<Rightarrow> Some (frames t) | _ \<Rightarrow> None)"

section \<open>The interpreter loop (Runtime/thread.cpp, executeBytecode)\<close>

text \<open>
  What the cases of the loop use and the sources do not define is collected in one
  record of parameters: the numbering of the opcodes, the table of native stubs and the
  tables of methods of the builtin types, the macro \<open>FLOAT_EQ\<close>, what \<open>toString\<close> prints
  for an object that is not a string, the conversion \<open>Value(ptr)\<close> of a pointer, the value
  in the slot of a future that has not been settled, and the arithmetic of \<open>double\<close> (on
  the 64 bits of a double): the conversion of an \<open>int\<close>, the four operations, negation, the
  comparisons \<open>>\<close>, \<open>>=\<close>, \<open><\<close> and the constant \<open>DBL_EPSILON\<close>.
\<close>

record Params =
  opNumber :: "OpCode \<Rightarrow> 8 word"
  nativeStubs :: "nat \<Rightarrow> nat \<Rightarrow> Thread \<Rightarrow> failure + bool \<times> Thread"
  nativeMethods :: "Builtin \<Rightarrow> string \<rightharpoonup> nat \<times> int"
  floatEq :: "Value \<Rightarrow> Value \<Rightarrow> bool"
  printedForm :: "Obj \<Rightarrow> string"
  ptrValue :: "addr \<Rightarrow> Value"
  unsettled :: Value
  dblOfInt :: "32 word \<Rightarrow> 64 word"
  dblAdd :: "64 word \<Rightarrow> 64 word \<Rightarrow> 64 word"
  dblSub :: "64 word \<Rightarrow> 64 word \<Rightarrow> 64 word"
  dblMul :: "64 word \<Rightarrow> 64 word \<Rightarrow> 64 word"
  dblDiv :: "64 word \<Rightarrow> 64 word \<Rightarrow> 64 word"
  dblNeg :: "64 word \<Rightarrow> 64 word"
  dblGreater :: "64 word \<Rightarrow> 64 word \<Rightarrow> bool"
  dblGreaterEq :: "64 word \<Rightarrow> 64 word \<Rightarrow> bool"
  dblLess :: "64 word \<Rightarrow> 64 word \<Rightarrow> bool"
  dblEpsilon :: "64 word"

text \<open>
  The state the loop works on: the thread that runs it (with the shared code and heap),
  the local \<open>fut\<close> of \<open>executeBytecode\<close> (null in the main thread), and of the \<open>VM\<close> the
  globals, the native functions and the child threads.  A child thread is kept as its
  number, its stack and its frames; \<open>threadCount\<close> numbers the thread objects made.
\<close>

record VM =
  thread :: Thread
  fut :: addr
  vmGlobals :: "Value list"
  nativeFuncs :: "addr list"
  childThreads :: "(nat \<times> Value list \<times> CallFrame list) list"
  threadCount :: nat

definition onThread :: "(Thread \<Rightarrow> failure + Thread) \<Rightarrow> VM \<Rightarrow> failure + VM" where
  "onThread f vm = andThen (f (thread vm)) (\<lambda>t. Inr (vm\<lparr>thread := t\<rparr>))"

subsection \<open>Helper opcodes and constants\<close>

text \<open>\<open>stackTop -= n\<close>; a stack pointer below the stack is undefined.\<close>

definition popn :: "nat \<Rightarrow> Thread \<Rightarrow> failure + Thread" where
  "popn n t =
     (if n \<le> length (stack t) then Inr (t\<lparr>stack := take (length (stack t) - n) (stack t)\<rparr>)
      else Inl Undefined)"

definition op_POPN :: "Thread \<Rightarrow> failure + Thread" where
  "op_POPN t = andThen (READ_BYTE t) (\<lambda>(nToPop, t1). popn (unat nToPop) t1)"

definition op_CONSTANT_LONG :: "Thread \<Rightarrow> failure + Thread" where
  "op_CONSTANT_LONG t = andThen (READ_CONSTANT_LONG t) (\<lambda>(constant, t1). push constant t1)"

definition op_TRUE :: "Thread \<Rightarrow> failure + Thread" where
  "op_TRUE t = push (encodeBool True) t"

definition op_FALSE :: "Thread \<Rightarrow> failure + Thread" where
  "op_FALSE t = push (encodeBool False) t"

definition READ_STRING_LONG :: "Thread \<Rightarrow> failure + string \<times> Thread" where
  "READ_STRING_LONG t =
     andThen (READ_CONSTANT_LONG t) (\<lambda>(v, t1).
     andThen (strOf (heap t1) v) (\<lambda>s. Inr (s, t1)))"

subsection \<open>Arithmetic\<close>

text \<open>
  Arithmetic on two \<open>int32_t\<close> is done in \<open>int\<close>; a result outside the range of \<open>int\<close> is an
  overflow, which is undefined.  \<open>/\<close> and \<open>%\<close> truncate towards zero; a zero divisor is
  undefined, and so is \<open>INT_MIN % -1\<close>.  A shift by a negative count or by 32 or more is
  undefined; \<open><<\<close> keeps the low 32 bits and \<open>>>\<close> copies the sign bit.
\<close>

definition INT_MIN :: int where "INT_MIN = - (2 ^ 31)"
definition INT_MAX :: int where "INT_MAX = 2 ^ 31 - 1"

definition truncDiv :: "int \<Rightarrow> int \<Rightarrow> int" where
  "truncDiv a b = sgn a * sgn b * (\<bar>a\<bar> div \<bar>b\<bar>)"

definition truncMod :: "int \<Rightarrow> int \<Rightarrow> int" where
  "truncMod a b = a - b * truncDiv a b"

definition intArith :: "(int \<Rightarrow> int \<Rightarrow> int) \<Rightarrow> 32 word \<Rightarrow> 32 word \<Rightarrow> failure + 32 word" where
  "intArith f x y =
     (let res = f (sint x) (sint y) in
      if INT_MIN \<le> res \<and> res \<le> INT_MAX then Inr (word_of_int res) else Inl Undefined)"

definition intDivide :: "32 word \<Rightarrow> 32 word \<Rightarrow> failure + 32 word" where
  "intDivide x y = (if y = 0 then Inl Undefined else intArith truncDiv x y)"

definition intMod :: "32 word \<Rightarrow> 32 word \<Rightarrow> failure + 32 word" where
  "intMod x y =
     (if y = 0 \<or> (sint x = INT_MIN \<and> sint y = -1) then Inl Undefined
      else intArith truncMod x y)"

definition intShiftLeft :: "32 word \<Rightarrow> 32 word \<Rightarrow> failure + 32 word" where
  "intShiftLeft x y =
     (if sint y < 0 \<or> sint y \<ge> 32 then Inl Undefined else Inr (push_bit (unat y) x))"

definition intShiftRight :: "32 word \<Rightarrow> 32 word \<Rightarrow> failure + 32 word" where
  "intShiftRight x y =
     (if sint y < 0 \<or> sint y \<ge> 32 then Inl Undefined else Inr (signed_drop_bit (unat y) x))"

text \<open>\<open>(isInt(a)) ? decodeInt(a) : decodeDouble(a)\<close>, as a \<open>double\<close>.\<close>

definition toDouble :: "Params \<Rightarrow> Value \<Rightarrow> 64 word" where
  "toDouble P a = (if isInt a then dblOfInt P (decodeInt a) else decodeDouble a)"

text \<open>
  The macro \<open>BINARY_OP(op)\<close>; \<open>iop\<close> is \<open>op\<close> on two \<open>int\<close> and \<open>dop\<close> is \<open>op\<close> on two \<open>double\<close>.
  The result of \<open>iop\<close> is within the range of \<open>int\<close>, so it is encoded as an int.
\<close>

definition BINARY_OP ::
  "Params \<Rightarrow> (32 word \<Rightarrow> 32 word \<Rightarrow> failure + 32 word) \<Rightarrow> (64 word \<Rightarrow> 64 word \<Rightarrow> 64 word) \<Rightarrow>
     Thread \<Rightarrow> failure + Thread" where
  "BINARY_OP P iop dop t =
     andThen (peek 1 t) (\<lambda>a.
     andThen (peek 0 t) (\<lambda>b.
       if \<not> isNumber a \<or> \<not> isNumber b then runtimeError 3
       else
         andThen
           (if isInt a \<and> isInt b
            then andThen (iop (decodeInt a) (decodeInt b)) (\<lambda>res. Inr (encodeInt res))
            else Inr (encodeDouble (dop (toDouble P a) (toDouble P b))))
           (\<lambda>r.
              andThen (poke 1 r t) (\<lambda>t1.
              andThen (pop t1) (\<lambda>(v, t2). Inr t2)))))"

text \<open>The macro \<open>INT_BINARY_OP(op)\<close>.\<close>

definition INT_BINARY_OP ::
  "(32 word \<Rightarrow> 32 word \<Rightarrow> failure + 32 word) \<Rightarrow> Thread \<Rightarrow> failure + Thread" where
  "INT_BINARY_OP iop t =
     andThen (peek 1 t) (\<lambda>a.
     andThen (peek 0 t) (\<lambda>b.
       if \<not> isInt a \<or> \<not> isInt b then runtimeError 3
       else
         andThen (iop (decodeInt a) (decodeInt b)) (\<lambda>res.
         andThen (poke 1 (encodeInt res) t) (\<lambda>t1.
         andThen (pop t1) (\<lambda>(v, t2). Inr t2)))))"

definition op_NEGATE :: "Params \<Rightarrow> Thread \<Rightarrow> failure + Thread" where
  "op_NEGATE P t =
     andThen (pop t) (\<lambda>(val, t1).
       if \<not> isNumber val then runtimeError 3
       else if isInt val then
         (if sint (decodeInt val) = INT_MIN then Inl Undefined
          else push (encodeInt (- decodeInt val)) t1)
       else push (encodeDouble (dblNeg P (decodeDouble val))) t1)"

definition op_NOT :: "Thread \<Rightarrow> failure + Thread" where
  "op_NOT t = andThen (pop t) (\<lambda>(v, t1). push (encodeBool (isFalsey v)) t1)"

definition op_BIN_NOT :: "Thread \<Rightarrow> failure + Thread" where
  "op_BIN_NOT t =
     andThen (peek 0 t) (\<lambda>v.
       if \<not> isNumber v then runtimeError 3
       else if \<not> isInt v then runtimeError 3
       else poke 0 (encodeInt (NOT (decodeInt v))) t)"

definition op_BITWISE_XOR :: "Thread \<Rightarrow> failure + Thread" where
  "op_BITWISE_XOR = INT_BINARY_OP (\<lambda>x y. Inr (x XOR y))"

definition op_BITWISE_OR :: "Thread \<Rightarrow> failure + Thread" where
  "op_BITWISE_OR = INT_BINARY_OP (\<lambda>x y. Inr (x OR y))"

definition op_BITWISE_AND :: "Thread \<Rightarrow> failure + Thread" where
  "op_BITWISE_AND = INT_BINARY_OP (\<lambda>x y. Inr (x AND y))"

text \<open>
  \<open>ADD\<close>.  Modelled from the spec: \<open>ObjString::concat\<close> is not among the sources; it makes a
  new string of the characters of the two strings.  The rest is the opcode as written.
\<close>

definition op_ADD :: "Params \<Rightarrow> Thread \<Rightarrow> failure + Thread" where
  "op_ADD P t =
     andThen (peek 0 t) (\<lambda>top.
     andThen (peek 1 t) (\<lambda>below.
       if isNumber top \<and> isNumber below then BINARY_OP P (intArith (+)) (dblAdd P) t
       else
         andThen (isString (heap t) top) (\<lambda>s0.
         andThen (if s0 then isString (heap t) below else Inr False) (\<lambda>s1.
           if s0 \<and> s1 then
             andThen (pop t) (\<lambda>(bv, t1).
             andThen (pop t1) (\<lambda>(av, t2).
             andThen (strOf (heap t2) bv) (\<lambda>b.
             andThen (strOf (heap t2) av) (\<lambda>a.
               (let (str, t3) = new (ObjString (a @ b)) t2
                in push (ptrValue P str) t3)))))
           else runtimeError 3))))"

definition op_SUBTRACT :: "Params \<Rightarrow> Thread \<Rightarrow> failure + Thread" where
  "op_SUBTRACT P = BINARY_OP P (intArith (-)) (dblSub P)"

definition op_MULTIPLY :: "Params \<Rightarrow> Thread \<Rightarrow> failure + Thread" where
  "op_MULTIPLY P = BINARY_OP P (intArith (*)) (dblMul P)"

definition op_DIVIDE :: "Params \<Rightarrow> Thread \<Rightarrow> failure + Thread" where
  "op_DIVIDE P = BINARY_OP P intDivide (dblDiv P)"

definition op_MOD :: "Thread \<Rightarrow> failure + Thread" where
  "op_MOD = INT_BINARY_OP intMod"

definition op_BITSHIFT_LEFT :: "Thread \<Rightarrow> failure + Thread" where
  "op_BITSHIFT_LEFT = INT_BINARY_OP intShiftLeft"

definition op_BITSHIFT_RIGHT :: "Thread \<Rightarrow> failure + Thread" where
  "op_BITSHIFT_RIGHT = INT_BINARY_OP intShiftRight"

subsection \<open>Comparisons\<close>

definition op_EQUAL :: "Params \<Rightarrow> Thread \<Rightarrow> failure + Thread" where
  "op_EQUAL P t =
     andThen (pop t) (\<lambda>(b, t1).
     andThen (pop t1) (\<lambda>(a, t2).
     andThen (equals (floatEq P) (printedForm P) (heap t2) a b) (\<lambda>eq.
       push (encodeBool eq) t2)))"

definition op_NOT_EQUAL :: "Params \<Rightarrow> Thread \<Rightarrow> failure + Thread" where
  "op_NOT_EQUAL P t =
     andThen (pop t) (\<lambda>(b, t1).
     andThen (pop t1) (\<lambda>(a, t2).
     andThen (equals (floatEq P) (printedForm P) (heap t2) a b) (\<lambda>eq.
       push (encodeBool (\<not> eq)) t2)))"

text \<open>
  The four comparisons of numbers have one shape; \<open>cmp\<close> is the comparison of the two
  \<open>double\<close> \<open>valA\<close> and \<open>valB\<close>.
\<close>

definition compareNumbers :: "Params \<Rightarrow> (64 word \<Rightarrow> 64 word \<Rightarrow> bool) \<Rightarrow> Thread \<Rightarrow> failure + Thread" where
  "compareNumbers P cmp t =
     andThen (peek 1 t) (\<lambda>a.
     andThen (peek 0 t) (\<lambda>b.
       if \<not> isNumber a \<or> \<not> isNumber b then runtimeError 3
       else
         andThen (poke 1 (encodeBool (cmp (toDouble P a) (toDouble P b))) t) (\<lambda>t1.
         andThen (pop t1) (\<lambda>(v, t2). Inr t2))))"

definition op_GREATER :: "Params \<Rightarrow> Thread \<Rightarrow> failure + Thread" where
  "op_GREATER P = compareNumbers P (dblGreater P)"

definition op_GREATER_EQUAL :: "Params \<Rightarrow> Thread \<Rightarrow> failure + Thread" where
  "op_GREATER_EQUAL P =
     compareNumbers P (\<lambda>valA valB. dblGreaterEq P valA (dblSub P valB (dblEpsilon P)))"

definition op_LESS :: "Params \<Rightarrow> Thread \<Rightarrow> failure + Thread" where
  "op_LESS P = compareNumbers P (dblLess P)"

definition op_LESS_EQUAL :: "Params \<Rightarrow> Thread \<Rightarrow> failure + Thread" where
  "op_LESS_EQUAL P =
     compareNumbers P (\<lambda>valA valB. dblLess P valA (dblAdd P valB (dblEpsilon P)))"

subsection \<open>Jumps\<close>

text \<open>\<open>ip -= offset\<close>; an instruction pointer before the code is undefined.\<close>

definition jumpBack :: "nat \<Rightarrow> Thread \<Rightarrow> failure + Thread" where
  "jumpBack offset t = (if offset \<le> pc t then Inr (t\<lparr>pc := pc t - offset\<rparr>) else Inl Undefined)"

definition op_JUMP :: "Thread \<Rightarrow> failure + Thread" where
  "op_JUMP t = andThen (READ_SHORT t) (\<lambda>(offset, t1). Inr (t1\<lparr>pc := pc t1 + unat offset\<rparr>))"

definition op_JUMP_IF_FALSE :: "Thread \<Rightarrow> failure + Thread" where
  "op_JUMP_IF_FALSE t =
     andThen (READ_SHORT t) (\<lambda>(offset, t1).
     andThen (peek 0 t1) (\<lambda>v.
       if isFalsey v then Inr (t1\<lparr>pc := pc t1 + unat offset\<rparr>) else Inr t1))"

definition op_JUMP_IF_TRUE :: "Thread \<Rightarrow> failure + Thread" where
  "op_JUMP_IF_TRUE t =
     andThen (READ_SHORT t) (\<lambda>(offset, t1).
     andThen (peek 0 t1) (\<lambda>v.
       if \<not> isFalsey v then Inr (t1\<lparr>pc := pc t1 + unat offset\<rparr>) else Inr t1))"

definition op_JUMP_IF_FALSE_POP :: "Thread \<Rightarrow> failure + Thread" where
  "op_JUMP_IF_FALSE_POP t =
     andThen (READ_SHORT t) (\<lambda>(offset, t1).
     andThen (pop t1) (\<lambda>(v, t2).
       if isFalsey v then Inr (t2\<lparr>pc := pc t2 + unat offset\<rparr>) else Inr t2))"

definition op_LOOP_IF_TRUE :: "Thread \<Rightarrow> failure + Thread" where
  "op_LOOP_IF_TRUE t =
     andThen (READ_SHORT t) (\<lambda>(offset, t1).
     andThen (pop t1) (\<lambda>(v, t2).
       if \<not> isFalsey v then jumpBack (unat offset) t2 else Inr t2))"

definition op_LOOP :: "Thread \<Rightarrow> failure + Thread" where
  "op_LOOP t = andThen (READ_SHORT t) (\<lambda>(offset, t1). jumpBack (unat offset) t1)"

definition op_JUMP_POPN :: "Thread \<Rightarrow> failure + Thread" where
  "op_JUMP_POPN t =
     andThen (READ_BYTE t) (\<lambda>(n, t1).
     andThen (popn (unat n) t1) (\<lambda>t2.
     andThen (READ_SHORT t2) (\<lambda>(offset, t3). Inr (t3\<lparr>pc := pc t3 + unat offset\<rparr>))))"

subsection \<open>Globals and native functions\<close>

text \<open>\<open>vm->globals[index].val\<close> and \<open>vm->nativeFuncs[index]\<close>; an index out of range is undefined.\<close>

definition globalAt :: "nat \<Rightarrow> VM \<Rightarrow> failure + Value" where
  "globalAt index vm =
     (if index < length (vmGlobals vm) then Inr (vmGlobals vm ! index) else Inl Undefined)"

definition setGlobal :: "nat \<Rightarrow> Value \<Rightarrow> VM \<Rightarrow> failure + VM" where
  "setGlobal index val vm =
     (if index < length (vmGlobals vm) then Inr (vm\<lparr>vmGlobals := (vmGlobals vm)[index := val]\<rparr>)
      else Inl Undefined)"

definition vm_GET_NATIVE :: "VM \<Rightarrow> failure + VM" where
  "vm_GET_NATIVE vm =
     andThen (READ_SHORT (thread vm)) (\<lambda>(index, t1).
       if unat index < length (nativeFuncs vm)
       then andThen (push (encodeObj (nativeFuncs vm ! unat index)) t1) (\<lambda>t2. Inr (vm\<lparr>thread := t2\<rparr>))
       else Inl Undefined)"

definition vm_DEFINE_GLOBAL :: "VM \<Rightarrow> failure + VM" where
  "vm_DEFINE_GLOBAL vm =
     andThen (READ_BYTE (thread vm)) (\<lambda>(index, t1).
     andThen (pop t1) (\<lambda>(val, t2). setGlobal (unat index) val (vm\<lparr>thread := t2\<rparr>)))"

definition vm_DEFINE_GLOBAL_LONG :: "VM \<Rightarrow> failure + VM" where
  "vm_DEFINE_GLOBAL_LONG vm =
     andThen (READ_SHORT (thread vm)) (\<lambda>(index, t1).
     andThen (pop t1) (\<lambda>(val, t2). setGlobal (unat index) val (vm\<lparr>thread := t2\<rparr>)))"

definition vm_GET_GLOBAL :: "VM \<Rightarrow> failure + VM" where
  "vm_GET_GLOBAL vm =
     andThen (READ_BYTE (thread vm)) (\<lambda>(index, t1).
     andThen (globalAt (unat index) vm) (\<lambda>val.
     andThen (push val t1) (\<lambda>t2. Inr (vm\<lparr>thread := t2\<rparr>))))"

definition vm_GET_GLOBAL_LONG :: "VM \<Rightarrow> failure + VM" where
  "vm_GET_GLOBAL_LONG vm =
     andThen (READ_SHORT (thread vm)) (\<lambda>(index, t1).
     andThen (globalAt (unat index) vm) (\<lambda>val.
     andThen (push val t1) (\<lambda>t2. Inr (vm\<lparr>thread := t2\<rparr>))))"

definition vm_SET_GLOBAL :: "VM \<Rightarrow> failure + VM" where
  "vm_SET_GLOBAL vm =
     andThen (READ_BYTE (thread vm)) (\<lambda>(index, t1).
     andThen (globalAt (unat index) vm) (\<lambda>old.
     andThen (peek 0 t1) (\<lambda>val. setGlobal (unat index) val (vm\<lparr>thread := t1\<rparr>))))"

definition vm_SET_GLOBAL_LONG :: "VM \<Rightarrow> failure + VM" where
  "vm_SET_GLOBAL_LONG vm =
     andThen (READ_SHORT (thread vm)) (\<lambda>(index, t1).
     andThen (globalAt (unat index) vm) (\<lambda>old.
     andThen (peek 0 t1) (\<lambda>val. setGlobal (unat index) val (vm\<lparr>thread := t1\<rparr>))))"

subsection \<open>Increment and decrement\<close>

text \<open>
  The lambda \<open>add\<close>: \<open>y\<close> is 1 or -1; the sum of two \<open>int\<close> may overflow.
\<close>

definition addTo :: "Params \<Rightarrow> Value \<Rightarrow> int \<Rightarrow> failure + Value" where
  "addTo P x y =
     (if isInt x then
        (let res = sint (decodeInt x) + y in
         if INT_MIN \<le> res \<and> res \<le> INT_MAX then Inr (encodeInt (word_of_int res))
         else Inl Undefined)
      else Inr (encodeDouble (dblAdd P (decodeDouble x) (dblOfInt P (word_of_int y)))))"

text \<open>
  The lambda \<open>tryIncrement\<close> on the variable \<open>val\<close>: the result is the value the variable
  has afterwards, and the thread with the pushed value.
\<close>

definition tryIncrement :: "Params \<Rightarrow> bool \<Rightarrow> int \<Rightarrow> Value \<Rightarrow> Thread \<Rightarrow> failure + Value \<times> Thread" where
  "tryIncrement P isPrefix sign val t =
     (if \<not> isNumber val then runtimeError 3
      else if isPrefix then
        andThen (addTo P val sign) (\<lambda>val1.
        andThen (push val1 t) (\<lambda>t1. Inr (val1, t1)))
      else
        andThen (push val t) (\<lambda>t1.
        andThen (addTo P val sign) (\<lambda>val1. Inr (val1, t1))))"

text \<open>Incrementing the field \<open>name\<close> of the instance behind \<open>inst\<close>, which must have it.\<close>

definition incrementField ::
  "Params \<Rightarrow> bool \<Rightarrow> int \<Rightarrow> Value \<Rightarrow> string \<Rightarrow> Thread \<Rightarrow> failure + Thread" where
  "incrementField P isPrefix sign inst name t =
     (case heap t (decodeObj inst) of
        Some (ObjInstance klass fs) \<Rightarrow>
          (case fs name of
             None \<Rightarrow> runtimeError 4
           | Some num \<Rightarrow>
               andThen (tryIncrement P isPrefix sign num t) (\<lambda>(num1, t1).
                 Inr (t1\<lparr>heap := (heap t1)(decodeObj inst \<mapsto> ObjInstance klass (fs(name \<mapsto> num1)))\<rparr>)))
      | _ \<Rightarrow> Inl Undefined)"

text \<open>Incrementing the cell of an upvalue.\<close>

definition incrementUpvalue :: "Params \<Rightarrow> bool \<Rightarrow> int \<Rightarrow> addr \<Rightarrow> Thread \<Rightarrow> failure + Thread" where
  "incrementUpvalue P isPrefix sign up t =
     (case heap t up of
        Some (ObjUpval v) \<Rightarrow>
          andThen (tryIncrement P isPrefix sign v t) (\<lambda>(v1, t1).
            Inr (t1\<lparr>heap := (heap t1)(up \<mapsto> ObjUpval v1)\<rparr>))
      | _ \<Rightarrow> Inl Undefined)"

definition incrementGlobal :: "Params \<Rightarrow> bool \<Rightarrow> int \<Rightarrow> nat \<Rightarrow> VM \<Rightarrow> failure + VM" where
  "incrementGlobal P isPrefix sign index vm =
     andThen (globalAt index vm) (\<lambda>val.
     andThen (tryIncrement P isPrefix sign val (thread vm)) (\<lambda>(val1, t1).
       setGlobal index val1 (vm\<lparr>thread := t1\<rparr>)))"

text \<open>
  \<open>INCREMENT\<close>: bit 0 of the argument is the sign, bit 1 says prefix or postfix, the
  rest is the kind of the variable.  In case 3 the 16-bit operand is stored in a \<open>byte\<close>.
\<close>

definition vm_INCREMENT :: "Params \<Rightarrow> VM \<Rightarrow> failure + VM" where
  "vm_INCREMENT P vm =
     andThen (READ_BYTE (thread vm)) (\<lambda>(arg, t1).
       (let sign = (if arg AND 1 = 1 then (1 :: int) else - 1);
            isPrefix = (arg AND 2 = 2);
            type = drop_bit 2 arg
        in
          if type = 0 then
            andThen (READ_BYTE t1) (\<lambda>(slot, t2).
              if slotStart t2 + unat slot < length (stack t2) then
                (let num = stack t2 ! (slotStart t2 + unat slot) in
                 andThen (isUpvalue (heap t2) num) (\<lambda>up.
                   if up then onThread (incrementUpvalue P isPrefix sign (decodeObj num)) (vm\<lparr>thread := t2\<rparr>)
                   else
                     andThen (tryIncrement P isPrefix sign num t2) (\<lambda>(num1, t3).
                       Inr (vm\<lparr>thread := t3\<lparr>stack := (stack t3)[slotStart t2 + unat slot := num1]\<rparr>\<rparr>))))
              else Inl Undefined)
          else if type = 1 then
            andThen (READ_BYTE t1) (\<lambda>(slot, t2).
            andThen (frameUpvals t2) (\<lambda>ups.
              if unat slot < length ups
              then onThread (incrementUpvalue P isPrefix sign (ups ! unat slot)) (vm\<lparr>thread := t2\<rparr>)
              else Inl Undefined))
          else if type = 2 then
            andThen (READ_BYTE t1) (\<lambda>(index, t2).
              incrementGlobal P isPrefix sign (unat index) (vm\<lparr>thread := t2\<rparr>))
          else if type = 3 then
            andThen (READ_SHORT t1) (\<lambda>(index, t2).
              incrementGlobal P isPrefix sign (unat (ucast index :: 8 word)) (vm\<lparr>thread := t2\<rparr>))
          else if type = 4 then
            andThen (pop t1) (\<lambda>(inst, t2).
            andThen (isInstance (heap t2) inst) (\<lambda>isInst.
              if \<not> isInst then runtimeError 3
              else
                andThen (READ_STRING t2) (\<lambda>(name, t3).
                  onThread (incrementField P isPrefix sign inst name) (vm\<lparr>thread := t3\<rparr>))))
          else if type = 5 then
            andThen (pop t1) (\<lambda>(inst, t2).
            andThen (isInstance (heap t2) inst) (\<lambda>isInst.
              if \<not> isInst then runtimeError 3
              else
                andThen (READ_STRING_LONG t2) (\<lambda>(name, t3).
                  onThread (incrementField P isPrefix sign inst name) (vm\<lparr>thread := t3\<rparr>))))
          else if type = 6 then
            andThen (pop t1) (\<lambda>(field, t2).
            andThen (pop t2) (\<lambda>(callee, t3).
            andThen (isArray (heap t3) callee) (\<lambda>isArr.
              if isArr then
                (case heap t3 (decodeObj callee) of
                   Some (ObjArray vals numOfHeapPtr) \<Rightarrow>
                     andThen (checkArrayBounds field vals) (\<lambda>index.
                     andThen (valueAt vals index) (\<lambda>num.
                     andThen (tryIncrement P isPrefix sign num t3) (\<lambda>(num1, t4).
                       Inr (vm\<lparr>thread := t4\<lparr>heap := (heap t4)(decodeObj callee \<mapsto>
                              ObjArray (vals[unat (scast index :: 64 word) := num1]) numOfHeapPtr)\<rparr>\<rparr>))))
                 | _ \<Rightarrow> Inl Undefined)
              else
                andThen (isInstance (heap t3) callee) (\<lambda>isInst.
                  if \<not> isInst then runtimeError 3
                  else
                    andThen (isString (heap t3) field) (\<lambda>isStr.
                      if \<not> isStr then runtimeError 3
                      else
                        andThen (strOf (heap t3) field) (\<lambda>name.
                          onThread (incrementField P isPrefix sign callee name) (vm\<lparr>thread := t3\<rparr>)))))))
          else runtimeError 6))"

subsection \<open>The long forms of the opcodes with a constant operand\<close>

text \<open>
  Each is the short form with \<open>READ_CONSTANT_LONG\<close> or \<open>READ_STRING_LONG\<close> in the place of
  \<open>READ_CONSTANT\<close> or \<open>READ_STRING\<close>.  (The constructor of \<open>ObjClosure\<close> is modelled as for
  \<open>CLOSURE\<close>.)
\<close>

definition op_CLOSURE_LONG :: "Thread \<Rightarrow> failure + Thread" where
  "op_CLOSURE_LONG t =
     andThen (READ_CONSTANT_LONG t) (\<lambda>(fv, t1).
       case heap t1 (decodeObj fv) of
         Some (ObjFunc arity upvalueCount bytecodeOffset constantsOffset name) \<Rightarrow>
           (let (clos, t2) = new (ObjClosure (decodeObj fv) (replicate upvalueCount 0)) t1 in
            andThen (fillUpvals upvalueCount [] t2) (\<lambda>(ups, t3).
              push (encodeObj clos) (t3\<lparr>heap := (heap t3)(clos \<mapsto> ObjClosure (decodeObj fv) ups)\<rparr>)))
       | _ \<Rightarrow> Inl Undefined)"

definition op_GET_PROPERTY_LONG :: "(Builtin \<Rightarrow> string \<rightharpoonup> nat \<times> int) \<Rightarrow> Thread \<Rightarrow> failure + Thread" where
  "op_GET_PROPERTY_LONG nativeClasses t =
     andThen (pop t) (\<lambda>(inst, t1).
     andThen (READ_STRING_LONG t1) (\<lambda>(name, t2).
     andThen (isInstance (heap t2) inst) (\<lambda>isInst.
       case (if isInst then heap t2 (decodeObj inst) else None) of
         Some (ObjInstance klass fs) \<Rightarrow>
           (case fs name of
              Some v \<Rightarrow> push v t2
            | None \<Rightarrow>
                if klass \<noteq> 0 then
                  andThen (bindMethod klass name t2) (\<lambda>(found, t3).
                    if found then Inr t3
                    else bindMethodToPrimitive nativeClasses inst name t3)
                else bindMethodToPrimitive nativeClasses inst name t2)
       | _ \<Rightarrow> bindMethodToPrimitive nativeClasses inst name t2)))"

definition op_SET_PROPERTY_LONG :: "Thread \<Rightarrow> failure + Thread" where
  "op_SET_PROPERTY_LONG t =
     andThen (pop t) (\<lambda>(inst, t1).
     andThen (isInstance (heap t1) inst) (\<lambda>isInst.
       if \<not> isInst then runtimeError 3
       else
         (case heap t1 (decodeObj inst) of
            Some (ObjInstance klass fs) \<Rightarrow>
              andThen (READ_STRING_LONG t1) (\<lambda>(name, t2).
              andThen (peek 0 t2) (\<lambda>val.
                Inr (t2\<lparr>heap := (heap t2)(decodeObj inst \<mapsto>
                       ObjInstance klass (fs(name \<mapsto> val)))\<rparr>)))
          | _ \<Rightarrow> Inl Undefined)))"

fun readFieldsLong :: "nat \<Rightarrow> (string \<rightharpoonup> Value) \<Rightarrow> Thread \<Rightarrow> failure + (string \<rightharpoonup> Value) \<times> Thread" where
  "readFieldsLong 0 fs t = Inr (fs, t)"
| "readFieldsLong (Suc n) fs t =
     andThen (READ_STRING_LONG t) (\<lambda>(name, t1).
     andThen (pop t1) (\<lambda>(val, t2).
       readFieldsLong n (fs(name \<mapsto> val)) t2))"

definition op_CREATE_STRUCT_LONG :: "Thread \<Rightarrow> failure + Thread" where
  "op_CREATE_STRUCT_LONG t =
     andThen (READ_BYTE t) (\<lambda>(numOfFields, t1).
       (let (inst, t2) = new (ObjInstance 0 Map.empty) t1 in
        andThen (readFieldsLong (unat numOfFields) Map.empty t2) (\<lambda>(fs, t3).
          push (encodeObj inst) (t3\<lparr>heap := (heap t3)(inst \<mapsto> ObjInstance 0 fs)\<rparr>))))"

definition op_INVOKE_LONG ::
  "(nat \<Rightarrow> nat \<Rightarrow> Thread \<Rightarrow> failure + bool \<times> Thread) \<Rightarrow> (Builtin \<Rightarrow> string \<rightharpoonup> nat \<times> int) \<Rightarrow>
     Thread \<Rightarrow> failure + Thread" where
  "op_INVOKE_LONG natives nativeClasses t =
     andThen (READ_BYTE t) (\<lambda>(argCount, t1).
     andThen (READ_STRING_LONG t1) (\<lambda>(methodName, t2).
     andThen (STORE_FRAME t2) (\<lambda>t3.
     andThen (invoke natives nativeClasses methodName (unat argCount) t3) LOAD_FRAME)))"

subsection \<open>Classes\<close>

text \<open>
  \<open>CLASS\<close>.  Modelled from the spec: the constructor of \<open>ObjClass\<close> is not among the
  sources; the class it makes has the given name and an empty method table.
\<close>

definition op_CLASS :: "Thread \<Rightarrow> failure + Thread" where
  "op_CLASS t =
     andThen (READ_STRING_LONG t) (\<lambda>(name, t1).
       (let (klass, t2) = new (ObjClass name Map.empty) t1 in push (encodeObj klass) t2))"

text \<open>\<open>defineMethod\<close>: the value below the top is taken for a class without a check.\<close>

definition defineMethod :: "string \<Rightarrow> Thread \<Rightarrow> failure + Thread" where
  "defineMethod name t =
     andThen (peek 0 t) (\<lambda>method.
     andThen (peek 1 t) (\<lambda>kv.
       case heap t (decodeObj kv) of
         Some (ObjClass cname methods) \<Rightarrow>
           andThen (pop (t\<lparr>heap := (heap t)(decodeObj kv \<mapsto> ObjClass cname (methods(name \<mapsto> method)))\<rparr>))
             (\<lambda>(v, t1). Inr t1)
       | _ \<Rightarrow> Inl Undefined))"

definition op_METHOD :: "Thread \<Rightarrow> failure + Thread" where
  "op_METHOD t = andThen (READ_STRING_LONG t) (\<lambda>(name, t1). defineMethod name t1)"

definition op_GET_SUPER :: "Thread \<Rightarrow> failure + Thread" where
  "op_GET_SUPER t =
     andThen (READ_STRING t) (\<lambda>(name, t1).
     andThen (pop t1) (\<lambda>(superclass, t2).
     andThen (bindMethod (decodeObj superclass) name t2) (\<lambda>(found, t3).
       if \<not> found then runtimeError 4 else Inr t3)))"

definition op_GET_SUPER_LONG :: "Thread \<Rightarrow> failure + Thread" where
  "op_GET_SUPER_LONG t =
     andThen (READ_STRING_LONG t) (\<lambda>(name, t1).
     andThen (pop t1) (\<lambda>(superclass, t2).
     andThen (bindMethod (decodeObj superclass) name t2) (\<lambda>(found, t3).
       if \<not> found then runtimeError 4 else Inr t3)))"

definition op_SUPER_INVOKE :: "Thread \<Rightarrow> failure + Thread" where
  "op_SUPER_INVOKE t =
     andThen (READ_BYTE t) (\<lambda>(argCount, t1).
     andThen (READ_STRING t1) (\<lambda>(methodName, t2).
     andThen (pop t2) (\<lambda>(superclass, t3).
     andThen (STORE_FRAME t3) (\<lambda>t4.
     andThen (invokeFromClass (decodeObj superclass) methodName (unat argCount) t4) (\<lambda>(found, t5).
       if \<not> found then runtimeError 4 else LOAD_FRAME t5)))))"

definition op_SUPER_INVOKE_LONG :: "Thread \<Rightarrow> failure + Thread" where
  "op_SUPER_INVOKE_LONG t =
     andThen (READ_BYTE t) (\<lambda>(argCount, t1).
     andThen (READ_STRING_LONG t1) (\<lambda>(methodName, t2).
     andThen (pop t2) (\<lambda>(superclass, t3).
     andThen (STORE_FRAME t3) (\<lambda>t4.
     andThen (invokeFromClass (decodeObj superclass) methodName (unat argCount) t4) (\<lambda>(found, t5).
       if \<not> found then runtimeError 4 else LOAD_FRAME t5)))))"

subsection \<open>Futures\<close>

text \<open>
  Modelled from the spec: the class \<open>ObjFuture\<close> with its constructor and
  \<open>startParallelExecution\<close> is not among the sources.  A future holds the handle of its
  child thread and the slot for the settled value; awaiting it blocks until the child
  has left its interpreter loop, which the model records in the future (\<open>finish\<close>).  The
  run of the child itself is a run of this same loop on the child thread.
\<close>

definition finish :: "VM \<Rightarrow> VM" where
  "finish vm =
     (case heap (thread vm) (fut vm) of
        Some (ObjFuture thr v ready) \<Rightarrow>
          vm\<lparr>thread := (thread vm)\<lparr>heap := (heap (thread vm))(fut vm \<mapsto> ObjFuture thr v True)\<rparr>\<rparr>
      | _ \<Rightarrow> vm)"

text \<open>
  The lambda \<open>deleteThread\<close>: the child thread of the future is looked for among the child
  threads; when found it is deleted and the future forgets it.
\<close>

definition deleteThread :: "addr \<Rightarrow> VM \<Rightarrow> failure + VM" where
  "deleteThread f vm =
     (if childThreads vm = [] then Inr vm
      else
        (case heap (thread vm) f of
           Some (ObjFuture thr v ready) \<Rightarrow>
             (case thr of
                None \<Rightarrow> Inr vm
              | Some n \<Rightarrow>
                  (case find (\<lambda>c. fst c = n) (childThreads vm) of
                     None \<Rightarrow> Inr vm
                   | Some c \<Rightarrow>
                       Inr (vm\<lparr>childThreads := remove1 c (childThreads vm),
                               thread := (thread vm)\<lparr>heap := (heap (thread vm))(f \<mapsto> ObjFuture None v ready)\<rparr>\<rparr>)))
         | _ \<Rightarrow> Inl Undefined))"

text \<open>
  \<open>LAUNCH_ASYNC\<close>.  The new thread starts with an empty stack and no frame; \<open>copyVal\<close>
  pushes the future on it, \<open>startThread\<close> copies the callee and the arguments behind it
  (past the end of the stack array that is undefined) and calls \<open>callValue\<close> on the new
  thread.  A runtime error thrown there is thrown in the launching thread.
\<close>

definition vm_LAUNCH_ASYNC :: "Params \<Rightarrow> VM \<Rightarrow> failure + VM" where
  "vm_LAUNCH_ASYNC P vm =
     andThen (READ_BYTE (thread vm)) (\<lambda>(argCount, t1).
       (let num = unat argCount + 1;
            (newFut, t2) = new (ObjFuture (Some (threadCount vm)) (unsettled P) False) t1
        in
          andThen (push (encodeObj newFut) (t2\<lparr>stack := [], frames := []\<rparr>)) (\<lambda>child1.
            if length (stack t2) < num \<or> length (stack child1) + num > STACK_MAX child1
            then Inl Undefined
            else
              (let args = drop (length (stack t2) - num) (stack t2) in
               andThen (callValue (nativeStubs P) (hd args) (num - 1)
                          (child1\<lparr>stack := stack child1 @ args\<rparr>)) (\<lambda>child2.
               andThen (popn num (t2\<lparr>heap := heap child2, nextFree := nextFree child2\<rparr>)) (\<lambda>t3.
               andThen (push (encodeObj newFut) t3) (\<lambda>t4.
                 Inr (vm\<lparr>thread := t4,
                         childThreads := childThreads vm @ [(threadCount vm, stack child2, frames child2)],
                         threadCount := threadCount vm + 1\<rparr>))))))))"

text \<open>\<open>AWAIT\<close>.\<close>

definition vm_AWAIT :: "VM \<Rightarrow> failure + VM" where
  "vm_AWAIT vm =
     andThen (pop (thread vm)) (\<lambda>(val, t1).
     andThen (isObjOfType (heap t1) FUTURE val) (\<lambda>isFut.
       if \<not> isFut then runtimeError 3
       else
         (case heap t1 (decodeObj val) of
            Some (ObjFuture thr v ready) \<Rightarrow>
              if \<not> ready then Inl Blocked
              else
                andThen (deleteThread (decodeObj val) (vm\<lparr>thread := t1\<rparr>)) (\<lambda>vm1.
                  onThread (push v) vm1)
          | _ \<Rightarrow> Inl Undefined)))"

text \<open>
  \<open>RETURN\<close> in the loop: when the last frame has been popped and the thread is a child,
  the result goes to its future, the thread is deleted, and the loop is left.
\<close>

definition vm_RETURN :: "VM \<Rightarrow> failure + VM" where
  "vm_RETURN vm =
     andThen (peek 0 (thread vm)) (\<lambda>result.
     andThen (op_RETURN (thread vm)) (\<lambda>t1.
       if frames t1 = [] \<and> fut vm \<noteq> 0 then
         (case heap t1 (fut vm) of
            Some (ObjFuture thr v ready) \<Rightarrow>
              andThen (deleteThread (fut vm)
                         (vm\<lparr>thread := t1\<lparr>heap := (heap t1)(fut vm \<mapsto> ObjFuture thr result ready)\<rparr>\<rparr>))
                (\<lambda>vm1. Inr (finish vm1))
          | _ \<Rightarrow> Inl Undefined)
       else Inr (vm\<lparr>thread := t1\<rparr>)))"

subsection \<open>One turn of the loop\<close>

definition opcodes :: "OpCode list" where
  "opcodes =
     [POP, POPN, LOAD_INT, CONSTANT, CONSTANT_LONG, NIL_OP, TRUE, FALSE,
      NEGATE, NOT_OP, BIN_NOT, INCREMENT,
      BITWISE_XOR, BITWISE_OR, BITWISE_AND, ADD, SUBTRACT, MULTIPLY, DIVIDE, MOD,
      BITSHIFT_LEFT, BITSHIFT_RIGHT,
      EQUAL, NOT_EQUAL, GREATER, GREATER_EQUAL, LESS, LESS_EQUAL,
      GET_NATIVE, DEFINE_GLOBAL, DEFINE_GLOBAL_LONG, GET_GLOBAL, GET_GLOBAL_LONG,
      SET_GLOBAL, SET_GLOBAL_LONG, GET_LOCAL, SET_LOCAL, GET_UPVALUE, SET_UPVALUE,
      JUMP, JUMP_IF_FALSE, JUMP_IF_TRUE, JUMP_IF_FALSE_POP, LOOP_IF_TRUE, LOOP, JUMP_POPN,
      SWITCH, SWITCH_LONG,
      CALL, RETURN, CLOSURE_OP, CLOSURE_LONG,
      LAUNCH_ASYNC, AWAIT,
      CREATE_ARRAY, GET, SET, CLASS_OP, GET_PROPERTY, GET_PROPERTY_LONG,
      SET_PROPERTY, SET_PROPERTY_LONG, CREATE_STRUCT, CREATE_STRUCT_LONG,
      METHOD, INVOKE, INVOKE_LONG, INHERIT, GET_SUPER, GET_SUPER_LONG,
      SUPER_INVOKE, SUPER_INVOKE_LONG]"

text \<open>The body of the case of each opcode.\<close>

definition execute :: "Params \<Rightarrow> OpCode \<Rightarrow> VM \<Rightarrow> failure + VM" where
  "execute P opcode vm =
     (case opcode of
        POP \<Rightarrow> onThread op_POP vm
      | POPN \<Rightarrow> onThread op_POPN vm
      | LOAD_INT \<Rightarrow> onThread op_LOAD_INT vm
      | CONSTANT \<Rightarrow> onThread op_CONSTANT vm
      | CONSTANT_LONG \<Rightarrow> onThread op_CONSTANT_LONG vm
      | NIL_OP \<Rightarrow> onThread op_NIL vm
      | TRUE \<Rightarrow> onThread op_TRUE vm
      | FALSE \<Rightarrow> onThread op_FALSE vm
      | NEGATE \<Rightarrow> onThread (op_NEGATE P) vm
      | NOT_OP \<Rightarrow> onThread op_NOT vm
      | BIN_NOT \<Rightarrow> onThread op_BIN_NOT vm
      | INCREMENT \<Rightarrow> vm_INCREMENT P vm
      | BITWISE_XOR \<Rightarrow> onThread op_BITWISE_XOR vm
      | BITWISE_OR \<Rightarrow> onThread op_BITWISE_OR vm
      | BITWISE_AND \<Rightarrow> onThread op_BITWISE_AND vm
      | ADD \<Rightarrow> onThread (op_ADD P) vm
      | SUBTRACT \<Rightarrow> onThread (op_SUBTRACT P) vm
      | MULTIPLY \<Rightarrow> onThread (op_MULTIPLY P) vm
      | DIVIDE \<Rightarrow> onThread (op_DIVIDE P) vm
      | MOD \<Rightarrow> onThread op_MOD vm
      | BITSHIFT_LEFT \<Rightarrow> onThread op_BITSHIFT_LEFT vm
      | BITSHIFT_RIGHT \<Rightarrow> onThread op_BITSHIFT_RIGHT vm
      | EQUAL \<Rightarrow> onThread (op_EQUAL P) vm
      | NOT_EQUAL \<Rightarrow> onThread (op_NOT_EQUAL P) vm
      | GREATER \<Rightarrow> onThread (op_GREATER P) vm
      | GREATER_EQUAL \<Rightarrow> onThread (op_GREATER_EQUAL P) vm
      | LESS \<Rightarrow> onThread (op_LESS P) vm
      | LESS_EQUAL \<Rightarrow> onThread (op_LESS_EQUAL P) vm
      | GET_NATIVE \<Rightarrow> vm_GET_NATIVE vm
      | DEFINE_GLOBAL \<Rightarrow> vm_DEFINE_GLOBAL vm
      | DEFINE_GLOBAL_LONG \<Rightarrow> vm_DEFINE_GLOBAL_LONG vm
      | GET_GLOBAL \<Rightarrow> vm_GET_GLOBAL vm
      | GET_GLOBAL_LONG \<Rightarrow> vm_GET_GLOBAL_LONG vm
      | SET_GLOBAL \<Rightarrow> vm_SET_GLOBAL vm
      | SET_GLOBAL_LONG \<Rightarrow> vm_SET_GLOBAL_LONG vm
      | GET_LOCAL \<Rightarrow> onThread op_GET_LOCAL vm
      | SET_LOCAL \<Rightarrow> onThread op_SET_LOCAL vm
      | GET_UPVALUE \<Rightarrow> onThread op_GET_UPVALUE vm
      | SET_UPVALUE \<Rightarrow> onThread op_SET_UPVALUE vm
      | JUMP \<Rightarrow> onThread op_JUMP vm
      | JUMP_IF_FALSE \<Rightarrow> onThread op_JUMP_IF_FALSE vm
      | JUMP_IF_TRUE \<Rightarrow> onThread op_JUMP_IF_TRUE vm
      | JUMP_IF_FALSE_POP \<Rightarrow> onThread op_JUMP_IF_FALSE_POP vm
      | LOOP_IF_TRUE \<Rightarrow> onThread op_LOOP_IF_TRUE vm
      | LOOP \<Rightarrow> onThread op_LOOP vm
      | JUMP_POPN \<Rightarrow> onThread op_JUMP_POPN vm
      | SWITCH \<Rightarrow> onThread op_SWITCH vm
      | SWITCH_LONG \<Rightarrow> onThread op_SWITCH_LONG vm
      | CALL \<Rightarrow> onThread (op_CALL (nativeStubs P)) vm
      | RETURN \<Rightarrow> vm_RETURN vm
      | CLOSURE_OP \<Rightarrow> onThread op_CLOSURE vm
      | CLOSURE_LONG \<Rightarrow> onThread op_CLOSURE_LONG vm
      | LAUNCH_ASYNC \<Rightarrow> vm_LAUNCH_ASYNC P vm
      | AWAIT \<Rightarrow> vm_AWAIT vm
      | CREATE_ARRAY \<Rightarrow> onThread op_CREATE_ARRAY vm
      | GET \<Rightarrow> onThread op_GET vm
      | SET \<Rightarrow> onThread op_SET vm
      | CLASS_OP \<Rightarrow> onThread op_CLASS vm
      | GET_PROPERTY \<Rightarrow> onThread (op_GET_PROPERTY (nativeMethods P)) vm
      | GET_PROPERTY_LONG \<Rightarrow> onThread (op_GET_PROPERTY_LONG (nativeMethods P)) vm
      | SET_PROPERTY \<Rightarrow> onThread op_SET_PROPERTY vm
      | SET_PROPERTY_LONG \<Rightarrow> onThread op_SET_PROPERTY_LONG vm
      | CREATE_STRUCT \<Rightarrow> onThread op_CREATE_STRUCT vm
      | CREATE_STRUCT_LONG \<Rightarrow> onThread op_CREATE_STRUCT_LONG vm
      | METHOD \<Rightarrow> onThread op_METHOD vm
      | INVOKE \<Rightarrow> onThread (op_INVOKE (nativeStubs P) (nativeMethods P)) vm
      | INVOKE_LONG \<Rightarrow> onThread (op_INVOKE_LONG (nativeStubs P) (nativeMethods P)) vm
      | INHERIT \<Rightarrow> onThread op_INHERIT vm
      | GET_SUPER \<Rightarrow> onThread op_GET_SUPER vm
      | GET_SUPER_LONG \<Rightarrow> onThread op_GET_SUPER_LONG vm
      | SUPER_INVOKE \<Rightarrow> onThread op_SUPER_INVOKE vm
      | SUPER_INVOKE_LONG \<Rightarrow> onThread op_SUPER_INVOKE_LONG vm)"

text \<open>
  \<open>switch (READ_BYTE())\<close>: the opcode whose number the byte is decides the case.  With a
  byte that is no opcode's number no case is taken and the loop is left.  (The checks at
  the head of the loop, for cancellation and for a pending collection, come before the
  \<open>switch\<close> and are not part of it.)
\<close>

definition opcodeOf :: "Params \<Rightarrow> 8 word \<Rightarrow> OpCode option" where
  "opcodeOf P b = find (\<lambda>opcode. opNumber P opcode = b) opcodes"

definition step :: "Params \<Rightarrow> VM \<Rightarrow> failure + VM" where
  "step P vm =
     andThen (READ_BYTE (thread vm)) (\<lambda>(b, t1).
       case opcodeOf P b of
         None \<Rightarrow> Inr (finish (vm\<lparr>thread := t1\<rparr>))
       | Some opcode \<Rightarrow> execute P opcode (vm\<lparr>thread := t1\<rparr>))"

text \<open>
  The opcode a turn of the loop is about to run, and the names of the fields of the
  struct at an address.
\<close>

definition nextOpcode :: "Params \<Rightarrow> VM \<Rightarrow> OpCode option" where
  "nextOpcode P vm =
     (if pc (thread vm) < length (bytecode (code (thread vm)))
      then opcodeOf P (bytecode (code (thread vm)) ! pc (thread vm))
      else None)"

definition structFields :: "Thread \<Rightarrow> addr \<Rightarrow> string set option" where
  "structFields t a =
     (case heap t a of
        Some (ObjInstance klass fs) \<Rightarrow> if klass = 0 then Some (dom fs) else None
      | _ \<Rightarrow> None)"

text \<open>
  The name that \<open>SET\<close>, \<open>SET_PROPERTY\<close> or \<open>SET_PROPERTY_LONG\<close> is given, in the thread that
  has read the opcode: for \<open>SET\<close> the string on top of the stack, for the other two the
  string constant that is their operand.  \<open>assignedName\<close> is that name when one of the three
  is the opcode the loop is about to run, and nothing for every other opcode.
\<close>

definition keyOnTop :: "Thread \<Rightarrow> string option" where
  "keyOnTop t =
     (case peek 0 t of
        Inr field \<Rightarrow> (case strOf (heap t) field of Inr name \<Rightarrow> Some name | Inl e \<Rightarrow> None)
      | Inl e \<Rightarrow> None)"

definition stringOperand :: "Thread \<Rightarrow> string option" where
  "stringOperand t = (case READ_STRING t of Inr (name, t1) \<Rightarrow> Some name | Inl e \<Rightarrow> None)"

definition stringOperandLong :: "Thread \<Rightarrow> string option" where
  "stringOperandLong t = (case READ_STRING_LONG t of Inr (name, t1) \<Rightarrow> Some name | Inl e \<Rightarrow> None)"

definition assignedName :: "Params \<Rightarrow> VM \<Rightarrow> string option" where
  "assignedName P vm =
     (let t = (thread vm)\<lparr>pc := pc (thread vm) + 1\<rparr> in
      if nextOpcode P vm = Some SET then keyOnTop t
      else if nextOpcode P vm = Some SET_PROPERTY then stringOperand t
      else if nextOpcode P vm = Some SET_PROPERTY_LONG then stringOperandLong t
      else None)"

text \<open>
  The native stubs are not among the sources.  What is asked of them: a call of a stub
  that returns leaves every struct with the field names it had.
\<close>

definition nativesKeepStructs :: "(nat \<Rightarrow> nat \<Rightarrow> Thread \<Rightarrow> failure + bool \<times> Thread) \<Rightarrow> bool" where
  "nativesKeepStructs natives =
     (\<forall>func argCount t r t' a.
        natives func argCount t = Inr (r, t') \<longrightarrow> structFields t a \<noteq> None \<longrightarrow>
        structFields t' a = structFields t a)"

text \<open>
  An example to run the loop on: the opcodes numbered in the order of their cases, no
  native stubs and no methods of builtin types, and the thread of the struct example about
  to run its \<open>SET\<close> (whose number, 56, is now in the code), as the main thread.
\<close>

definition inOrder :: "OpCode \<Rightarrow> 8 word" where
  "inOrder opcode = of_nat (length (takeWhile (\<lambda>x. x \<noteq> opcode) opcodes))"

definition example_params :: Params where
  "example_params =
     \<lparr>opNumber = inOrder, nativeStubs = no_natives, nativeMethods = no_native_methods,
      floatEq = (\<lambda>x y. x = y), printedForm = (\<lambda>ob. ''''), ptrValue = encodeObj,
      unsettled = encodeNil,
      dblOfInt = (\<lambda>x. 0), dblAdd = (\<lambda>x y. 0), dblSub = (\<lambda>x y. 0), dblMul = (\<lambda>x y. 0),
      dblDiv = (\<lambda>x y. 0), dblNeg = (\<lambda>x. 0),
      dblGreater = (\<lambda>x y. False), dblGreaterEq = (\<lambda>x y. False), dblLess = (\<lambda>x y. False),
      dblEpsilon = 0\<rparr>"

definition struct_vm :: VM where
  "struct_vm =
     \<lparr>thread = struct_before_SET\<lparr>pc := 8,
                 code := \<lparr>bytecode = [0, 0,  0, 1,  0, 1,  0, 0,  56],
                          constants = [encodeObj 0x140]\<rparr>\<rparr>,
      fut = 0, vmGlobals = [], nativeFuncs = [], childThreads = [], threadCount = 0\<rparr>"

section \<open>Facts about the value encoding\<close>

lemmas mask_defs =
  MASK_SIGN_def MASK_EXPONENT_def MASK_QUIET_def MASK_TYPE_def MASK_SIGNATURE_def
  MASK_FULL_def MASK_NAN_def MASK_PAYLOAD_INT_def MASK_PAYLOAD_OBJ_def
  MASK_TYPE_NAN_def MASK_TYPE_FALSE_def MASK_TYPE_TRUE_def MASK_TYPE_NIL_def
  MASK_TYPE_INT_def MASK_TYPE_OBJ_def MASK_SIGNATURE_NAN_def MASK_SIGNATURE_FALSE_def
  MASK_SIGNATURE_TRUE_def MASK_SIGNATURE_NIL_def MASK_SIGNATURE_INT_def
  MASK_SIGNATURE_OBJ_def


lemma sig_mask: "MASK_SIGNATURE = NOT (mask 48)"
  by (simp add: MASK_SIGNATURE_def mask_eq_exp_minus_1)

lemma payload_int_mask: "MASK_PAYLOAD_INT = mask 32"
  by (simp add: MASK_PAYLOAD_INT_def mask_eq_exp_minus_1)

lemma payload_obj_mask: "MASK_PAYLOAD_OBJ = mask 48"
  by (simp add: MASK_PAYLOAD_OBJ_def mask_eq_exp_minus_1)

lemma exponent_all_ones:
  assumes "s AND MASK_EXPONENT = MASK_EXPONENT"
  shows "NOT (s OR y) AND MASK_EXPONENT = 0"
proof -
  have "NOT (s OR y) AND MASK_EXPONENT = NOT (s OR y) AND (s AND MASK_EXPONENT)"
    by (simp add: assms)
  also have "\<dots> = 0"
    by (rule bit_word_eqI) (auto simp: bit_simps)
  finally show ?thesis .
qed

lemma signature_of_or:
  assumes "y AND MASK_SIGNATURE = 0" and "s AND MASK_SIGNATURE = s"
  shows "(s OR y) AND MASK_SIGNATURE = s"
  by (simp add: bit.conj_disj_distrib2 assms)

lemma low_payload_signature:
  assumes "x < 2 ^ 48"
  shows "x AND MASK_SIGNATURE = 0"
proof -
  from assms have "x AND mask 48 = x" by (simp add: less_mask_eq)
  then have "x AND NOT (mask 48) = (x AND mask 48) AND NOT (mask 48)" by simp
  also have "\<dots> = 0" by (simp add: and.assoc)
  finally show ?thesis by (simp add: sig_mask)
qed

lemma ucast32_signature: "(ucast (x :: 32 word) :: 64 word) AND MASK_SIGNATURE = 0"
  unfolding sig_mask by (rule bit_word_eqI) (auto simp: bit_simps dest: bit_imp_le_length)

text \<open>Integers: the whole 32-bit range comes back, and is typed as an integer.\<close>

lemma getType_encodeInt: "getType (encodeInt x) = INT_T"
proof -
  have e: "NOT (MASK_SIGNATURE_INT OR ucast x) AND MASK_EXPONENT = 0"
    by (rule exponent_all_ones) (simp add: mask_defs)
  have "MASK_SIGNATURE_INT AND MASK_SIGNATURE = MASK_SIGNATURE_INT"
    by (simp add: mask_defs)
  with ucast32_signature
  have s: "(MASK_SIGNATURE_INT OR ucast x) AND MASK_SIGNATURE = MASK_SIGNATURE_INT"
    by (rule signature_of_or)
  show ?thesis
    unfolding getType_def encodeInt_def e s by (simp add: mask_defs)
qed

lemma decodeInt_encodeInt: "decodeInt (encodeInt x) = x"
proof -
  have "MASK_SIGNATURE_INT AND mask 32 = 0"
    by (simp add: mask_defs mask_eq_exp_minus_1)
  then have "(MASK_SIGNATURE_INT OR ucast x) AND mask 32 = (ucast x :: 64 word) AND mask 32"
    by (simp add: bit.conj_disj_distrib2)
  moreover have "ucast ((ucast x :: 64 word) AND mask 32) = x"
    by (rule bit_word_eqI) (auto simp: bit_simps)
  ultimately show ?thesis
    by (simp add: decodeInt_def encodeInt_def payload_int_mask)
qed

text \<open>Booleans and nil.\<close>

lemma getType_encodeBool: "getType (encodeBool b) = BOOL"
  by (simp add: getType_def encodeBool_def mask_defs)

lemma decodeBool_encodeBool: "decodeBool (encodeBool b) = b"
  by (simp add: encodeBool_def decodeBool_def mask_defs)

lemma getType_encodeNil: "getType encodeNil = NIL"
  by (simp add: getType_def encodeNil_def mask_defs)

text \<open>Object pointers that fit the 48-bit payload.\<close>

lemma getType_encodeObj:
  assumes "p < 2 ^ 48"
  shows "getType (encodeObj p) = OBJ"
proof -
  have e: "NOT (MASK_SIGNATURE_OBJ OR p) AND MASK_EXPONENT = 0"
    by (rule exponent_all_ones) (simp add: mask_defs)
  have "MASK_SIGNATURE_OBJ AND MASK_SIGNATURE = MASK_SIGNATURE_OBJ"
    by (simp add: mask_defs)
  with low_payload_signature [OF assms]
  have s: "(MASK_SIGNATURE_OBJ OR p) AND MASK_SIGNATURE = MASK_SIGNATURE_OBJ"
    by (rule signature_of_or)
  show ?thesis
    unfolding getType_def encodeObj_def e s by (simp add: mask_defs)
qed

lemma decodeObj_encodeObj:
  assumes "p < 2 ^ 48"
  shows "decodeObj (encodeObj p) = p"
proof -
  have "MASK_SIGNATURE_OBJ AND mask 48 = 0"
    by (simp add: mask_defs mask_eq_exp_minus_1)
  then have "(MASK_SIGNATURE_OBJ OR p) AND mask 48 = p AND mask 48"
    by (simp add: bit.conj_disj_distrib2)
  then show ?thesis
    using assms by (simp add: decodeObj_def encodeObj_def payload_obj_mask less_mask_eq)
qed

text \<open>
  Doubles: the bits come back as they went in, and every pattern whose exponent field is
  not all ones (every finite double), as well as positive infinity, is typed as a double.
\<close>

lemma decodeDouble_encodeDouble: "decodeDouble (encodeDouble d) = d"
  by (simp add: decodeDouble_def encodeDouble_def)

lemma getType_encodeDouble_finite:
  "NOT d AND MASK_EXPONENT \<noteq> 0 \<Longrightarrow> getType (encodeDouble d) = DOUBLE"
  by (simp add: getType_def encodeDouble_def)

lemma getType_encodeDouble_pos_infinity: "getType (encodeDouble 0x7ff0000000000000) = DOUBLE"
  by (simp add: getType_def encodeDouble_def mask_defs)

text \<open>
  The quiet NaNs \<open>0x7ff8000000000000\<close> and \<open>0xfff8000000000000\<close> carry a signature that the
  \<open>switch\<close> does not list, and are typed \<open>NIL\<close>.
\<close>

lemma getType_quiet_NaN_is_nil:
  "getType (encodeDouble 0x7ff8000000000000) = NIL"
  "getType (encodeDouble 0xfff8000000000000) = NIL"
  by (simp_all add: getType_def encodeDouble_def mask_defs)

text \<open>
  A double whose sign bit and exponent bits are all ones and whose next four bits are
  zero carries the signature of an object and is typed as one.
\<close>

lemma split_signature: "(d :: 64 word) = (d AND MASK_SIGNATURE) OR (d AND NOT MASK_SIGNATURE)"
  by (rule bit_word_eqI) (auto simp: bit_simps)

lemma getType_double_with_obj_signature:
  assumes "d AND MASK_SIGNATURE = MASK_SIGNATURE_OBJ"
  shows "getType (encodeDouble d) = OBJ"
proof -
  have "d = MASK_SIGNATURE_OBJ OR (d AND NOT MASK_SIGNATURE)"
    using split_signature [of d] by (simp only: assms)
  then have "NOT d AND MASK_EXPONENT
      = NOT (MASK_SIGNATURE_OBJ OR (d AND NOT MASK_SIGNATURE)) AND MASK_EXPONENT"
    by simp
  also have "\<dots> = 0"
    by (rule exponent_all_ones) (simp add: mask_defs)
  finally have e: "NOT d AND MASK_EXPONENT = 0" .
  show ?thesis
    unfolding getType_def encodeDouble_def e assms by (simp add: mask_defs)
qed

text \<open>
  C5.  The round trip fails for a double: negative infinity, whose bits are
  \<open>0xfff0000000000000\<close>, is encoded to the word that \<open>encodeObj\<close> gives the null pointer,
  so \<open>getType\<close> answers \<open>OBJ\<close> for it and not \<open>DOUBLE\<close>.
\<close>

theorem getType_negative_infinity_is_obj:
  "getType (encodeDouble 0xfff0000000000000) = OBJ
   \<and> getType (encodeDouble 0xfff0000000000000) \<noteq> DOUBLE
   \<and> encodeDouble 0xfff0000000000000 = encodeObj 0"
  by (simp add: getType_def encodeDouble_def encodeObj_def mask_defs)

section \<open>Termination of the mark loop\<close>

lemma unmarked_mark:
  assumes "m ptr = Some ob" and "\<not> marked ob"
  shows "unmarked (m(ptr \<mapsto> ob\<lparr>marked := True\<rparr>)) = unmarked m - {ptr}"
  using assms by (auto simp: unmarked_def)

lemma card_unmarked_mark:
  assumes "m ptr = Some ob" and "\<not> marked ob"
  shows "card (unmarked (m(ptr \<mapsto> ob\<lparr>marked := True\<rparr>))) < card (unmarked m)"
proof -
  have in_set: "ptr \<in> unmarked m" using assms by (auto simp: unmarked_def)
  have fin: "finite (unmarked m)" by simp
  have "card (unmarked m - {ptr}) < card (unmarked m)"
    using fin in_set by (rule card_Diff1_less)
  moreover have "unmarked (m(ptr \<mapsto> ob\<lparr>marked := True\<rparr>)) = unmarked m - {ptr}"
    using assms by (rule unmarked_mark)
  ultimately show ?thesis by simp
qed

termination mark_loop
proof (relation "inv_image (less_than <*lex*> less_than) (\<lambda>(m, st). (card (unmarked m), length st))")
  show "wf (inv_image (less_than <*lex*> less_than)
          (\<lambda>(m :: addr \<rightharpoonup> GCObj, st :: addr list). (card (unmarked m), length st)))"
    by (intro wf_inv_image wf_lex_prod wf_less_than)
next
  fix m :: "addr \<rightharpoonup> GCObj" and ptr st ob
  assume "m ptr = Some ob" "marked ob"
  then show "((m, st), (m, ptr # st))
      \<in> inv_image (less_than <*lex*> less_than) (\<lambda>(m, st). (card (unmarked m), length st))"
    by simp
next
  fix m :: "addr \<rightharpoonup> GCObj" and ptr st ob
  assume "m ptr = Some ob" "\<not> marked ob"
  then show "((m(ptr \<mapsto> ob\<lparr>marked := True\<rparr>), rev (trace ob) @ st), (m, ptr # st))
      \<in> inv_image (less_than <*lex*> less_than) (\<lambda>(m, st). (card (unmarked m), length st))"
    by (simp add: card_unmarked_mark)
qed

section \<open>Unfolding the interpreter\<close>

lemmas vm_defs =
  run_def dispatch_def andThen_def READ_BYTE_def READ_SHORT_def READ_CONSTANT_def constantAt_def
  READ_STRING_def strOf_def push_def pop_def peek_def poke_def new_def runtimeError_def
  isObjOfType_def isUpvalue_def isArray_def isInstance_def isString_def isClass_def isClosure_def
  isObj_def isInt_def getType_def encodeObj_def decodeObj_def encodeInt_def decodeInt_def
  encodeNil_def mask_defs
  op_GET_LOCAL_def op_LOAD_INT_def callValue_def call_def STORE_FRAME_def LOAD_FRAME_def
  stackAfter_def objectAfter_def no_natives_def

section \<open>Allocation\<close>

text \<open>
  C10.  Every call \<open>alloc n\<close> appends exactly one entry, the returned pointer, to the
  objects list and adds \<open>n\<close> to \<open>heapSize\<close> (in 64-bit arithmetic), whether or not the
  memory could be obtained.  When it could not, the error goes to the system-error sink,
  the entry appended is the null pointer, and null is returned.
\<close>

theorem alloc_registers_one_entry:
  "objects (snd (alloc n block gc)) = objects gc @ [fst (alloc n block gc)]
   \<and> heapSize (snd (alloc n block gc)) = heapSize gc + n
   \<and> fst (alloc n (Some p) gc) = p
   \<and> systemErrors (snd (alloc n (Some p) gc)) = systemErrors gc
   \<and> fst (alloc n None gc) = 0
   \<and> objects (snd (alloc n None gc)) = objects gc @ [0]
   \<and> heapSize (snd (alloc n None gc)) = heapSize gc + n
   \<and> systemErrors (snd (alloc n None gc)) = systemErrors gc @ [FailedAllocation n]"
  by (simp add: alloc_def Let_def split: option.split)

section \<open>Sweep\<close>

lemma pruneInterned_filter:
  assumes "\<forall>e\<in>set xs. m (snd e) \<noteq> None"
  shows "pruneInterned m xs = Some (filter (\<lambda>e. isMarked m (snd e)) xs)"
  using assms
proof (induction xs)
  case Nil
  then show ?case by simp
next
  case (Cons e xs)
  obtain k p where e: "e = (k, p)" by (cases e)
  from Cons.prems e obtain ob where ob: "m p = Some ob" by auto
  from Cons have ih: "pruneInterned m xs = Some (filter (\<lambda>e. isMarked m (snd e)) xs)" by simp
  show ?case by (simp add: e ob ih isMarked_def)
qed

lemma sweepObjects_prefix:
  assumes "objects gc = pre @ suf" and "distinct pre" and "\<forall>p\<in>set pre. mem gc p \<noteq> None"
  shows "\<exists>gc'. sweepObjects (int (length pre) - 1) gc = Some gc'
           \<and> objects gc' = filter (isMarked (mem gc)) pre @ suf
           \<and> heapSize gc' = heapSize gc + sum_list (map (sizeOf (mem gc)) (filter (isMarked (mem gc)) pre))
           \<and> (\<forall>p. mem gc' p =
                 (if p \<in> set pre
                  then (case mem gc p of
                          None \<Rightarrow> None
                        | Some ob \<Rightarrow> if marked ob then Some (ob\<lparr>marked := False\<rparr>) else None)
                  else mem gc p))
           \<and> interned gc' = interned gc \<and> heapSizeLimit gc' = heapSizeLimit gc
           \<and> shouldCollect gc' = shouldCollect gc \<and> markStack gc' = markStack gc"
  using assms
proof (induction pre arbitrary: gc suf rule: rev_induct)
  case Nil
  then show ?case by (simp add: sweepObjects.simps)
next
  case (snoc x xs)
  from snoc.prems obtain ob where ob: "mem gc x = Some ob" by auto
  have objs: "objects gc = xs @ x # suf" using snoc.prems by simp
  have nth: "objects gc ! length xs = x" by (simp add: objs)
  have lt: "length xs < length (objects gc)" by (simp add: objs)
  have xnotin: "x \<notin> set xs" using snoc.prems by simp
  have dxs: "distinct xs" using snoc.prems by simp
  show ?case
  proof (cases "marked ob")
    case False
    define gc1 where "gc1 = gc\<lparr>mem := (mem gc)(x := None),
         objects := take (length xs) (objects gc) @ drop (Suc (length xs)) (objects gc)\<rparr>"
    have step: "sweepObjects (int (length (xs @ [x])) - 1) gc
        = sweepObjects (int (length xs) - 1) gc1"
      by (subst sweepObjects.simps) (simp add: nth lt ob False gc1_def Let_def)
    have o1: "objects gc1 = xs @ suf" by (simp add: gc1_def objs)
    have m1: "\<forall>p\<in>set xs. mem gc1 p \<noteq> None"
      using snoc.prems xnotin by (auto simp: gc1_def)
    from snoc.IH [OF o1 dxs m1] obtain gc' where r:
      "sweepObjects (int (length xs) - 1) gc1 = Some gc'"
      "objects gc' = filter (isMarked (mem gc1)) xs @ suf"
      "heapSize gc' = heapSize gc1 + sum_list (map (sizeOf (mem gc1)) (filter (isMarked (mem gc1)) xs))"
      "\<forall>p. mem gc' p =
                 (if p \<in> set xs
                  then (case mem gc1 p of
                          None \<Rightarrow> None
                        | Some ob \<Rightarrow> if marked ob then Some (ob\<lparr>marked := False\<rparr>) else None)
                  else mem gc1 p)"
      "interned gc' = interned gc1" "heapSizeLimit gc' = heapSizeLimit gc1"
      "shouldCollect gc' = shouldCollect gc1" "markStack gc' = markStack gc1"
      by blast
    have same: "\<And>p. p \<in> set xs \<Longrightarrow> mem gc1 p = mem gc p"
      using xnotin by (auto simp: gc1_def)
    have f1: "filter (isMarked (mem gc1)) xs = filter (isMarked (mem gc)) xs"
      by (rule filter_cong) (simp_all add: isMarked_def same)
    have s1: "map (sizeOf (mem gc1)) (filter (isMarked (mem gc)) xs)
            = map (sizeOf (mem gc)) (filter (isMarked (mem gc)) xs)"
      by (rule map_cong) (simp_all add: sizeOf_def same)
    have nm: "\<not> isMarked (mem gc) x" by (simp add: isMarked_def ob False)
    have "objects gc' = filter (isMarked (mem gc)) (xs @ [x]) @ suf"
      by (simp add: r(2) f1 nm)
    moreover have "heapSize gc' = heapSize gc
        + sum_list (map (sizeOf (mem gc)) (filter (isMarked (mem gc)) (xs @ [x])))"
    proof -
      have "heapSize gc1 = heapSize gc" by (simp add: gc1_def)
      then show ?thesis by (simp add: r(3) f1 s1 nm)
    qed
    moreover have "\<forall>p. mem gc' p =
                 (if p \<in> set (xs @ [x])
                  then (case mem gc p of
                          None \<Rightarrow> None
                        | Some ob \<Rightarrow> if marked ob then Some (ob\<lparr>marked := False\<rparr>) else None)
                  else mem gc p)"
      using r(4) same xnotin ob False by (auto simp: gc1_def)
    ultimately show ?thesis
      using step r(1) r(5-8) by (simp add: gc1_def)
  next
    case True
    define gc1 where "gc1 = gc\<lparr>heapSize := heapSize gc + getSize ob,
         mem := (mem gc)(x \<mapsto> ob\<lparr>marked := False\<rparr>)\<rparr>"
    have step: "sweepObjects (int (length (xs @ [x])) - 1) gc
        = sweepObjects (int (length xs) - 1) gc1"
      by (subst sweepObjects.simps) (simp add: nth lt ob True gc1_def Let_def)
    have o1: "objects gc1 = xs @ (x # suf)" by (simp add: gc1_def objs)
    have m1: "\<forall>p\<in>set xs. mem gc1 p \<noteq> None"
      using snoc.prems xnotin by (auto simp: gc1_def)
    from snoc.IH [OF o1 dxs m1] obtain gc' where r:
      "sweepObjects (int (length xs) - 1) gc1 = Some gc'"
      "objects gc' = filter (isMarked (mem gc1)) xs @ x # suf"
      "heapSize gc' = heapSize gc1 + sum_list (map (sizeOf (mem gc1)) (filter (isMarked (mem gc1)) xs))"
      "\<forall>p. mem gc' p =
                 (if p \<in> set xs
                  then (case mem gc1 p of
                          None \<Rightarrow> None
                        | Some ob \<Rightarrow> if marked ob then Some (ob\<lparr>marked := False\<rparr>) else None)
                  else mem gc1 p)"
      "interned gc' = interned gc1" "heapSizeLimit gc' = heapSizeLimit gc1"
      "shouldCollect gc' = shouldCollect gc1" "markStack gc' = markStack gc1"
      by blast
    have same: "\<And>p. p \<in> set xs \<Longrightarrow> mem gc1 p = mem gc p"
      using xnotin by (auto simp: gc1_def)
    have f1: "filter (isMarked (mem gc1)) xs = filter (isMarked (mem gc)) xs"
      by (rule filter_cong) (simp_all add: isMarked_def same)
    have s1: "map (sizeOf (mem gc1)) (filter (isMarked (mem gc)) xs)
            = map (sizeOf (mem gc)) (filter (isMarked (mem gc)) xs)"
      by (rule map_cong) (simp_all add: sizeOf_def same)
    have mk: "isMarked (mem gc) x" by (simp add: isMarked_def ob True)
    have sz: "sizeOf (mem gc) x = getSize ob" by (simp add: sizeOf_def ob)
    have "objects gc' = filter (isMarked (mem gc)) (xs @ [x]) @ suf"
      by (simp add: r(2) f1 mk)
    moreover have "heapSize gc' = heapSize gc
        + sum_list (map (sizeOf (mem gc)) (filter (isMarked (mem gc)) (xs @ [x])))"
    proof -
      have "heapSize gc1 = heapSize gc + getSize ob" by (simp add: gc1_def)
      then show ?thesis by (simp add: r(3) f1 s1 mk sz add.commute add.left_commute)
    qed
    moreover have "\<forall>p. mem gc' p =
                 (if p \<in> set (xs @ [x])
                  then (case mem gc p of
                          None \<Rightarrow> None
                        | Some ob \<Rightarrow> if marked ob then Some (ob\<lparr>marked := False\<rparr>) else None)
                  else mem gc p)"
      using r(4) same xnotin ob True by (auto simp: gc1_def)
    ultimately show ?thesis
      using step r(1) r(5-8) by (simp add: gc1_def)
  qed
qed

lemma sweepStart_in_range:
  assumes "length (objects gc) \<le> 2 ^ 31"
  shows "sweepStart gc = int (length (objects gc)) - 1"
proof -
  have lo: "- (2 ^ 31) \<le> int (length (objects gc)) - 1" by simp
  have "int (length (objects gc)) \<le> 2 ^ 31" using assms by simp
  then have hi: "int (length (objects gc)) - 1 < 2 ^ 31" by simp
  have "sweepStart gc = signed_take_bit (LENGTH(32) - 1) (int (length (objects gc)) - 1)"
    unfolding sweepStart_def by (rule sint_sbintrunc')
  also have "\<dots> = signed_take_bit 31 (int (length (objects gc)) - 1)" by simp
  also have "\<dots> = int (length (objects gc)) - 1"
    using lo hi by (rule signed_take_bit_int_eq_self)
  finally show ?thesis .
qed

text \<open>
  On a collector whose objects list has no duplicates, holds only live pointers (as do
  the values of the intern map) and has at most \<open>2\<^sup>3\<^sup>1\<close> entries, \<open>sweep\<close> returns, and
  afterwards: the objects list is the old one without its unmarked entries, each
  unmarked entry has been destroyed, every survivor is still allocated with its mark bit
  cleared, \<open>heapSize\<close> is the sum of \<open>getSize()\<close> over the survivors, and the intern map has
  lost exactly the entries whose string was unmarked when \<open>sweep\<close> began.
\<close>

lemma sweep_of_live_objects:
  assumes "distinct (objects gc)"
    and "\<forall>p\<in>set (objects gc). mem gc p \<noteq> None"
    and "\<forall>e\<in>set (interned gc). mem gc (snd e) \<noteq> None"
    and "length (objects gc) \<le> 2 ^ 31"
  shows "\<exists>gc'. sweep gc = Some gc'
           \<and> objects gc' = filter (isMarked (mem gc)) (objects gc)
           \<and> (\<forall>p\<in>set (objects gc). \<not> isMarked (mem gc) p \<longrightarrow>
                  mem gc' p = None \<and> p \<notin> set (objects gc'))
           \<and> (\<forall>p\<in>set (objects gc'). mem gc' p \<noteq> None \<and> \<not> isMarked (mem gc') p)
           \<and> heapSize gc' = sum_list (map (sizeOf (mem gc')) (objects gc'))
           \<and> interned gc' = filter (\<lambda>e. isMarked (mem gc) (snd e)) (interned gc)"
proof -
  define gc1 where "gc1 = gc\<lparr>heapSize := 0,
      interned := filter (\<lambda>e. isMarked (mem gc) (snd e)) (interned gc)\<rparr>"
  have pr: "pruneInterned (mem gc) (interned gc)
      = Some (filter (\<lambda>e. isMarked (mem gc) (snd e)) (interned gc))"
    using assms(3) by (rule pruneInterned_filter)
  have "length (objects (gc\<lparr>heapSize := 0\<rparr>)) \<le> 2 ^ 31" using assms(4) by simp
  then have st: "sweepStart (gc\<lparr>heapSize := 0\<rparr>) = int (length (objects gc)) - 1"
    by (simp add: sweepStart_in_range)
  have sw: "sweep gc = sweepObjects (int (length (objects gc)) - 1) gc1"
    by (simp add: sweep_def pr gc1_def st)
  have o1: "objects gc1 = objects gc @ []" by (simp add: gc1_def)
  have d1: "distinct (objects gc)" by (rule assms(1))
  have m1: "\<forall>p\<in>set (objects gc). mem gc1 p \<noteq> None" using assms(2) by (simp add: gc1_def)
  from sweepObjects_prefix [OF o1 d1 m1] obtain gc' where r:
    "sweepObjects (int (length (objects gc)) - 1) gc1 = Some gc'"
    "objects gc' = filter (isMarked (mem gc1)) (objects gc) @ []"
    "heapSize gc' = heapSize gc1
       + sum_list (map (sizeOf (mem gc1)) (filter (isMarked (mem gc1)) (objects gc)))"
    "\<forall>p. mem gc' p =
       (if p \<in> set (objects gc)
        then (case mem gc1 p of
                None \<Rightarrow> None
              | Some ob \<Rightarrow> if marked ob then Some (ob\<lparr>marked := False\<rparr>) else None)
        else mem gc1 p)"
    "interned gc' = interned gc1"
    by blast
  have mm: "mem gc1 = mem gc" by (simp add: gc1_def)
  have res: "sweep gc = Some gc'" using sw r(1) by simp
  have objs: "objects gc' = filter (isMarked (mem gc)) (objects gc)"
    using r(2) by (simp add: mm)
  have gone: "\<forall>p\<in>set (objects gc). \<not> isMarked (mem gc) p \<longrightarrow>
      mem gc' p = None \<and> p \<notin> set (objects gc')"
    using r(4) by (auto simp: mm objs isMarked_def split: option.splits)
  have kept: "\<forall>p\<in>set (objects gc'). mem gc' p \<noteq> None \<and> \<not> isMarked (mem gc') p"
    using r(4) by (auto simp: mm objs isMarked_def split: option.splits)
  have mp: "map (sizeOf (mem gc')) (filter (isMarked (mem gc)) (objects gc))
      = map (sizeOf (mem gc)) (filter (isMarked (mem gc)) (objects gc))"
    by (rule map_cong) (use r(4) in \<open>auto simp: mm sizeOf_def isMarked_def split: option.splits\<close>)
  have hs: "heapSize gc'
      = sum_list (map (sizeOf (mem gc)) (filter (isMarked (mem gc)) (objects gc)))"
    using r(3) by (simp add: mm gc1_def)
  have total: "heapSize gc' = sum_list (map (sizeOf (mem gc')) (objects gc'))"
    by (simp only: objs hs mp)
  have intern: "interned gc' = filter (\<lambda>e. isMarked (mem gc) (snd e)) (interned gc)"
    using r(5) by (simp add: gc1_def)
  from res objs gone kept total intern show ?thesis by blast
qed

text \<open>
  After an allocation that failed, the last entry of the objects list is the null pointer.
  The loop of \<open>sweep\<close> starts at that entry and reads \<open>obj->marked\<close> through it.
\<close>

lemma sweep_after_failed_alloc:
  assumes "mem gc 0 = None" and "length (objects gc) < 2 ^ 31"
  shows "sweep (snd (alloc n None gc)) = None"
proof -
  define g where "g = snd (alloc n None gc)"
  have og: "objects g = objects gc @ [0]" and mg: "mem g = mem gc"
    by (simp_all add: g_def alloc_def Let_def)
  have "length (objects (g\<lparr>heapSize := 0\<rparr>)) \<le> 2 ^ 31" using assms(2) by (simp add: og)
  then have st: "sweepStart (g\<lparr>heapSize := 0\<rparr>) = int (length (objects gc))"
    by (simp add: sweepStart_in_range og)
  have "sweepObjects (int (length (objects gc))) (g\<lparr>heapSize := 0, interned := kept\<rparr>) = None"
    for kept
    by (subst sweepObjects.simps) (simp add: og mg assms(1))
  then show ?thesis
    unfolding g_def [symmetric]
    by (simp add: sweep_def Let_def st split: option.split)
qed

text \<open>
  With \<open>2\<^sup>3\<^sup>1 + 1\<close> registered objects the \<open>int\<close> counter starts below zero: the loop does
  not run, nothing is swept and \<open>heapSize\<close> stays at zero.
\<close>

lemma sweep_counter_below_zero:
  assumes "length (objects gc) = 2 ^ 31 + 1"
    and "pruneInterned (mem gc) (interned gc) = Some kept"
  shows "sweep gc = Some (gc\<lparr>heapSize := 0, interned := kept\<rparr>)"
proof -
  have "sweepStart (gc\<lparr>heapSize := 0\<rparr>) = - (2 ^ 31)"
    by (simp add: sweepStart_def assms(1))
  then show ?thesis
    by (simp add: sweep_def assms(2) sweepObjects.simps)
qed

text \<open>
  C7.  A run of \<open>sweep\<close> that does not get to its end: the collector holds two live objects
  and \<open>alloc(64)\<close> fails, which registers the null pointer as third entry.  \<open>sweep\<close> then
  dereferences that entry; it has no result, and neither has the \<open>collect\<close> that runs it.
  Without the failed allocation the same \<open>sweep\<close> returns, with the unmarked object gone.
\<close>

theorem sweep_dereferences_null_entry:
  "objects (snd (alloc 64 None gc_example)) = [8, 16, 0]
   \<and> mem (snd (alloc 64 None gc_example)) 0 = None
   \<and> sweep (snd (alloc 64 None gc_example)) = None
   \<and> collect [8] (snd (alloc 64 None gc_before_collect)) = None
   \<and> map_option objects (sweep gc_example) = Some [8]
   \<and> map_option heapSize (sweep gc_example) = Some 2097152"
  by (simp add: alloc_def sweep_def sweepStart_def sweepObjects.simps collect_def
      gc_before_collect_def gc_example_def HEAP_START_SIZE_def
      markRoots_def markObj_def mark_def Let_def)

section \<open>Collect\<close>

lemma sweepObjects_keeps_limit:
  "sweepObjects i gc = Some gc' \<Longrightarrow> heapSizeLimit gc' = heapSizeLimit gc"
proof (induction i gc rule: sweepObjects.induct)
  case (1 i gc)
  show ?case
  proof (cases "i \<ge> 0")
    case False
    with "1.prems" show ?thesis by (simp add: sweepObjects.simps)
  next
    case True
    from "1.prems" True have lt: "nat i < length (objects gc)"
      by (subst (asm) sweepObjects.simps) (simp split: if_splits)
    from "1.prems" True lt obtain ob where ob: "mem gc (objects gc ! nat i) = Some ob"
      by (subst (asm) sweepObjects.simps) (cases "mem gc (objects gc ! nat i)", simp_all add: Let_def)
    show ?thesis
    proof (cases "marked ob")
      case mk: True
      from "1.prems" True lt ob mk have
        "sweepObjects (i - 1) (gc\<lparr>heapSize := heapSize gc + getSize ob,
            mem := (mem gc)(objects gc ! nat i \<mapsto> ob\<lparr>marked := False\<rparr>)\<rparr>) = Some gc'"
        by (subst (asm) sweepObjects.simps) (simp add: Let_def)
      from "1.IH"(2) [OF True lt refl ob _ this] mk show ?thesis by simp
    next
      case mk: False
      from "1.prems" True lt ob mk have
        "sweepObjects (i - 1) (gc\<lparr>mem := (mem gc)(objects gc ! nat i := None),
            objects := take (nat i) (objects gc) @ drop (Suc (nat i)) (objects gc)\<rparr>) = Some gc'"
        by (subst (asm) sweepObjects.simps) (simp add: Let_def)
      from "1.IH"(1) [OF True lt refl ob mk this] show ?thesis by simp
    qed
  qed
qed

lemma sweep_keeps_limit:
  assumes "sweep gc = Some gc'"
  shows "heapSizeLimit gc' = heapSizeLimit gc"
proof -
  from assms obtain kept i where
    "sweepObjects i (gc\<lparr>heapSize := 0, interned := kept\<rparr>) = Some gc'"
    by (auto simp: sweep_def Let_def split: option.splits)
  from sweepObjects_keeps_limit [OF this] show ?thesis by simp
qed

lemma collect_keeps_limit:
  assumes "collect roots gc = Some gc'"
  shows "heapSizeLimit gc' = heapSizeLimit gc"
proof -
  from assms obtain gc1 gc2 where m: "mark (markRoots roots gc) = Some gc1"
    and s: "sweep gc1 = Some gc2"
    and r: "gc' = gc2\<lparr>shouldCollect := False, threadsPaused := False\<rparr>"
    by (auto simp: collect_def Let_def split: option.splits if_splits)
  have "heapSizeLimit (markRoots roots gc) = heapSizeLimit gc"
    unfolding markRoots_def by (induction roots arbitrary: gc) (simp_all add: markObj_def)
  with m have "heapSizeLimit gc1 = heapSizeLimit gc"
    by (auto simp: mark_def split: option.splits)
  with sweep_keeps_limit [OF s] r show ?thesis by simp
qed

text \<open>
  C8.  \<open>collect\<close> run on a collector over budget: the first object (2 MiB) is the only
  root, the limit is 1 MiB.  The collection marks, sweeps the second object, clears
  \<open>shouldCollect\<close> and releases the threads; \<open>heapSize\<close> is then 2 MiB, still above the
  limit, and the limit is the old 1 MiB, not twice it.
\<close>

theorem collect_leaves_heapSizeLimit:
  "\<exists>gc'. collect [8] gc_before_collect = Some gc'
         \<and> objects gc' = [8]
         \<and> heapSize gc' = 2097152
         \<and> heapSize gc' > heapSizeLimit gc_before_collect
         \<and> \<not> shouldCollect gc'
         \<and> \<not> threadsPaused gc'
         \<and> heapSizeLimit gc' = heapSizeLimit gc_before_collect
         \<and> heapSizeLimit gc' \<noteq> 2 * heapSizeLimit gc_before_collect"
  by (simp add: collect_def gc_before_collect_def gc_example_def HEAP_START_SIZE_def
      markRoots_def markObj_def mark_def sweep_def sweepStart_def sweepObjects.simps Let_def)

section \<open>Equality of values\<close>

lemma isObj_encodeObj: "a < 2 ^ 48 \<Longrightarrow> isObj (encodeObj a)"
  by (simp add: isObj_def getType_encodeObj)

lemma isObjOfType_encodeObj:
  assumes "a < 2 ^ 48" and "h a = Some ob"
  shows "isObjOfType h ty (encodeObj a) = Inr (objType ob = ty)"
  using assms by (simp add: isObjOfType_def isObj_encodeObj decodeObj_encodeObj)

text \<open>Values of different kinds are unequal; an integer never equals a double.\<close>

lemma equals_different_kinds:
  "getType x \<noteq> getType y \<Longrightarrow> equals FLOAT_EQ printed h x y = Inr False"
  by (simp add: equals_def)

lemma equals_int_double:
  "getType y = DOUBLE \<Longrightarrow> equals FLOAT_EQ printed h (encodeInt n) y = Inr False"
  by (simp add: equals_def getType_encodeInt)

text \<open>Two doubles are compared by \<open>FLOAT_EQ\<close> on the two words.\<close>

lemma equals_doubles:
  "getType x = DOUBLE \<Longrightarrow> getType y = DOUBLE \<Longrightarrow>
     equals FLOAT_EQ printed h x y = Inr (FLOAT_EQ x y)"
  by (simp add: equals_def)

text \<open>Two strings are compared by their characters, whether or not they are one object.\<close>

lemma equals_strings:
  assumes "getType x = OBJ" and "getType y = OBJ"
    and "h (decodeObj x) = Some (ObjString s1)" and "h (decodeObj y) = Some (ObjString s2)"
  shows "equals FLOAT_EQ printed h x y = Inr (s1 = s2)"
  using assms by (simp add: equals_def toString_def)

text \<open>
  A string on the left is compared with the printed form of whatever object is on the
  right.
\<close>

lemma equals_string_left:
  assumes "getType x = OBJ" and "getType y = OBJ"
    and "h (decodeObj x) = Some (ObjString s)" and "h (decodeObj y) = Some oy"
  shows "equals FLOAT_EQ printed h x y = Inr (s = toString printed oy)"
  using assms by (simp add: equals_def toString_def)

text \<open>When the left operand is neither a double nor a string the words are compared.\<close>

lemma equals_not_object:
  "getType x = getType y \<Longrightarrow> getType x \<noteq> DOUBLE \<Longrightarrow> getType x \<noteq> OBJ \<Longrightarrow>
     equals FLOAT_EQ printed h x y = Inr (x = y)"
  by (simp add: equals_def)

lemma equals_left_not_string:
  "getType x = OBJ \<Longrightarrow> getType y = OBJ \<Longrightarrow> h (decodeObj x) = Some ox \<Longrightarrow>
     objType ox \<noteq> STRING \<Longrightarrow> equals FLOAT_EQ printed h x y = Inr (x = y)"
  by (simp add: equals_def)

text \<open>Every value that is not a double and is not a dangling pointer equals itself.\<close>

lemma equals_reflexive_not_object:
  "getType x \<noteq> DOUBLE \<Longrightarrow> getType x \<noteq> OBJ \<Longrightarrow> equals FLOAT_EQ printed h x x = Inr True"
  by (simp add: equals_def)

lemma equals_reflexive_object:
  "getType x = OBJ \<Longrightarrow> h (decodeObj x) = Some ox \<Longrightarrow> equals FLOAT_EQ printed h x x = Inr True"
  by (simp add: equals_def)

text \<open>
  C6.  \<open>equals\<close> looks at the type of the left operand only before it compares printed
  forms.  With a string on the left and an object of another kind on the right (here an
  empty array) whose printed form is the content of the string, the result is true,
  although the operands are not both strings and their words differ; with the operands
  exchanged the result is false.
\<close>

theorem equals_string_with_printed_form_of_other_object:
  "equals FLOAT_EQ printed [8 \<mapsto> ObjString (printed (ObjArray [] 0)), 16 \<mapsto> ObjArray [] 0]
       (encodeObj 8) (encodeObj 16) = Inr True
   \<and> encodeObj 8 \<noteq> encodeObj 16
   \<and> equals FLOAT_EQ printed [8 \<mapsto> ObjString (printed (ObjArray [] 0)), 16 \<mapsto> ObjArray [] 0]
       (encodeObj 16) (encodeObj 8) = Inr False"
  by (simp add: equals_def toString_def getType_def encodeObj_def decodeObj_def mask_defs)

section \<open>Runs of the interpreter\<close>

subsection \<open>Upvalues\<close>

text \<open>
  A local captured once is shared between its slot and the closure: after
  \<open>captureUpvalue\<close> the slot holds the cell, and the cell holds the old value.
\<close>

lemma captureUpvalue_moves_value:
  assumes "local < length (stack t)"
  shows "captureUpvalue local t =
     Inr (nextFree t,
          t\<lparr>heap := (heap t)(nextFree t \<mapsto> ObjUpval (stack t ! local)),
            nextFree := nextFree t + 16,
            stack := (stack t)[local := encodeObj (nextFree t)]\<rparr>)"
  using assms by (simp add: captureUpvalue_def new_def)

text \<open>
  A local captured twice gets two cells: the second cell holds the pointer to the first,
  and the slot holds the second.
\<close>

lemma captureUpvalue_twice:
  assumes "local < length (stack t)"
  shows "andThen (captureUpvalue local t) (\<lambda>(u1, t1). captureUpvalue local t1) =
     Inr (nextFree t + 16,
          t\<lparr>heap := (heap t)(nextFree t \<mapsto> ObjUpval (stack t ! local),
                              nextFree t + 16 \<mapsto> ObjUpval (encodeObj (nextFree t))),
            nextFree := nextFree t + 32,
            stack := (stack t)[local := encodeObj (nextFree t + 16)]\<rparr>)"
  using assms by (simp add: captureUpvalue_def new_def andThen_def)

text \<open>
  C1.  Two closures that capture the same local do not share a cell.  In the run of
  \<^verbatim>\<open>let x = 1; let f = fn() { return x; }; let g = fn() { x = 5; }; g(); f(); x;\<close>
  the closure \<open>f\<close> (at \<open>0x200\<close>) holds the cell \<open>0x210\<close> and \<open>g\<close> (at \<open>0x220\<close>) holds
  the cell \<open>0x230\<close>; after \<open>g\<close> has written 5, \<open>f()\<close> still returns 1, while the slot of
  \<open>x\<close> reads 5: the stack ends with the values of \<open>f()\<close> and of \<open>x\<close>, 1 and 5.
\<close>

theorem sibling_closures_have_separate_cells:
  "stackAfter (run siblings_program siblings_start)
     = Some [encodeObj 0x130, encodeObj 0x230, encodeObj 0x200, encodeObj 0x220,
             encodeInt 1, encodeInt 5]
   \<and> objectAfter (run siblings_program siblings_start) 0x200 = Some (ObjClosure 0x100 [0x210])
   \<and> objectAfter (run siblings_program siblings_start) 0x220 = Some (ObjClosure 0x110 [0x230])
   \<and> objectAfter (run siblings_program siblings_start) 0x210 = Some (ObjUpval (encodeInt 1))
   \<and> objectAfter (run siblings_program siblings_start) 0x230 = Some (ObjUpval (encodeInt 5))"
  by (simp add: siblings_program_def siblings_start_def vm_defs Let_def
      op_CLOSURE_def op_GET_UPVALUE_def op_SET_UPVALUE_def op_CALL_def op_RETURN_def
      op_POP_def op_NIL_def captureUpvalue_def frameUpvals_def)

subsection \<open>Error codes\<close>

text \<open>A closure called with the wrong number of arguments: code 2.\<close>

lemma call_arity_mismatch:
  assumes "heap t c = Some (ObjClosure func ups)"
    and "heap t func = Some (ObjFunc arity uc bo co nm)"
    and "int argCount \<noteq> arity"
  shows "call c argCount t = Inl (RuntimeError 2)"
  using assms by (simp add: call_def runtimeError_def)

lemma callValue_closure_arity_mismatch:
  assumes "isObj callee"
    and "heap t (decodeObj callee) = Some (ObjClosure func ups)"
    and "heap t func = Some (ObjFunc arity uc bo co nm)"
    and "int argCount \<noteq> arity"
  shows "callValue natives callee argCount t = Inl (RuntimeError 2)"
  using assms by (simp add: callValue_def call_arity_mismatch)

text \<open>A callee that is not an object, or an object of a kind that cannot be called: code 3.\<close>

lemma callValue_not_an_object:
  assumes "\<not> isObj callee"
  shows "callValue natives callee argCount t = Inl (RuntimeError 3)"
  using assms by (simp add: callValue_def runtimeError_def)

lemma callValue_not_callable:
  assumes "isObj callee"
    and "heap t (decodeObj callee) = Some ob"
    and "objType ob \<notin> {CLOSURE, NATIVE, BOUND_NATIVE, CLASS, BOUND_METHOD}"
  shows "callValue natives callee argCount t = Inl (RuntimeError 3)"
  using assms by (cases ob) (simp_all add: callValue_def runtimeError_def)

text \<open>A negative index, and an index at or beyond the length of a non-empty array: code 9.\<close>

lemma sint32_lt: "sint (i :: 32 word) < 2147483648"
  using sint_lt [of i] by simp

lemma take_bit_64_small:
  assumes "0 \<le> k" and "k < 2147483648"
  shows "take_bit 64 k = (k :: int)"
proof -
  have "k < 2 ^ 64" using assms(2) by simp
  with assms(1) show ?thesis by (rule take_bit_int_eq_self)
qed

lemma word64_of_int_less:
  "(word_of_int k :: 64 word) < word_of_int l \<longleftrightarrow> take_bit 64 k < take_bit 64 l"
  using word_of_int_less_iff [where 'a = 64, of k l] by simp

lemma index_beyond_size:
  assumes "1 \<le> n" and "int n \<le> sint (i :: 32 word)"
  shows "(of_nat n - 1 :: 64 word) < scast i"
proof -
  have i0: "0 \<le> sint i" using assms by simp
  have n31: "int n - 1 < 2147483648" using assms(2) sint32_lt [of i] by simp
  have n0: "0 \<le> int n - 1" using assms(1) by simp
  have a: "(of_nat n - 1 :: 64 word) = word_of_int (int n - 1)" by simp
  have b: "(scast i :: 64 word) = word_of_int (sint i)" by (rule scast_eq)
  have "take_bit 64 (int n - 1) < take_bit 64 (sint i)"
    using assms(2) by (simp only: take_bit_64_small [OF n0 n31] take_bit_64_small [OF i0 sint32_lt])
  then have "(word_of_int (int n - 1) :: 64 word) < word_of_int (sint i)"
    by (simp only: word64_of_int_less)
  then show ?thesis by (simp only: a b)
qed

lemma checkArrayBounds_negative:
  assumes "isInt field" and "sint (decodeInt field) < 0"
  shows "checkArrayBounds field vals = Inl (RuntimeError 9)"
  using assms by (simp add: checkArrayBounds_def runtimeError_def)

lemma checkArrayBounds_beyond:
  assumes "isInt field" and "vals \<noteq> []" and "int (length vals) \<le> sint (decodeInt field)"
  shows "checkArrayBounds field vals = Inl (RuntimeError 9)"
proof -
  have "1 \<le> length vals" using assms(2) by (cases vals) simp_all
  then have "(of_nat (length vals) - 1 :: 64 word) < scast (decodeInt field)"
    using assms(3) by (rule index_beyond_size)
  then show ?thesis
    using assms(1) by (simp add: checkArrayBounds_def runtimeError_def Let_def)
qed

text \<open>On an empty array no index from 0 upwards is rejected.\<close>

lemma checkArrayBounds_empty:
  assumes "isInt field" and "0 \<le> sint (decodeInt field)"
  shows "checkArrayBounds field [] = Inr (decodeInt field)"
  using assms by (simp add: checkArrayBounds_def Let_def)

text \<open>A field that a struct does not have, read with \<open>GET\<close>: code 4.\<close>

lemma op_GET_missing_struct_field:
  assumes "stack t = rest @ [encodeObj a, encodeObj s]"
    and "a < 2 ^ 48" and "s < 2 ^ 48"
    and "heap t a = Some (ObjInstance 0 fs)"
    and "heap t s = Some (ObjString name)"
    and "fs name = None"
  shows "op_GET t = Inl (RuntimeError 4)"
  using assms
  by (simp add: op_GET_def pop_def andThen_def isArray_def isInstance_def isString_def
      isObjOfType_encodeObj decodeObj_encodeObj strOf_def runtimeError_def butlast_append)

text \<open>
  A member that an instance has neither as a field nor as a method of its class nor as
  a method common to all values, read with \<open>GET_PROPERTY\<close>: code 4.
\<close>

lemma op_GET_PROPERTY_missing_member:
  assumes "stack t = rest @ [encodeObj a]"
    and "a < 2 ^ 48"
    and "heap t a = Some (ObjInstance k fs)"
    and "fs name = None"
    and "k \<noteq> 0"
    and "heap t k = Some (ObjClass cname ms)"
    and "ms name = None"
    and "nativeClasses Builtin_COMMON name = None"
    and "READ_STRING (t\<lparr>stack := rest\<rparr>) = Inr (name, t\<lparr>stack := rest, pc := pc t + 1\<rparr>)"
  shows "op_GET_PROPERTY nativeClasses t = Inl (RuntimeError 4)"
  using assms
  by (simp add: op_GET_PROPERTY_def pop_def andThen_def isInstance_def isObjOfType_encodeObj
      decodeObj_encodeObj isObj_encodeObj bindMethod_def bindMethodToPrimitive_def
      findNativeMethod_def runtimeError_def)

lemma op_GET_PROPERTY_missing_struct_member:
  assumes "stack t = rest @ [encodeObj a]"
    and "a < 2 ^ 48"
    and "heap t a = Some (ObjInstance 0 fs)"
    and "fs name = None"
    and "nativeClasses Builtin_COMMON name = None"
    and "READ_STRING (t\<lparr>stack := rest\<rparr>) = Inr (name, t\<lparr>stack := rest, pc := pc t + 1\<rparr>)"
  shows "op_GET_PROPERTY nativeClasses t = Inl (RuntimeError 4)"
  using assms
  by (simp add: op_GET_PROPERTY_def pop_def andThen_def isInstance_def isObjOfType_encodeObj
      decodeObj_encodeObj isObj_encodeObj bindMethod_def bindMethodToPrimitive_def
      findNativeMethod_def runtimeError_def)

text \<open>
  C4.  An index at or beyond the length is not always answered with code 9: on the
  empty array the bound \<open>arr->values.size() - 1\<close> wraps around to the largest 64-bit
  number, \<open>checkArrayBounds\<close> lets index 0 pass, and the run of
  \<^verbatim>\<open>let a = []; a[0];\<close> goes on to read \<open>arr->values[0]\<close> outside the array instead
  of signalling an error.
\<close>

theorem empty_array_index_is_not_rejected:
  "checkArrayBounds (encodeInt 0) [] = Inr 0
   \<and> objectAfter (run (butlast empty_array_program) empty_array_start) 0x200
       = Some (ObjArray [] 0)
   \<and> stackAfter (run (butlast empty_array_program) empty_array_start)
       = Some [encodeObj 0x130, encodeObj 0x200, encodeObj 0x200, encodeInt 0]
   \<and> run empty_array_program empty_array_start = Inl Undefined"
  by (simp add: empty_array_program_def empty_array_start_def vm_defs Let_def
      op_CREATE_ARRAY_def op_GET_def checkArrayBounds_def valueAt_def)


subsection \<open>Struct literals\<close>

text \<open>
  C9, as stated, fails: the struct made by \<^verbatim>\<open>{}\<close> has no field, and after
  \<^verbatim>\<open>s["x"] = 1\<close> it has the field \<open>x\<close>, which \<open>CREATE_STRUCT\<close> did not name.  The same
  field appears when \<^verbatim>\<open>s.x = 1\<close> is run on that struct, by \<open>SET_PROPERTY\<close> or by
  \<open>SET_PROPERTY_LONG\<close>.
\<close>

theorem struct_gains_unnamed_field:
  "objectAfter (run [op_CREATE_STRUCT] struct_start) 0x200 = Some (ObjInstance 0 Map.empty)
   \<and> structFieldAfter (run [op_CREATE_STRUCT] struct_start) 0x200 ''x'' = None
   \<and> structFieldAfter (run struct_program struct_start) 0x200 ''x'' = Some (encodeInt 1)
   \<and> structFieldAfter (op_SET_PROPERTY struct_before_SET_PROPERTY) 0x200 ''x'' = Some (encodeInt 1)
   \<and> structFieldAfter (op_SET_PROPERTY_LONG struct_before_SET_PROPERTY) 0x200 ''x''
       = Some (encodeInt 1)"
  by (simp add: struct_program_def struct_start_def struct_before_SET_PROPERTY_def vm_defs Let_def
      op_CREATE_STRUCT_def op_CONSTANT_def op_SET_def op_SET_PROPERTY_def
      op_SET_PROPERTY_LONG_def READ_STRING_LONG_def READ_CONSTANT_LONG_def structFieldAfter_def)

text \<open>
  What the two opcodes do to a struct: \<open>SET\<close> with a string key and \<open>SET_PROPERTY\<close> store the
  value under the name they are given, adding the name to the field map when it is
  absent; the other fields, the rest of the heap and the rest of the stack stay as they
  were.
\<close>

lemma op_SET_and_SET_PROPERTY_on_struct:
  assumes "stack t = rest @ [val, encodeObj a, encodeObj s]"
    and "a < 2 ^ 48" and "s < 2 ^ 48"
    and "heap t a = Some (ObjInstance 0 fs)"
    and "heap t s = Some (ObjString name)"
    and "stack u = rest' @ [val', encodeObj a']"
    and "a' < 2 ^ 48"
    and "heap u a' = Some (ObjInstance 0 fs')"
    and "pc u < length (bytecode (code u))"
    and "constantOffset u + unat (bytecode (code u) ! pc u) < length (constants (code u))"
    and "heap u (decodeObj (constants (code u) ! (constantOffset u + unat (bytecode (code u) ! pc u))))
           = Some (ObjString name')"
  shows "op_SET t =
           Inr (t\<lparr>stack := rest @ [val],
                  heap := (heap t)(a \<mapsto> ObjInstance 0 (fs(name \<mapsto> val)))\<rparr>)
       \<and> op_SET_PROPERTY u =
           Inr (u\<lparr>stack := rest' @ [val'], pc := pc u + 1,
                  heap := (heap u)(a' \<mapsto> ObjInstance 0 (fs'(name' \<mapsto> val')))\<rparr>)"
proof
  show "op_SET t =
          Inr (t\<lparr>stack := rest @ [val],
                 heap := (heap t)(a \<mapsto> ObjInstance 0 (fs(name \<mapsto> val)))\<rparr>)"
    using assms(1-5)
    by (simp add: op_SET_def pop_def peek_def andThen_def isArray_def isInstance_def
        isString_def isObjOfType_encodeObj decodeObj_encodeObj strOf_def butlast_append)
next
  show "op_SET_PROPERTY u =
          Inr (u\<lparr>stack := rest' @ [val'], pc := pc u + 1,
                 heap := (heap u)(a' \<mapsto> ObjInstance 0 (fs'(name' \<mapsto> val')))\<rparr>)"
    using assms(6-11)
    by (simp add: op_SET_PROPERTY_def pop_def peek_def andThen_def isInstance_def
        isObjOfType_encodeObj decodeObj_encodeObj READ_STRING_def READ_CONSTANT_def
        READ_BYTE_def constantAt_def strOf_def butlast_append)
qed

lemma op_SET_and_SET_PROPERTY_on_example:
  "op_SET struct_before_SET =
     Inr (struct_before_SET\<lparr>stack := [encodeObj 0x130, encodeObj 0x200] @ [encodeInt 1],
            heap := (heap struct_before_SET)
                      (0x200 \<mapsto> ObjInstance 0 (Map.empty(''x'' \<mapsto> encodeInt 1)))\<rparr>)
   \<and> op_SET_PROPERTY struct_before_SET_PROPERTY =
     Inr (struct_before_SET_PROPERTY\<lparr>stack := [encodeObj 0x130, encodeObj 0x200] @ [encodeInt 1],
            pc := pc struct_before_SET_PROPERTY + 1,
            heap := (heap struct_before_SET_PROPERTY)
                      (0x200 \<mapsto> ObjInstance 0 (Map.empty(''x'' \<mapsto> encodeInt 1)))\<rparr>)"
proof -
  have s1: "stack struct_before_SET
      = [encodeObj 0x130, encodeObj 0x200] @ [encodeInt 1, encodeObj 0x200, encodeObj 0x140]"
    by (simp add: struct_before_SET_def)
  have a1: "(0x200 :: addr) < 2 ^ 48" by simp
  have a2: "(0x140 :: addr) < 2 ^ 48" by simp
  have h1: "heap struct_before_SET 0x200 = Some (ObjInstance 0 Map.empty)"
    by (simp add: struct_before_SET_def)
  have h2: "heap struct_before_SET 0x140 = Some (ObjString ''x'')"
    by (simp add: struct_before_SET_def struct_start_def)
  have s2: "stack struct_before_SET_PROPERTY
      = [encodeObj 0x130, encodeObj 0x200] @ [encodeInt 1, encodeObj 0x200]"
    by (simp add: struct_before_SET_PROPERTY_def)
  have h3: "heap struct_before_SET_PROPERTY 0x200 = Some (ObjInstance 0 Map.empty)"
    by (simp add: struct_before_SET_PROPERTY_def)
  have p1: "pc struct_before_SET_PROPERTY < length (bytecode (code struct_before_SET_PROPERTY))"
    by (simp add: struct_before_SET_PROPERTY_def struct_start_def)
  have p2: "constantOffset struct_before_SET_PROPERTY
        + unat (bytecode (code struct_before_SET_PROPERTY) ! pc struct_before_SET_PROPERTY)
      < length (constants (code struct_before_SET_PROPERTY))"
    by (simp add: struct_before_SET_PROPERTY_def struct_start_def)
  have p3: "heap struct_before_SET_PROPERTY
       (decodeObj (constants (code struct_before_SET_PROPERTY)
          ! (constantOffset struct_before_SET_PROPERTY
             + unat (bytecode (code struct_before_SET_PROPERTY) ! pc struct_before_SET_PROPERTY))))
      = Some (ObjString ''x'')"
    by (simp add: struct_before_SET_PROPERTY_def struct_start_def encodeObj_def decodeObj_def
        mask_defs)
  from op_SET_and_SET_PROPERTY_on_struct [OF s1 a1 a2 h1 h2 s2 a1 h3 p1 p2 p3]
  show ?thesis .
qed


section \<open>Switch statements\<close>

lemmas emit_defs =
  makeConstant_def emitByteAnd16Bit_def emit16Bit_def emitBytes_def emitByte_def
  emitJump_def patchJump_def toInt_def UINT16_MAX_def SHORT_CONSTANT_LIMIT_def

text \<open>The code of the two examples; the jump slot of the default is bytes 6 and 7.\<close>

lemma visitSwitchStmt_no_default:
  "visitSwitchStmt opc (switch_no_default body) empty_chunk
     = Inr \<lparr>bytecode = [opc SWITCH, 0, 1, 0, 0, 2, 0xff, 0xff, body, opc JUMP, 0, 0],
            constants = [encodeInt 1]\<rparr>"
  by (simp add: visitSwitchStmt_def switch_no_default_def empty_chunk_def emit_defs Let_def)

lemma visitSwitchStmt_with_default:
  "visitSwitchStmt opc (switch_with_default body) empty_chunk
     = Inr \<lparr>bytecode = [opc SWITCH, 0, 1, 0, 0, 2, 0, 4, body, opc JUMP, 0, 4,
                        body, opc JUMP, 0, 0],
            constants = [encodeInt 1]\<rparr>"
  by (simp add: visitSwitchStmt_def switch_with_default_def empty_chunk_def emit_defs Let_def)

lemma visitSwitchStmt_strings:
  "visitSwitchStmt opc (switch_strings body) empty_chunk
     = Inr \<lparr>bytecode = [opc SWITCH, 0, 1, 0, 0, 2, 0, 4, body, opc JUMP, 0, 4,
                        body, opc JUMP, 0, 0],
            constants = [encodeObj 0x140]\<rparr>"
  by (simp add: visitSwitchStmt_def switch_strings_def empty_chunk_def emit_defs Let_def)

text \<open>
  With a default case the switch reaches the body of the matching case (at 8) and, when
  nothing matches, the body of the default (at 12).
\<close>

lemma switch_with_default_match:
  "runSwitch opc (switch_with_default body) (encodeInt 1) = Some 8"
  by (simp add: runSwitch_def visitSwitchStmt_with_default pcAfter_def op_SWITCH_def
      switch_thread_def vm_defs Let_def)

lemma switch_with_default_no_match:
  "runSwitch opc (switch_with_default body) (encodeInt 2) = Some 12"
  by (simp add: runSwitch_def visitSwitchStmt_with_default pcAfter_def op_SWITCH_def
      switch_thread_def vm_defs Let_def)

text \<open>
  The scrutinee is compared with the constants word by word: a string at another address
  than the string of the case goes to the default, although \<open>equals\<close> holds of the two.
\<close>

lemma switch_string_other_object:
  "runSwitch opc (switch_strings body) (encodeObj 0x150) = Some 12"
  by (simp add: runSwitch_def visitSwitchStmt_strings pcAfter_def op_SWITCH_def
      switch_thread_def vm_defs Let_def)

lemma switch_string_same_object:
  "runSwitch opc (switch_strings body) (encodeObj 0x140) = Some 8"
  by (simp add: runSwitch_def visitSwitchStmt_strings pcAfter_def op_SWITCH_def
      switch_thread_def vm_defs Let_def)

lemma equal_strings_at_two_addresses:
  "equals FLOAT_EQ printed [0x140 \<mapsto> ObjString ''a'', 0x150 \<mapsto> ObjString ''a'']
     (encodeObj 0x150) (encodeObj 0x140) = Inr True"
  by (simp add: equals_def toString_def getType_def encodeObj_def decodeObj_def mask_defs)

text \<open>
  C2.  Without a default case the jump slot of the default is never patched and keeps
  the placeholder \<open>0xffff\<close>.  The code of \<^verbatim>\<open>switch (e) { case 1: s }\<close> is 12 bytes long;
  with the scrutinee 1 the instruction continues at 8, the body of the case; with the
  scrutinee 2, which matches no case, it continues at 65543, not at 12, the first
  instruction past the switch statement.
\<close>

theorem switch_without_default_jumps_out_of_the_code:
  "compiledCode (visitSwitchStmt opc (switch_no_default body) empty_chunk)
     = Some [opc SWITCH, 0, 1, 0, 0, 2, 0xff, 0xff, body, opc JUMP, 0, 0]
   \<and> runSwitch opc (switch_no_default body) (encodeInt 1) = Some 8
   \<and> runSwitch opc (switch_no_default body) (encodeInt 2) = Some 65543"
  by (simp add: compiledCode_def runSwitch_def visitSwitchStmt_no_default pcAfter_def
      op_SWITCH_def switch_thread_def vm_defs Let_def)


section \<open>Classes and inheritance\<close>

text \<open>\<open>INHERIT\<close> copies the method table of the superclass into the subclass.\<close>

lemma op_INHERIT_copies_methods:
  assumes "stack t = rest @ [encodeObj super_p, encodeObj sub_p]"
    and "super_p < 2 ^ 48" and "sub_p < 2 ^ 48"
    and "heap t super_p = Some (ObjClass supername supermethods)"
    and "heap t sub_p = Some (ObjClass subname submethods)"
  shows "op_INHERIT t =
     Inr (t\<lparr>heap := (heap t)(sub_p \<mapsto> ObjClass subname (submethods ++ supermethods))\<rparr>)"
  using assms
  by (simp add: op_INHERIT_def peek_def andThen_def isClass_def isObjOfType_encodeObj
      decodeObj_encodeObj nth_append)

text \<open>
  The method table that \<open>visitClassDecl\<close> gives a class holds the methods declared in
  the class and no other, whether or not the class inherits.
\<close>

lemma addMethods_names:
  "addMethods ms table cpl = Inr (table', cpl') \<Longrightarrow> dom table' = dom table \<union> fst ` set ms"
proof (induction ms arbitrary: table cpl)
  case Nil
  then show ?case by simp
next
  case (Cons m ms)
  obtain nm func where m: "m = (nm, func)" by (cases m)
  from Cons.prems m obtain clos cpl1 where
    "method_closure func cpl = Inr (clos, cpl1)"
    and rest: "addMethods ms (table(nm \<mapsto> encodeObj clos)) cpl1 = Inr (table', cpl')"
    by (auto split: sum.splits)
  from Cons.IH [OF rest] show ?case by (auto simp: m)
qed

lemma visitClassDecl_own_methods_only:
  assumes "visitClassDecl (ClassDecl className inherits ms) cpl = Inr cpl'"
  shows "\<exists>table. objs cpl' (objsFree cpl) = Some (ObjClass className table)
           \<and> dom table = fst ` set ms"
proof -
  from assms obtain index superclass table cpl2 where
    am: "addMethods ms Map.empty
           (defineVar index (snd (newObj (ObjClass className Map.empty) cpl))) = Inr (table, cpl2)"
    and res: "cpl' = cpl2\<lparr>objs := (objs cpl2)(fst (newObj (ObjClass className Map.empty) cpl)
                 \<mapsto> ObjClass className table),
               globals := (globals cpl2)
                 [index := (fst (globals cpl2 ! index),
                            encodeObj (fst (newObj (ObjClass className Map.empty) cpl)))]\<rparr>"
    by (auto simp: visitClassDecl_def Let_def split: sum.splits prod.splits if_splits)
  have "fst (newObj (ObjClass className Map.empty) cpl) = objsFree cpl"
    by (simp add: newObj_def)
  with res have "objs cpl' (objsFree cpl) = Some (ObjClass className table)" by simp
  moreover from addMethods_names [OF am] have "dom table = fst ` set ms" by simp
  ultimately show ?thesis by blast
qed

text \<open>
  C3.  The compiler does not copy the methods of the superclass.  After compiling
  \<^verbatim>\<open>class A { fn greet() { ... } }  class B : A { }\<close> the class \<open>A\<close> has the method \<open>greet\<close>
  and the method table of \<open>B\<close> is empty; invoking \<open>greet\<close> on an instance of \<open>B\<close> ends with
  error code 4, while on an instance of \<open>A\<close> it enters the method (a second frame, at
  code position 4).
\<close>

theorem subclass_has_no_inherited_methods:
  "classAfter (visitClassDecl class_B inherit_start) ''A''
     = Some (ObjClass ''A'' [''greet'' \<mapsto> encodeObj 0x310])
   \<and> classAfter (visitClassDecl class_B inherit_start) ''B'' = Some (ObjClass ''B'' Map.empty)
   \<and> invokeGreet (visitClassDecl class_B inherit_start) 0x400 = Some (Inl (RuntimeError 4))
   \<and> framesAfter (invokeGreet (visitClassDecl class_B inherit_start) 0x300)
       = Some [\<lparr>closure = 0x130, ip = 3, slots = 0\<rparr>, \<lparr>closure = 0x310, ip = 4, slots = 1\<rparr>]"
  by (simp add: classAfter_def invokeGreet_def framesAfter_def visitClassDecl_def class_B_def
      inherit_start_def parseVar_def newObj_def resolveSuperclass_def resolveGlobal_def
      defineVar_def invoke_thread_def no_native_methods_def op_INVOKE_def invoke_def
      invokeFromClass_def invokeNative_def findNativeMethod_def vm_defs Let_def)


section \<open>Field names of structs under the interpreter loop\<close>

text \<open>
  The lemmas below follow each opcode of the loop and record what it does to the heap.
\<close>


lemmas prim_defs =
  andThen_def pop_def push_def peek_def poke_def popn_def runtimeError_def
  READ_BYTE_def READ_SHORT_def READ_CONSTANT_def READ_CONSTANT_LONG_def constantAt_def
  READ_STRING_def READ_STRING_LONG_def strOf_def

lemmas type_defs = isArray_def isInstance_def isString_def isUpvalue_def isClass_def isObjOfType_def

lemma structFields_Some:
  "structFields t a = Some D \<longleftrightarrow> (\<exists>fs. heap t a = Some (ObjInstance 0 fs) \<and> dom fs = D)"
  by (auto simp: structFields_def split: option.splits Obj.splits)

lemma structFields_heap: "heap t' = heap t \<Longrightarrow> structFields t' a = structFields t a"
  by (simp add: structFields_def)

lemma bump:
  fixes a n :: "64 word"
  assumes "a < n" and "unat n + 16 < 2 ^ 64"
  shows "a < n + 16" and "unat (n + 16) = unat n + 16" and "a \<noteq> n + 16" and "n + 16 \<noteq> a"
proof -
  show u: "unat (n + 16) = unat n + 16"
    using assms(2) by (simp add: unat_word_ariths(1) take_bit_nat_eq_self unsigned_of_nat)
  have "unat a < unat n" using assms(1) by (simp add: word_less_nat_alt)
  then have "unat a < unat (n + 16)" using u by simp
  then show l: "a < n + 16" by (simp add: word_less_nat_alt)
  from l show "a \<noteq> n + 16" "n + 16 \<noteq> a" by auto
qed

lemma below_48:
  fixes n :: "64 word"
  assumes "n < 2 ^ 48"
  shows "unat n < 2 ^ 48"
proof -
  have "unat n < unat (2 ^ 48 :: 64 word)" using assms by (simp add: word_less_nat_alt)
  then show ?thesis by simp
qed

lemma pop_heap: "pop t = Inr (v, t1) \<Longrightarrow> heap t1 = heap t \<and> nextFree t1 = nextFree t"
  by (auto simp: pop_def split: if_splits)

subsection \<open>Opcodes that leave the heap as it is\<close>

lemma op_POP_heap: "op_POP t = Inr t' \<Longrightarrow> heap t' = heap t"
  by (auto simp: op_POP_def prim_defs split: if_splits sum.splits)

lemma op_POPN_heap: "op_POPN t = Inr t' \<Longrightarrow> heap t' = heap t"
  by (auto simp: op_POPN_def prim_defs split: if_splits sum.splits)

lemma op_LOAD_INT_heap: "op_LOAD_INT t = Inr t' \<Longrightarrow> heap t' = heap t"
  by (auto simp: op_LOAD_INT_def prim_defs split: if_splits sum.splits)

lemma op_CONSTANT_heap: "op_CONSTANT t = Inr t' \<Longrightarrow> heap t' = heap t"
  by (auto simp: op_CONSTANT_def prim_defs split: if_splits sum.splits)

lemma op_CONSTANT_LONG_heap: "op_CONSTANT_LONG t = Inr t' \<Longrightarrow> heap t' = heap t"
  by (auto simp: op_CONSTANT_LONG_def prim_defs split: if_splits sum.splits)

lemma op_NIL_heap: "op_NIL t = Inr t' \<Longrightarrow> heap t' = heap t"
  by (auto simp: op_NIL_def prim_defs split: if_splits)

lemma op_TRUE_heap: "op_TRUE t = Inr t' \<Longrightarrow> heap t' = heap t"
  by (auto simp: op_TRUE_def prim_defs split: if_splits)

lemma op_FALSE_heap: "op_FALSE t = Inr t' \<Longrightarrow> heap t' = heap t"
  by (auto simp: op_FALSE_def prim_defs split: if_splits)

lemma op_NEGATE_heap: "op_NEGATE P t = Inr t' \<Longrightarrow> heap t' = heap t"
  by (auto simp: op_NEGATE_def prim_defs split: if_splits sum.splits)

lemma op_NOT_heap: "op_NOT t = Inr t' \<Longrightarrow> heap t' = heap t"
  by (auto simp: op_NOT_def prim_defs split: if_splits sum.splits)

lemma op_BIN_NOT_heap: "op_BIN_NOT t = Inr t' \<Longrightarrow> heap t' = heap t"
  by (auto simp: op_BIN_NOT_def prim_defs split: if_splits sum.splits)

lemma BINARY_OP_heap: "BINARY_OP P iop dop t = Inr t' \<Longrightarrow> heap t' = heap t"
  by (auto simp: BINARY_OP_def prim_defs split: if_splits sum.splits)

lemma INT_BINARY_OP_heap: "INT_BINARY_OP iop t = Inr t' \<Longrightarrow> heap t' = heap t"
  by (auto simp: INT_BINARY_OP_def prim_defs split: if_splits sum.splits)

lemma compareNumbers_heap: "compareNumbers P cmp t = Inr t' \<Longrightarrow> heap t' = heap t"
  by (auto simp: compareNumbers_def prim_defs split: if_splits sum.splits)

lemma op_EQUAL_heap: "op_EQUAL P t = Inr t' \<Longrightarrow> heap t' = heap t"
  by (auto simp: op_EQUAL_def prim_defs split: if_splits sum.splits)

lemma op_NOT_EQUAL_heap: "op_NOT_EQUAL P t = Inr t' \<Longrightarrow> heap t' = heap t"
  by (auto simp: op_NOT_EQUAL_def prim_defs split: if_splits sum.splits)

lemma op_GET_LOCAL_heap: "op_GET_LOCAL t = Inr t' \<Longrightarrow> heap t' = heap t"
  by (auto simp: op_GET_LOCAL_def prim_defs type_defs Let_def
      split: if_splits sum.splits option.splits Obj.splits)

lemma op_GET_UPVALUE_heap: "op_GET_UPVALUE t = Inr t' \<Longrightarrow> heap t' = heap t"
  by (auto simp: op_GET_UPVALUE_def prim_defs frameUpvals_def
      split: if_splits sum.splits option.splits Obj.splits)

lemma jumpBack_heap: "jumpBack n t = Inr t' \<Longrightarrow> heap t' = heap t"
  by (auto simp: jumpBack_def split: if_splits)

lemma op_JUMP_heap: "op_JUMP t = Inr t' \<Longrightarrow> heap t' = heap t"
  by (auto simp: op_JUMP_def prim_defs split: if_splits sum.splits)

lemma op_JUMP_IF_FALSE_heap: "op_JUMP_IF_FALSE t = Inr t' \<Longrightarrow> heap t' = heap t"
  by (auto simp: op_JUMP_IF_FALSE_def prim_defs split: if_splits sum.splits)

lemma op_JUMP_IF_TRUE_heap: "op_JUMP_IF_TRUE t = Inr t' \<Longrightarrow> heap t' = heap t"
  by (auto simp: op_JUMP_IF_TRUE_def prim_defs split: if_splits sum.splits)

lemma op_JUMP_IF_FALSE_POP_heap: "op_JUMP_IF_FALSE_POP t = Inr t' \<Longrightarrow> heap t' = heap t"
  by (auto simp: op_JUMP_IF_FALSE_POP_def prim_defs split: if_splits sum.splits)

lemma op_LOOP_IF_TRUE_heap: "op_LOOP_IF_TRUE t = Inr t' \<Longrightarrow> heap t' = heap t"
  by (auto simp: op_LOOP_IF_TRUE_def prim_defs jumpBack_def split: if_splits sum.splits)

lemma op_LOOP_heap: "op_LOOP t = Inr t' \<Longrightarrow> heap t' = heap t"
  by (auto simp: op_LOOP_def prim_defs jumpBack_def split: if_splits sum.splits)

lemma op_JUMP_POPN_heap: "op_JUMP_POPN t = Inr t' \<Longrightarrow> heap t' = heap t"
  by (auto simp: op_JUMP_POPN_def prim_defs split: if_splits sum.splits)

lemma op_SWITCH_heap: "op_SWITCH t = Inr t' \<Longrightarrow> heap t' = heap t"
  by (auto simp: op_SWITCH_def prim_defs Let_def split: if_splits sum.splits option.splits)

lemma op_SWITCH_LONG_heap: "op_SWITCH_LONG t = Inr t' \<Longrightarrow> heap t' = heap t"
  by (auto simp: op_SWITCH_LONG_def prim_defs Let_def split: if_splits sum.splits option.splits)

lemma op_GET_heap: "op_GET t = Inr t' \<Longrightarrow> heap t' = heap t"
  by (auto simp: op_GET_def prim_defs type_defs checkArrayBounds_def valueAt_def Let_def
      split: if_splits sum.splits option.splits Obj.splits)

lemma call_heap: "call clos argCount t = Inr t' \<Longrightarrow> heap t' = heap t \<and> nextFree t' = nextFree t"
  by (auto simp: call_def runtimeError_def split: if_splits option.splits Obj.splits)

lemma STORE_FRAME_heap: "STORE_FRAME t = Inr t' \<Longrightarrow> heap t' = heap t \<and> nextFree t' = nextFree t"
  by (auto simp: STORE_FRAME_def split: if_splits)

lemma LOAD_FRAME_heap: "LOAD_FRAME t = Inr t' \<Longrightarrow> heap t' = heap t \<and> nextFree t' = nextFree t"
  by (auto simp: LOAD_FRAME_def Let_def split: if_splits option.splits Obj.splits)

lemma invokeFromClass_heap:
  "invokeFromClass klass name argCount t = Inr (found, t') \<Longrightarrow> heap t' = heap t \<and> nextFree t' = nextFree t"
  by (auto simp: invokeFromClass_def andThen_def dest: call_heap
      split: if_splits option.splits Obj.splits sum.splits)

lemma op_SUPER_INVOKE_heap: "op_SUPER_INVOKE t = Inr t' \<Longrightarrow> heap t' = heap t"
  unfolding op_SUPER_INVOKE_def
  by (auto simp: prim_defs dest!: invokeFromClass_heap LOAD_FRAME_heap STORE_FRAME_heap
      split: if_splits sum.splits option.splits Obj.splits)

lemma op_SUPER_INVOKE_LONG_heap: "op_SUPER_INVOKE_LONG t = Inr t' \<Longrightarrow> heap t' = heap t"
  unfolding op_SUPER_INVOKE_LONG_def
  by (auto simp: prim_defs dest!: invokeFromClass_heap LOAD_FRAME_heap STORE_FRAME_heap
      split: if_splits sum.splits option.splits Obj.splits)

subsection \<open>Opcodes that write to objects other than structs\<close>

lemma op_SET_LOCAL_keeps:
  assumes "op_SET_LOCAL t = Inr t'" and "structFields t a = Some D"
  shows "structFields t' a = Some D"
  using assms
  by (auto simp: op_SET_LOCAL_def prim_defs type_defs structFields_def Let_def
      split: if_splits sum.splits option.splits Obj.splits)

lemma op_SET_UPVALUE_keeps:
  assumes "op_SET_UPVALUE t = Inr t'" and "structFields t a = Some D"
  shows "structFields t' a = Some D"
  using assms
  by (auto simp: op_SET_UPVALUE_def prim_defs frameUpvals_def structFields_def
      split: if_splits sum.splits option.splits Obj.splits)

lemma op_INHERIT_keeps:
  assumes "op_INHERIT t = Inr t'" and "structFields t a = Some D"
  shows "structFields t' a = Some D"
  using assms
  by (auto simp: op_INHERIT_def prim_defs type_defs structFields_def
      split: if_splits sum.splits option.splits Obj.splits)

lemma op_METHOD_keeps:
  assumes "op_METHOD t = Inr t'" and "structFields t a = Some D"
  shows "structFields t' a = Some D"
  using assms
  by (auto simp: op_METHOD_def defineMethod_def prim_defs structFields_def
      split: if_splits sum.splits option.splits Obj.splits)

subsection \<open>Opcodes that allocate\<close>

lemma op_ADD_keeps:
  assumes "op_ADD P t = Inr t'" and "structFields t a = Some D" and "a < nextFree t"
  shows "structFields t' a = Some D"
proof (cases "\<exists>x y. peek 0 t = Inr x \<and> peek 1 t = Inr y \<and> isNumber x \<and> isNumber y")
  case True
  with assms(1) have "BINARY_OP P (intArith (+)) (dblAdd P) t = Inr t'"
    by (auto simp: op_ADD_def andThen_def)
  from BINARY_OP_heap [OF this] assms(2) show ?thesis by (simp add: structFields_def)
next
  case False
  with assms show ?thesis
    by (auto simp: op_ADD_def prim_defs type_defs new_def structFields_def Let_def
        split: if_splits sum.splits option.splits Obj.splits)
qed

lemma popIntoArray_heap:
  "popIntoArray n vals k t = Inr (r, t') \<Longrightarrow> heap t' = heap t \<and> nextFree t' = nextFree t"
proof (induction n arbitrary: vals k t)
  case 0
  then show ?case by simp
next
  case (Suc n)
  from Suc.prems obtain v t1 where p: "pop t = Inr (v, t1)"
    and r: "popIntoArray n (vals[n := v]) (if isObj v then k + 1 else k) t1 = Inr (r, t')"
    by (auto simp: andThen_def split: sum.splits)
  from pop_heap [OF p] Suc.IH [OF r] show ?case by simp
qed

lemma op_CREATE_ARRAY_keeps:
  assumes "op_CREATE_ARRAY t = Inr t'" and "structFields t a = Some D" and "a < nextFree t"
  shows "structFields t' a = Some D"
proof -
  from assms(1) obtain sz t1 where rb: "READ_BYTE t = Inr (sz, t1)"
    by (auto simp: op_CREATE_ARRAY_def andThen_def split: sum.splits)
  have h1: "heap t1 = heap t" "nextFree t1 = nextFree t"
    using rb by (auto simp: READ_BYTE_def split: if_splits)
  define t2 where "t2 = t1\<lparr>heap := (heap t1)(nextFree t1 \<mapsto> ObjArray (replicate (unat sz) 0) 0),
      nextFree := nextFree t1 + 16\<rparr>"
  from assms(1) rb obtain vals n t3 where
    pa: "popIntoArray (unat sz) (replicate (unat sz) 0) 0 t2 = Inr ((vals, n), t3)"
    and pu: "push (encodeObj (nextFree t1)) (t3\<lparr>heap := (heap t3)(nextFree t1 \<mapsto> ObjArray vals n)\<rparr>) = Inr t'"
    by (auto simp: op_CREATE_ARRAY_def andThen_def new_def t2_def Let_def split: sum.splits)
  from popIntoArray_heap [OF pa] have h3: "heap t3 = heap t2" by simp
  from pu have "heap t' = (heap t3)(nextFree t1 \<mapsto> ObjArray vals n)"
    by (auto simp: push_def runtimeError_def split: if_splits)
  with h3 h1 assms(2,3) show ?thesis
    by (auto simp: structFields_def t2_def)
qed

lemma readFields_heap:
  "readFields n fs t = Inr (r, t') \<Longrightarrow> heap t' = heap t \<and> nextFree t' = nextFree t"
proof (induction n arbitrary: fs t)
  case 0
  then show ?case by simp
next
  case (Suc n)
  from Suc.prems obtain name t1 v t2 where a: "READ_STRING t = Inr (name, t1)"
    and p: "pop t1 = Inr (v, t2)" and r: "readFields n (fs(name \<mapsto> v)) t2 = Inr (r, t')"
    by (auto simp: andThen_def split: sum.splits)
  from a have "heap t1 = heap t \<and> nextFree t1 = nextFree t"
    by (auto simp: prim_defs split: if_splits sum.splits option.splits Obj.splits)
  with pop_heap [OF p] Suc.IH [OF r] show ?case by simp
qed

lemma readFieldsLong_heap:
  "readFieldsLong n fs t = Inr (r, t') \<Longrightarrow> heap t' = heap t \<and> nextFree t' = nextFree t"
proof (induction n arbitrary: fs t)
  case 0
  then show ?case by simp
next
  case (Suc n)
  from Suc.prems obtain name t1 v t2 where a: "READ_STRING_LONG t = Inr (name, t1)"
    and p: "pop t1 = Inr (v, t2)" and r: "readFieldsLong n (fs(name \<mapsto> v)) t2 = Inr (r, t')"
    by (auto simp: andThen_def split: sum.splits)
  from a have "heap t1 = heap t \<and> nextFree t1 = nextFree t"
    by (auto simp: prim_defs split: if_splits sum.splits option.splits Obj.splits)
  with pop_heap [OF p] Suc.IH [OF r] show ?case by simp
qed

lemma op_CREATE_STRUCT_keeps:
  assumes "op_CREATE_STRUCT t = Inr t'" and "structFields t a = Some D" and "a < nextFree t"
  shows "structFields t' a = Some D"
proof -
  from assms(1) obtain k t1 where rb: "READ_BYTE t = Inr (k, t1)"
    by (auto simp: op_CREATE_STRUCT_def andThen_def split: sum.splits)
  have h1: "heap t1 = heap t" "nextFree t1 = nextFree t"
    using rb by (auto simp: READ_BYTE_def split: if_splits)
  define t2 where "t2 = t1\<lparr>heap := (heap t1)(nextFree t1 \<mapsto> ObjInstance 0 Map.empty),
      nextFree := nextFree t1 + 16\<rparr>"
  from assms(1) rb obtain fs t3 where
    pa: "readFields (unat k) Map.empty t2 = Inr (fs, t3)"
    and pu: "push (encodeObj (nextFree t1)) (t3\<lparr>heap := (heap t3)(nextFree t1 \<mapsto> ObjInstance 0 fs)\<rparr>) = Inr t'"
    by (auto simp: op_CREATE_STRUCT_def andThen_def new_def t2_def Let_def split: sum.splits)
  from readFields_heap [OF pa] have h3: "heap t3 = heap t2" by simp
  from pu have "heap t' = (heap t3)(nextFree t1 \<mapsto> ObjInstance 0 fs)"
    by (auto simp: push_def runtimeError_def split: if_splits)
  with h3 h1 assms(2,3) show ?thesis
    by (auto simp: structFields_def t2_def)
qed

lemma op_CREATE_STRUCT_LONG_keeps:
  assumes "op_CREATE_STRUCT_LONG t = Inr t'" and "structFields t a = Some D" and "a < nextFree t"
  shows "structFields t' a = Some D"
proof -
  from assms(1) obtain k t1 where rb: "READ_BYTE t = Inr (k, t1)"
    by (auto simp: op_CREATE_STRUCT_LONG_def andThen_def split: sum.splits)
  have h1: "heap t1 = heap t" "nextFree t1 = nextFree t"
    using rb by (auto simp: READ_BYTE_def split: if_splits)
  define t2 where "t2 = t1\<lparr>heap := (heap t1)(nextFree t1 \<mapsto> ObjInstance 0 Map.empty),
      nextFree := nextFree t1 + 16\<rparr>"
  from assms(1) rb obtain fs t3 where
    pa: "readFieldsLong (unat k) Map.empty t2 = Inr (fs, t3)"
    and pu: "push (encodeObj (nextFree t1)) (t3\<lparr>heap := (heap t3)(nextFree t1 \<mapsto> ObjInstance 0 fs)\<rparr>) = Inr t'"
    by (auto simp: op_CREATE_STRUCT_LONG_def andThen_def new_def t2_def Let_def split: sum.splits)
  from readFieldsLong_heap [OF pa] have h3: "heap t3 = heap t2" by simp
  from pu have "heap t' = (heap t3)(nextFree t1 \<mapsto> ObjInstance 0 fs)"
    by (auto simp: push_def runtimeError_def split: if_splits)
  with h3 h1 assms(2,3) show ?thesis
    by (auto simp: structFields_def t2_def)
qed

lemma op_CLASS_keeps:
  assumes "op_CLASS t = Inr t'" and "structFields t a = Some D" and "a < nextFree t"
  shows "structFields t' a = Some D"
  using assms
  by (auto simp: op_CLASS_def prim_defs new_def structFields_def Let_def
      split: if_splits sum.splits option.splits Obj.splits)

lemma bindMethod_keeps:
  assumes "bindMethod klass name t = Inr (found, t')" and "structFields t a = Some D"
    and "a < nextFree t"
  shows "structFields t' a = Some D \<and> (\<not> found \<longrightarrow> nextFree t' = nextFree t)"
  using assms
  by (auto simp: bindMethod_def prim_defs new_def structFields_def Let_def
      split: if_splits sum.splits option.splits Obj.splits)

lemma bindMethodToPrimitive_keeps:
  assumes "bindMethodToPrimitive nativeClasses receiver name t = Inr t'"
    and "structFields t a = Some D" and "a < nextFree t"
  shows "structFields t' a = Some D"
  using assms
  by (auto simp: bindMethodToPrimitive_def findNativeMethod_def prim_defs new_def
      structFields_def Let_def
      split: if_splits sum.splits option.splits prod.splits)


lemma op_GET_PROPERTY_keeps:
  assumes "op_GET_PROPERTY nativeClasses t = Inr t'" and "structFields t a = Some D"
    and "a < nextFree t"
  shows "structFields t' a = Some D"
proof -
  from assms(1) obtain inst t1 name t2 where p: "pop t = Inr (inst, t1)"
    and rs: "READ_STRING t1 = Inr (name, t2)"
    by (auto simp: op_GET_PROPERTY_def andThen_def split: sum.splits)
  have h2: "heap t2 = heap t" "nextFree t2 = nextFree t"
    using p rs by (auto simp: prim_defs split: if_splits sum.splits option.splits Obj.splits)
  have s2: "structFields t2 a = Some D" "a < nextFree t2"
    using assms(2,3) h2 by (simp_all add: structFields_def)
  have prim: "structFields t' a = Some D"
    if "bindMethodToPrimitive nativeClasses inst name t2 = Inr t'"
    using bindMethodToPrimitive_keeps [OF that s2] .
  have push: "structFields t' a = Some D" if "push v t2 = Inr t'" for v
    using that s2 by (auto simp: push_def runtimeError_def structFields_def split: if_splits)
  have bound: "structFields t' a = Some D"
    if b: "bindMethod klass name t2 = Inr (found, t3)"
      and r: "if found then Inr t3 = Inr t' else bindMethodToPrimitive nativeClasses inst name t3 = Inr t'"
    for klass found t3
  proof (cases found)
    case True
    with bindMethod_keeps [OF b s2] r show ?thesis by simp
  next
    case False
    from bindMethod_keeps [OF b s2] False s2
    have "structFields t3 a = Some D" "a < nextFree t3" by simp_all
    with r False show ?thesis using bindMethodToPrimitive_keeps by auto
  qed
  from assms(1) p rs show ?thesis
    by (auto simp: op_GET_PROPERTY_def andThen_def intro: prim push
        elim: bound [where found = True, simplified] bound [where found = False, simplified]
        split: sum.splits option.splits Obj.splits if_splits)
qed

lemma op_GET_PROPERTY_LONG_keeps:
  assumes "op_GET_PROPERTY_LONG nativeClasses t = Inr t'" and "structFields t a = Some D"
    and "a < nextFree t"
  shows "structFields t' a = Some D"
proof -
  from assms(1) obtain inst t1 name t2 where p: "pop t = Inr (inst, t1)"
    and rs: "READ_STRING_LONG t1 = Inr (name, t2)"
    by (auto simp: op_GET_PROPERTY_LONG_def andThen_def split: sum.splits)
  have h2: "heap t2 = heap t" "nextFree t2 = nextFree t"
    using p rs by (auto simp: prim_defs split: if_splits sum.splits option.splits Obj.splits)
  have s2: "structFields t2 a = Some D" "a < nextFree t2"
    using assms(2,3) h2 by (simp_all add: structFields_def)
  have prim: "structFields t' a = Some D"
    if "bindMethodToPrimitive nativeClasses inst name t2 = Inr t'"
    using bindMethodToPrimitive_keeps [OF that s2] .
  have push: "structFields t' a = Some D" if "push v t2 = Inr t'" for v
    using that s2 by (auto simp: push_def runtimeError_def structFields_def split: if_splits)
  have bound: "structFields t' a = Some D"
    if b: "bindMethod klass name t2 = Inr (found, t3)"
      and r: "if found then Inr t3 = Inr t' else bindMethodToPrimitive nativeClasses inst name t3 = Inr t'"
    for klass found t3
  proof (cases found)
    case True
    with bindMethod_keeps [OF b s2] r show ?thesis by simp
  next
    case False
    from bindMethod_keeps [OF b s2] False s2
    have "structFields t3 a = Some D" "a < nextFree t3" by simp_all
    with r False show ?thesis using bindMethodToPrimitive_keeps by auto
  qed
  from assms(1) p rs show ?thesis
    by (auto simp: op_GET_PROPERTY_LONG_def andThen_def intro: prim push
        elim: bound [where found = True, simplified] bound [where found = False, simplified]
        split: sum.splits option.splits Obj.splits if_splits)
qed

lemma op_GET_SUPER_keeps:
  assumes "op_GET_SUPER t = Inr t'" and "structFields t a = Some D" and "a < nextFree t"
  shows "structFields t' a = Some D"
proof -
  from assms(1) obtain name t1 sup t2 found where rs: "READ_STRING t = Inr (name, t1)"
    and p: "pop t1 = Inr (sup, t2)"
    and b: "bindMethod (decodeObj sup) name t2 = Inr (found, t')"
    by (auto simp: op_GET_SUPER_def andThen_def runtimeError_def split: sum.splits if_splits)
  have h2: "heap t2 = heap t" "nextFree t2 = nextFree t"
    using p rs by (auto simp: prim_defs split: if_splits sum.splits option.splits Obj.splits)
  have s2: "structFields t2 a = Some D" "a < nextFree t2"
    using assms(2,3) h2 by (simp_all add: structFields_def)
  from bindMethod_keeps [OF b s2] show ?thesis by simp
qed

lemma op_GET_SUPER_LONG_keeps:
  assumes "op_GET_SUPER_LONG t = Inr t'" and "structFields t a = Some D" and "a < nextFree t"
  shows "structFields t' a = Some D"
proof -
  from assms(1) obtain name t1 sup t2 found where rs: "READ_STRING_LONG t = Inr (name, t1)"
    and p: "pop t1 = Inr (sup, t2)"
    and b: "bindMethod (decodeObj sup) name t2 = Inr (found, t')"
    by (auto simp: op_GET_SUPER_LONG_def andThen_def runtimeError_def split: sum.splits if_splits)
  have h2: "heap t2 = heap t" "nextFree t2 = nextFree t"
    using p rs by (auto simp: prim_defs split: if_splits sum.splits option.splits Obj.splits)
  have s2: "structFields t2 a = Some D" "a < nextFree t2"
    using assms(2,3) h2 by (simp_all add: structFields_def)
  from bindMethod_keeps [OF b s2] show ?thesis by simp
qed

subsection \<open>Calls\<close>

lemma callNative_keeps:
  assumes "nativesKeepStructs natives" and "callNative natives func argCount t = Inr t'"
    and "structFields t a = Some D"
  shows "structFields t' a = Some D"
proof -
  from assms(2) obtain r t1 where n: "natives func argCount t = Inr (r, t1)"
    and rest: "heap t' = heap t1"
    by (auto simp: callNative_def prim_defs split: sum.splits if_splits)
  from assms(1) n assms(3) have "structFields t1 a = Some D"
    by (auto simp: nativesKeepStructs_def)
  with rest show ?thesis by (simp add: structFields_def)
qed

lemma callValue_keeps:
  assumes "nativesKeepStructs natives" and "callValue natives callee argCount t = Inr t'"
    and "structFields t a = Some D" and "a < nextFree t"
  shows "structFields t' a = Some D"
proof -
  have keep1: "structFields (t\<lparr>heap := (heap t)(nextFree t \<mapsto> ob), nextFree := n, stack := s\<rparr>) a = Some D"
    for ob n s
    using assms(3,4) by (auto simp: structFields_def)
  have keep0: "structFields (t\<lparr>stack := s\<rparr>) a = Some D" for s
    using assms(3) by (simp add: structFields_def)
  have nat: "structFields t' a = Some D"
    if "callNative natives func argCount t1 = Inr t'" and "structFields t1 a = Some D" for func t1
    using callNative_keeps [OF assms(1) that] .
  have cl: "structFields t' a = Some D"
    if "call clos argCount t1 = Inr t'" and "structFields t1 a = Some D" for clos t1
    using call_heap [OF that(1)] that(2) by (simp add: structFields_def)
  from assms(2) show ?thesis
    by (auto simp: callValue_def andThen_def poke_def runtimeError_def new_def Let_def
        keep0 keep1 assms(3)
        intro: nat [OF _ keep0] nat [OF _ assms(3)] cl [OF _ keep0] cl [OF _ keep1] cl [OF _ assms(3)]
        split: if_splits option.splits Obj.splits sum.splits)
qed

lemma op_CALL_keeps:
  assumes "nativesKeepStructs natives" and "op_CALL natives t = Inr t'"
    and "structFields t a = Some D" and "a < nextFree t"
  shows "structFields t' a = Some D"
proof -
  from assms(2) obtain argCount t1 t2 callee t3 where rb: "READ_BYTE t = Inr (argCount, t1)"
    and sf: "STORE_FRAME t1 = Inr t2"
    and cv: "callValue natives callee (unat argCount) t2 = Inr t3"
    and lf: "LOAD_FRAME t3 = Inr t'"
    by (auto simp: op_CALL_def andThen_def split: sum.splits)
  have h1: "heap t1 = heap t" "nextFree t1 = nextFree t"
    using rb by (auto simp: READ_BYTE_def split: if_splits)
  with STORE_FRAME_heap [OF sf] assms(3,4)
  have s2: "structFields t2 a = Some D" "a < nextFree t2" by (simp_all add: structFields_def)
  from callValue_keeps [OF assms(1) cv s2] LOAD_FRAME_heap [OF lf]
  show ?thesis by (simp add: structFields_def)
qed

lemma invoke_keeps:
  assumes "nativesKeepStructs natives"
    and "invoke natives nativeClasses name argCount t = Inr t'"
    and "structFields t a = Some D" and "a < nextFree t"
  shows "structFields t' a = Some D"
proof -
  have keep0: "structFields (t\<lparr>stack := s\<rparr>) a = Some D" "a < nextFree (t\<lparr>stack := s\<rparr>)" for s
    using assms(3,4) by (simp_all add: structFields_def)
  have cv: "structFields t' a = Some D"
    if "callValue natives v argCount (t\<lparr>stack := s\<rparr>) = Inr t'" for v s
    using callValue_keeps [OF assms(1) that keep0] .
  have nat: "structFields t' a = Some D"
    if "invokeNative natives nativeClasses receiver name argCount t1 = Inr t'"
      and "heap t1 = heap t" for receiver t1
  proof -
    from that(1) obtain func where "callNative natives func argCount t1 = Inr t'"
      by (auto simp: invokeNative_def andThen_def runtimeError_def split: sum.splits if_splits)
    moreover from that(2) assms(3) have "structFields t1 a = Some D" by (simp add: structFields_def)
    ultimately show ?thesis using callNative_keeps [OF assms(1)] by blast
  qed
  have cls: "structFields t' a = Some D"
    if i: "invokeFromClass klass name argCount t = Inr (found, t1)"
      and r: "if found then Inr t1 = Inr t' else invokeNative natives nativeClasses receiver name argCount t1 = Inr t'"
    for klass found t1 receiver
  proof (cases found)
    case True
    with invokeFromClass_heap [OF i] r assms(3) show ?thesis by (simp add: structFields_def)
  next
    case False
    with r invokeFromClass_heap [OF i] show ?thesis using nat by auto
  qed
  from assms(2) show ?thesis
    by (auto simp: invoke_def andThen_def peek_def poke_def
        intro: cv nat
        elim: cls [where found = True, simplified] cls [where found = False, simplified]
        split: sum.splits option.splits Obj.splits if_splits)
qed

lemma op_INVOKE_keeps:
  assumes "nativesKeepStructs natives" and "op_INVOKE natives nativeClasses t = Inr t'"
    and "structFields t a = Some D" and "a < nextFree t"
  shows "structFields t' a = Some D"
proof -
  from assms(2) obtain argCount t1 name t2 t3 t4 where rb: "READ_BYTE t = Inr (argCount, t1)"
    and rs: "READ_STRING t1 = Inr (name, t2)"
    and sf: "STORE_FRAME t2 = Inr t3"
    and iv: "invoke natives nativeClasses name (unat argCount) t3 = Inr t4"
    and lf: "LOAD_FRAME t4 = Inr t'"
    by (auto simp: op_INVOKE_def andThen_def split: sum.splits)
  have h2: "heap t2 = heap t" "nextFree t2 = nextFree t"
    using rb rs by (auto simp: prim_defs split: if_splits sum.splits option.splits Obj.splits)
  with STORE_FRAME_heap [OF sf] assms(3,4)
  have s3: "structFields t3 a = Some D" "a < nextFree t3" by (simp_all add: structFields_def)
  from invoke_keeps [OF assms(1) iv s3] LOAD_FRAME_heap [OF lf]
  show ?thesis by (simp add: structFields_def)
qed

lemma op_INVOKE_LONG_keeps:
  assumes "nativesKeepStructs natives" and "op_INVOKE_LONG natives nativeClasses t = Inr t'"
    and "structFields t a = Some D" and "a < nextFree t"
  shows "structFields t' a = Some D"
proof -
  from assms(2) obtain argCount t1 name t2 t3 t4 where rb: "READ_BYTE t = Inr (argCount, t1)"
    and rs: "READ_STRING_LONG t1 = Inr (name, t2)"
    and sf: "STORE_FRAME t2 = Inr t3"
    and iv: "invoke natives nativeClasses name (unat argCount) t3 = Inr t4"
    and lf: "LOAD_FRAME t4 = Inr t'"
    by (auto simp: op_INVOKE_LONG_def andThen_def split: sum.splits)
  have h2: "heap t2 = heap t" "nextFree t2 = nextFree t"
    using rb rs by (auto simp: prim_defs split: if_splits sum.splits option.splits Obj.splits)
  with STORE_FRAME_heap [OF sf] assms(3,4)
  have s3: "structFields t3 a = Some D" "a < nextFree t3" by (simp_all add: structFields_def)
  from invoke_keeps [OF assms(1) iv s3] LOAD_FRAME_heap [OF lf]
  show ?thesis by (simp add: structFields_def)
qed

subsection \<open>Closures\<close>

text \<open>
  The loop over the upvalue slots allocates at most one cell for every two bytes of code
  it reads, so the allocation pointer cannot pass the end of the address space as long
  as there is room for eight bytes of heap for every byte of code ahead.
\<close>

lemma fillUpvals_keeps:
  assumes "fillUpvals k acc t = Inr (ups, t')"
    and "structFields t a = Some D" and "a < nextFree t"
    and "unat (nextFree t) + 8 * (length (bytecode (code t)) - pc t) < 2 ^ 64"
  shows "structFields t' a = Some D \<and> a < nextFree t'"
  using assms
proof (induction k arbitrary: acc t)
  case 0
  then show ?case by simp
next
  case (Suc k)
  from Suc.prems(1) obtain isLocal t1 index t2 where r1: "READ_BYTE t = Inr (isLocal, t1)"
    and r2: "READ_BYTE t1 = Inr (index, t2)"
    by (auto simp: andThen_def split: sum.splits)
  from r1 r2 have t2: "t2 = t\<lparr>pc := pc t + 2\<rparr>" and room: "pc t + 2 \<le> length (bytecode (code t))"
    by (auto simp: READ_BYTE_def split: if_splits)
  show ?case
  proof (cases "isLocal \<noteq> 0")
    case False
    with Suc.prems(1) r1 r2 obtain ups0 where
      rec: "fillUpvals k (acc @ [ups0 ! unat index]) t2 = Inr (ups, t')"
      by (auto simp: andThen_def split: sum.splits if_splits)
    have "structFields t2 a = Some D" "a < nextFree t2"
      "unat (nextFree t2) + 8 * (length (bytecode (code t2)) - pc t2) < 2 ^ 64"
      using Suc.prems(2,3,4) by (simp_all add: t2 structFields_def)
    from Suc.IH [OF rec this] show ?thesis .
  next
    case True
    define local where "local = slotStart t2 + unat index"
    define t3 where "t3 = t2\<lparr>heap := (heap t2)(nextFree t2 \<mapsto> ObjUpval (stack t2 ! local)),
        nextFree := nextFree t2 + 16, stack := (stack t2)[local := encodeObj (nextFree t2)]\<rparr>"
    from True Suc.prems(1) r1 r2 have
      rec: "fillUpvals k (acc @ [nextFree t2]) t3 = Inr (ups, t')"
      by (auto simp: andThen_def captureUpvalue_def new_def Let_def t3_def local_def
          split: sum.splits if_splits)
    have no_wrap: "unat (nextFree t) + 16 < 2 ^ 64"
      using Suc.prems(4) room by linarith
    from bump [OF Suc.prems(3) no_wrap]
    have b: "a < nextFree t + 16" "unat (nextFree t + 16) = unat (nextFree t) + 16" by simp_all
    have s3: "structFields t3 a = Some D"
      using Suc.prems(2,3) by (auto simp: t3_def t2 structFields_def)
    have l3: "a < nextFree t3" using b(1) by (simp add: t3_def t2)
    have m3: "unat (nextFree t3) + 8 * (length (bytecode (code t3)) - pc t3) < 2 ^ 64"
      using Suc.prems(4) room b(2) by (simp add: t3_def t2)
    from Suc.IH [OF rec s3 l3 m3] show ?thesis .
  qed
qed

lemma op_CLOSURE_keeps:
  assumes "op_CLOSURE t = Inr t'" and "structFields t a = Some D" and "a < nextFree t"
    and "nextFree t < 2 ^ 48" and "length (bytecode (code t)) < 2 ^ 32"
  shows "structFields t' a = Some D"
proof -
  from assms(1) obtain fv t1 where rc: "READ_CONSTANT t = Inr (fv, t1)"
    by (auto simp: op_CLOSURE_def andThen_def split: sum.splits)
  then have t1: "t1 = t\<lparr>pc := pc t + 1\<rparr>"
    by (auto simp: prim_defs split: if_splits sum.splits)
  from assms(1) rc obtain arity upvalueCount off coff name where
    f: "heap t1 (decodeObj fv) = Some (ObjFunc arity upvalueCount off coff name)"
    by (auto simp: op_CLOSURE_def andThen_def split: option.splits Obj.splits)
  define t2 where "t2 = t1\<lparr>heap := (heap t1)(nextFree t1 \<mapsto> ObjClosure (decodeObj fv) (replicate upvalueCount 0)),
      nextFree := nextFree t1 + 16\<rparr>"
  from assms(1) rc f obtain ups t3 where
    fu: "fillUpvals upvalueCount [] t2 = Inr (ups, t3)"
    and pu: "push (encodeObj (nextFree t1))
               (t3\<lparr>heap := (heap t3)(nextFree t1 \<mapsto> ObjClosure (decodeObj fv) ups)\<rparr>) = Inr t'"
    by (auto simp: op_CLOSURE_def andThen_def new_def Let_def t2_def split: sum.splits)
  have u48: "unat (nextFree t) < 2 ^ 48" using assms(4) by (rule below_48)
  then have no_wrap: "unat (nextFree t) + 16 < 2 ^ 64" by simp
  from bump [OF assms(3) no_wrap]
  have b: "a < nextFree t + 16" "unat (nextFree t + 16) = unat (nextFree t) + 16" by simp_all
  have s2: "structFields t2 a = Some D"
    using assms(2,3) by (auto simp: t2_def t1 structFields_def)
  have l2: "a < nextFree t2" using b(1) by (simp add: t2_def t1)
  have "8 * (length (bytecode (code t)) - (pc t + 1)) < 8 * 2 ^ 32"
    using assms(5) by simp
  then have m2: "unat (nextFree t2) + 8 * (length (bytecode (code t2)) - pc t2) < 2 ^ 64"
    using u48 b(2) by (simp add: t2_def t1)
  from fillUpvals_keeps [OF fu s2 l2 m2] have s3: "structFields t3 a = Some D" by simp
  from pu have "heap t' = (heap t3)(nextFree t1 \<mapsto> ObjClosure (decodeObj fv) ups)"
    by (auto simp: push_def runtimeError_def split: if_splits)
  with s3 assms(3) show ?thesis by (auto simp: structFields_def t1)
qed

lemma op_CLOSURE_LONG_keeps:
  assumes "op_CLOSURE_LONG t = Inr t'" and "structFields t a = Some D" and "a < nextFree t"
    and "nextFree t < 2 ^ 48" and "length (bytecode (code t)) < 2 ^ 32"
  shows "structFields t' a = Some D"
proof -
  from assms(1) obtain fv t1 where rc: "READ_CONSTANT_LONG t = Inr (fv, t1)"
    by (auto simp: op_CLOSURE_LONG_def andThen_def split: sum.splits)
  then have t1: "t1 = t\<lparr>pc := pc t + 2\<rparr>"
    by (auto simp: prim_defs split: if_splits sum.splits)
  from assms(1) rc obtain arity upvalueCount off coff name where
    f: "heap t1 (decodeObj fv) = Some (ObjFunc arity upvalueCount off coff name)"
    by (auto simp: op_CLOSURE_LONG_def andThen_def split: option.splits Obj.splits)
  define t2 where "t2 = t1\<lparr>heap := (heap t1)(nextFree t1 \<mapsto> ObjClosure (decodeObj fv) (replicate upvalueCount 0)),
      nextFree := nextFree t1 + 16\<rparr>"
  from assms(1) rc f obtain ups t3 where
    fu: "fillUpvals upvalueCount [] t2 = Inr (ups, t3)"
    and pu: "push (encodeObj (nextFree t1))
               (t3\<lparr>heap := (heap t3)(nextFree t1 \<mapsto> ObjClosure (decodeObj fv) ups)\<rparr>) = Inr t'"
    by (auto simp: op_CLOSURE_LONG_def andThen_def new_def Let_def t2_def split: sum.splits)
  have u48: "unat (nextFree t) < 2 ^ 48" using assms(4) by (rule below_48)
  then have no_wrap: "unat (nextFree t) + 16 < 2 ^ 64" by simp
  from bump [OF assms(3) no_wrap]
  have b: "a < nextFree t + 16" "unat (nextFree t + 16) = unat (nextFree t) + 16" by simp_all
  have s2: "structFields t2 a = Some D"
    using assms(2,3) by (auto simp: t2_def t1 structFields_def)
  have l2: "a < nextFree t2" using b(1) by (simp add: t2_def t1)
  have "8 * (length (bytecode (code t)) - (pc t + 2)) < 8 * 2 ^ 32"
    using assms(5) by simp
  then have m2: "unat (nextFree t2) + 8 * (length (bytecode (code t2)) - pc t2) < 2 ^ 64"
    using u48 b(2) by (simp add: t2_def t1)
  from fillUpvals_keeps [OF fu s2 l2 m2] have s3: "structFields t3 a = Some D" by simp
  from pu have "heap t' = (heap t3)(nextFree t1 \<mapsto> ObjClosure (decodeObj fv) ups)"
    by (auto simp: push_def runtimeError_def split: if_splits)
  with s3 assms(3) show ?thesis by (auto simp: structFields_def t1)
qed

subsection \<open>The opcodes that assign to a field\<close>

lemma insert_field:
  assumes "heap t p = Some (ObjInstance klass fs)"
    and "heap t' = (heap t)(p \<mapsto> ObjInstance klass (fs(name \<mapsto> val)))"
    and "structFields t a = Some D"
  shows "structFields t' a = Some D \<or> structFields t' a = Some (insert name D)"
proof (cases "a = p")
  case True
  with assms have "structFields t' a = Some (insert name D)"
    by (auto simp: structFields_def split: if_splits)
  then show ?thesis by blast
next
  case False
  with assms show ?thesis by (simp add: structFields_def)
qed

lemma op_SET_grows:
  assumes "op_SET t = Inr t'" and "structFields t a = Some D"
  shows "structFields t' a = Some D
         \<or> (\<exists>name. keyOnTop t = Some name \<and> structFields t' a = Some (insert name D))"
proof -
  from assms(1) obtain field t1 callee t2 val where p1: "pop t = Inr (field, t1)"
    and p2: "pop t1 = Inr (callee, t2)" and pk: "peek 0 t2 = Inr val"
    by (auto simp: op_SET_def andThen_def split: sum.splits)
  have h2: "heap t2 = heap t" using p1 p2 by (auto simp: pop_def split: if_splits)
  have top: "peek 0 t = Inr field" using p1 by (auto simp: pop_def peek_def last_conv_nth split: if_splits)
  from assms(1) p1 p2 pk consider
    (arr) vals n vals1 n1 where "heap t2 (decodeObj callee) = Some (ObjArray vals n)"
      "heap t' = (heap t2)(decodeObj callee \<mapsto> ObjArray vals1 n1)"
    | (ins) fs name where "heap t2 (decodeObj callee) = Some (ObjInstance 0 fs)"
      "strOf (heap t2) field = Inr name"
      "heap t' = (heap t2)(decodeObj callee \<mapsto> ObjInstance 0 (fs(name \<mapsto> val)))"
    by (auto simp: op_SET_def andThen_def type_defs runtimeError_def Let_def
        split: sum.splits if_splits option.splits Obj.splits)
  then show ?thesis
  proof cases
    case arr
    with assms(2) h2 show ?thesis by (auto simp: structFields_def)
  next
    case ins
    from ins(2) h2 top have key: "keyOnTop t = Some name" by (simp add: keyOnTop_def)
    from ins(1) h2 have "heap t (decodeObj callee) = Some (ObjInstance 0 fs)" by simp
    moreover from ins(3) h2 have
      "heap t' = (heap t)(decodeObj callee \<mapsto> ObjInstance 0 (fs(name \<mapsto> val)))" by simp
    ultimately have "structFields t' a = Some D \<or> structFields t' a = Some (insert name D)"
      using assms(2) by (rule insert_field)
    with key show ?thesis by blast
  qed
qed

lemma op_SET_PROPERTY_grows:
  assumes "op_SET_PROPERTY t = Inr t'" and "structFields t a = Some D"
  shows "structFields t' a = Some D
         \<or> (\<exists>name. stringOperand t = Some name \<and> structFields t' a = Some (insert name D))"
proof -
  from assms(1) obtain inst t1 klass fs name t2 val where p: "pop t = Inr (inst, t1)"
    and h: "heap t1 (decodeObj inst) = Some (ObjInstance klass fs)"
    and rs: "READ_STRING t1 = Inr (name, t2)"
    and r: "t' = t2\<lparr>heap := (heap t2)(decodeObj inst \<mapsto> ObjInstance klass (fs(name \<mapsto> val)))\<rparr>"
    by (auto simp: op_SET_PROPERTY_def andThen_def runtimeError_def
        split: sum.splits if_splits option.splits Obj.splits)
  have h2: "heap t1 = heap t" "heap t2 = heap t"
    using p rs by (auto simp: prim_defs split: if_splits sum.splits option.splits Obj.splits)
  from p have "t1 = t\<lparr>stack := butlast (stack t)\<rparr>" by (auto simp: pop_def split: if_splits)
  with rs have key: "stringOperand t = Some name"
    by (auto simp: stringOperand_def prim_defs split: if_splits sum.splits option.splits Obj.splits)
  from h h2 have "heap t (decodeObj inst) = Some (ObjInstance klass fs)" by simp
  moreover from r h2 have
    "heap t' = (heap t)(decodeObj inst \<mapsto> ObjInstance klass (fs(name \<mapsto> val)))" by simp
  ultimately have "structFields t' a = Some D \<or> structFields t' a = Some (insert name D)"
    using assms(2) by (rule insert_field)
  with key show ?thesis by blast
qed

lemma op_SET_PROPERTY_LONG_grows:
  assumes "op_SET_PROPERTY_LONG t = Inr t'" and "structFields t a = Some D"
  shows "structFields t' a = Some D
         \<or> (\<exists>name. stringOperandLong t = Some name \<and> structFields t' a = Some (insert name D))"
proof -
  from assms(1) obtain inst t1 klass fs name t2 val where p: "pop t = Inr (inst, t1)"
    and h: "heap t1 (decodeObj inst) = Some (ObjInstance klass fs)"
    and rs: "READ_STRING_LONG t1 = Inr (name, t2)"
    and r: "t' = t2\<lparr>heap := (heap t2)(decodeObj inst \<mapsto> ObjInstance klass (fs(name \<mapsto> val)))\<rparr>"
    by (auto simp: op_SET_PROPERTY_LONG_def andThen_def runtimeError_def
        split: sum.splits if_splits option.splits Obj.splits)
  have h2: "heap t1 = heap t" "heap t2 = heap t"
    using p rs by (auto simp: prim_defs split: if_splits sum.splits option.splits Obj.splits)
  from p have "t1 = t\<lparr>stack := butlast (stack t)\<rparr>" by (auto simp: pop_def split: if_splits)
  with rs have key: "stringOperandLong t = Some name"
    by (auto simp: stringOperandLong_def prim_defs split: if_splits sum.splits option.splits Obj.splits)
  from h h2 have "heap t (decodeObj inst) = Some (ObjInstance klass fs)" by simp
  moreover from r h2 have
    "heap t' = (heap t)(decodeObj inst \<mapsto> ObjInstance klass (fs(name \<mapsto> val)))" by simp
  ultimately have "structFields t' a = Some D \<or> structFields t' a = Some (insert name D)"
    using assms(2) by (rule insert_field)
  with key show ?thesis by blast
qed

subsection \<open>Opcodes on the state of the loop\<close>

lemma andThen_Inr: "andThen (Inr x) f = f x"
  by (simp add: andThen_def)

lemma structFields_upd [simp]:
  "structFields (t\<lparr>pc := p\<rparr>) a = structFields t a"
  "structFields (t\<lparr>stack := s\<rparr>) a = structFields t a"
  by (simp_all add: structFields_def)

lemma tryIncrement_heap:
  "tryIncrement P isPrefix sign val t = Inr (v, t') \<Longrightarrow> heap t' = heap t"
  by (auto simp: tryIncrement_def prim_defs split: if_splits sum.splits)

lemma incrementField_keeps:
  assumes "incrementField P isPrefix sign inst name t = Inr t'"
  shows "\<forall>a D. structFields t a = Some D \<longrightarrow> structFields t' a = Some D"
proof -
  from assms(1) obtain klass fs num num1 t1 where
    h: "heap t (decodeObj inst) = Some (ObjInstance klass fs)" and f: "fs name = Some num"
    and ti: "tryIncrement P isPrefix sign num t = Inr (num1, t1)"
    and r: "t' = t1\<lparr>heap := (heap t1)(decodeObj inst \<mapsto> ObjInstance klass (fs(name \<mapsto> num1)))\<rparr>"
    by (auto simp: incrementField_def andThen_def runtimeError_def
        split: option.splits Obj.splits sum.splits)
  from f have "insert name (dom fs) = dom fs" by auto
  with tryIncrement_heap [OF ti] h r show ?thesis
    by (auto simp: structFields_def split: if_splits)
qed

lemma incrementUpvalue_keeps:
  assumes "incrementUpvalue P isPrefix sign up t = Inr t'"
  shows "\<forall>a D. structFields t a = Some D \<longrightarrow> structFields t' a = Some D"
proof -
  from assms(1) obtain v v1 t1 where h: "heap t up = Some (ObjUpval v)"
    and ti: "tryIncrement P isPrefix sign v t = Inr (v1, t1)"
    and r: "t' = t1\<lparr>heap := (heap t1)(up \<mapsto> ObjUpval v1)\<rparr>"
    by (auto simp: incrementUpvalue_def andThen_def split: option.splits Obj.splits sum.splits)
  with tryIncrement_heap [OF ti] show ?thesis
    by (auto simp: structFields_def split: if_splits)
qed

lemma incrementGlobal_keeps:
  assumes "incrementGlobal P isPrefix sign index vm = Inr vm'"
  shows "heap (thread vm') = heap (thread vm)"
  using assms
  by (auto simp: incrementGlobal_def andThen_def globalAt_def setGlobal_def
      dest!: tryIncrement_heap split: if_splits sum.splits)

lemma vm_INCREMENT_keeps:
  assumes "vm_INCREMENT P vm = Inr vm'" and "structFields (thread vm) a = Some D"
  shows "structFields (thread vm') a = Some D"
proof -
  from assms(1) obtain arg t1 where rb: "READ_BYTE (thread vm) = Inr (arg, t1)"
    by (auto simp: vm_INCREMENT_def andThen_def split: sum.splits)
  then have t1: "t1 = (thread vm)\<lparr>pc := pc (thread vm) + 1\<rparr>"
    by (auto simp: READ_BYTE_def split: if_splits)
  define type where "type = drop_bit 2 arg"
  have s1: "structFields t1 a = Some D" using assms(2) by (simp add: t1)
  have of_heap: "structFields t2 a = Some D" if "heap t2 = heap t1" for t2
    using that s1 by (simp add: structFields_def)
  have fld: "structFields (thread vm') a = Some D"
    if "onThread (incrementField P isPrefix sign inst name) (vm\<lparr>thread := t2\<rparr>) = Inr vm'"
      and "heap t2 = heap t1" for isPrefix sign inst name t2
    using that(1) of_heap [OF that(2)]
    by (auto simp: onThread_def andThen_def dest!: incrementField_keeps split: sum.splits)
  have upv: "structFields (thread vm') a = Some D"
    if "onThread (incrementUpvalue P isPrefix sign up) (vm\<lparr>thread := t2\<rparr>) = Inr vm'"
      and "heap t2 = heap t1" for isPrefix sign up t2
    using that(1) of_heap [OF that(2)]
    by (auto simp: onThread_def andThen_def dest!: incrementUpvalue_keeps split: sum.splits)
  have glb: "structFields (thread vm') a = Some D"
    if "incrementGlobal P isPrefix sign index (vm\<lparr>thread := t2\<rparr>) = Inr vm'"
      and "heap t2 = heap t1" for isPrefix sign index t2
    using incrementGlobal_keeps [OF that(1)] that(2) s1 by (simp add: structFields_def)
  note unfold = vm_INCREMENT_def Let_def type_def andThen_def
  note body = assms(1) rb
  consider "type = 0" | "type = 1" | "type = 2" | "type = 3" | "type = 4" | "type = 5" | "type = 6"
    | "type \<notin> {0, 1, 2, 3, 4, 5, 6}" by auto
  then show ?thesis
  proof cases
    case 1
    with body obtain slot t2 where r: "READ_BYTE t1 = Inr (slot, t2)"
      and ok: "slotStart t2 + unat slot < length (stack t2)"
      by (auto simp: unfold split: sum.splits if_splits)
    from r have h2: "heap t2 = heap t1" by (auto simp: READ_BYTE_def split: if_splits)
    from body 1 r ok consider
      (up) isPrefix sign where
        "onThread (incrementUpvalue P isPrefix sign (decodeObj (stack t2 ! (slotStart t2 + unat slot))))
              (vm\<lparr>thread := t2\<rparr>) = Inr vm'"
      | (st) isPrefix sign num1 t3 s where
        "tryIncrement P isPrefix sign (stack t2 ! (slotStart t2 + unat slot)) t2 = Inr (num1, t3)"
        "thread vm' = t3\<lparr>stack := s\<rparr>"
      by (auto simp: unfold split: sum.splits if_splits)
    then show ?thesis
    proof cases
      case up
      then show ?thesis using h2 by (rule upv)
    next
      case st
      from tryIncrement_heap [OF st(1)] h2 have "heap t3 = heap t1" by simp
      from of_heap [OF this] st(2) show ?thesis by simp
    qed
  next
    case 2
    with body obtain slot t2 ups isPrefix sign where r: "READ_BYTE t1 = Inr (slot, t2)"
      and u: "onThread (incrementUpvalue P isPrefix sign (ups ! unat slot)) (vm\<lparr>thread := t2\<rparr>) = Inr vm'"
      by (auto simp: unfold split: sum.splits if_splits)
    from r have h2: "heap t2 = heap t1" by (auto simp: READ_BYTE_def split: if_splits)
    from u h2 show ?thesis by (rule upv)
  next
    case 3
    with body obtain index t2 isPrefix sign where r: "READ_BYTE t1 = Inr (index, t2)"
      and u: "incrementGlobal P isPrefix sign (unat index) (vm\<lparr>thread := t2\<rparr>) = Inr vm'"
      by (auto simp: unfold split: sum.splits if_splits)
    from r have h2: "heap t2 = heap t1" by (auto simp: READ_BYTE_def split: if_splits)
    from u h2 show ?thesis by (rule glb)
  next
    case 4
    with body obtain index t2 isPrefix sign where r: "READ_SHORT t1 = Inr (index, t2)"
      and u: "incrementGlobal P isPrefix sign (unat (ucast index :: 8 word)) (vm\<lparr>thread := t2\<rparr>) = Inr vm'"
      by (auto simp: unfold split: sum.splits if_splits)
    from r have h2: "heap t2 = heap t1" by (auto simp: READ_SHORT_def split: if_splits)
    from u h2 show ?thesis by (rule glb)
  next
    case 5
    with body obtain inst t2 name t3 isPrefix sign where r: "pop t1 = Inr (inst, t2)"
      and rs: "READ_STRING t2 = Inr (name, t3)"
      and u: "onThread (incrementField P isPrefix sign inst name) (vm\<lparr>thread := t3\<rparr>) = Inr vm'"
      by (auto simp: unfold runtimeError_def split: sum.splits if_splits)
    from r rs have h3: "heap t3 = heap t1"
      by (auto simp: prim_defs split: if_splits sum.splits option.splits Obj.splits)
    from u h3 show ?thesis by (rule fld)
  next
    case 6
    with body obtain inst t2 name t3 isPrefix sign where r: "pop t1 = Inr (inst, t2)"
      and rs: "READ_STRING_LONG t2 = Inr (name, t3)"
      and u: "onThread (incrementField P isPrefix sign inst name) (vm\<lparr>thread := t3\<rparr>) = Inr vm'"
      by (auto simp: unfold runtimeError_def split: sum.splits if_splits)
    from r rs have h3: "heap t3 = heap t1"
      by (auto simp: prim_defs split: if_splits sum.splits option.splits Obj.splits)
    from u h3 show ?thesis by (rule fld)
  next
    case 7
    with body obtain field t2 callee t3 where r: "pop t1 = Inr (field, t2)"
      and r2: "pop t2 = Inr (callee, t3)"
      by (auto simp: unfold split: sum.splits if_splits)
    from r r2 have h3: "heap t3 = heap t1"
      by (auto simp: prim_defs split: if_splits)
    show ?thesis
    proof (cases "isArray (heap t3) callee = Inr True")
      case True
      from s1 h3 obtain fs where hs: "heap t3 a = Some (ObjInstance 0 fs)" "dom fs = D"
        by (auto simp: structFields_Some)
      from body 7 r r2 True hs show ?thesis
        by (auto simp: unfold runtimeError_def structFields_def dest!: tryIncrement_heap
            split: sum.splits if_splits option.splits Obj.splits)
    next
      case False
      with body 7 r r2 obtain name isPrefix sign where
        "onThread (incrementField P isPrefix sign callee name) (vm\<lparr>thread := t3\<rparr>) = Inr vm'"
        by (auto simp: unfold runtimeError_def split: sum.splits if_splits)
      from this h3 show ?thesis by (rule fld)
    qed
  next
    case 8
    with body show ?thesis by (auto simp: unfold runtimeError_def)
  qed
qed

lemma vm_GET_NATIVE_heap: "vm_GET_NATIVE vm = Inr vm' \<Longrightarrow> heap (thread vm') = heap (thread vm)"
  by (auto simp: vm_GET_NATIVE_def prim_defs split: if_splits sum.splits)

lemma vm_DEFINE_GLOBAL_heap: "vm_DEFINE_GLOBAL vm = Inr vm' \<Longrightarrow> heap (thread vm') = heap (thread vm)"
  by (auto simp: vm_DEFINE_GLOBAL_def prim_defs setGlobal_def split: if_splits sum.splits)

lemma vm_DEFINE_GLOBAL_LONG_heap:
  "vm_DEFINE_GLOBAL_LONG vm = Inr vm' \<Longrightarrow> heap (thread vm') = heap (thread vm)"
  by (auto simp: vm_DEFINE_GLOBAL_LONG_def prim_defs setGlobal_def split: if_splits sum.splits)

lemma vm_GET_GLOBAL_heap: "vm_GET_GLOBAL vm = Inr vm' \<Longrightarrow> heap (thread vm') = heap (thread vm)"
  by (auto simp: vm_GET_GLOBAL_def prim_defs globalAt_def split: if_splits sum.splits)

lemma vm_GET_GLOBAL_LONG_heap:
  "vm_GET_GLOBAL_LONG vm = Inr vm' \<Longrightarrow> heap (thread vm') = heap (thread vm)"
  by (auto simp: vm_GET_GLOBAL_LONG_def prim_defs globalAt_def split: if_splits sum.splits)

lemma vm_SET_GLOBAL_heap: "vm_SET_GLOBAL vm = Inr vm' \<Longrightarrow> heap (thread vm') = heap (thread vm)"
  by (auto simp: vm_SET_GLOBAL_def prim_defs globalAt_def setGlobal_def split: if_splits sum.splits)

lemma vm_SET_GLOBAL_LONG_heap:
  "vm_SET_GLOBAL_LONG vm = Inr vm' \<Longrightarrow> heap (thread vm') = heap (thread vm)"
  by (auto simp: vm_SET_GLOBAL_LONG_def prim_defs globalAt_def setGlobal_def
      split: if_splits sum.splits)

subsection \<open>Futures\<close>

lemma finish_keeps:
  assumes "structFields (thread vm) a = Some D"
  shows "structFields (thread (finish vm)) a = Some D"
  using assms
  by (auto simp: finish_def structFields_def split: option.splits Obj.splits)

lemma deleteThread_keeps:
  assumes "deleteThread f vm = Inr vm'" and "structFields (thread vm) a = Some D"
  shows "structFields (thread vm') a = Some D"
  using assms
  by (auto simp: deleteThread_def structFields_def split: if_splits option.splits Obj.splits)

lemma op_RETURN_heap: "op_RETURN t = Inr t' \<Longrightarrow> heap t' = heap t"
  by (auto simp: op_RETURN_def prim_defs Let_def dest!: LOAD_FRAME_heap
      split: if_splits sum.splits)

lemma vm_RETURN_keeps:
  assumes "vm_RETURN vm = Inr vm'" and "structFields (thread vm) a = Some D"
  shows "structFields (thread vm') a = Some D"
proof -
  from assms(1) obtain result t1 where pk: "peek 0 (thread vm) = Inr result"
    and rt: "op_RETURN (thread vm) = Inr t1"
    by (auto simp: vm_RETURN_def andThen_def split: sum.splits)
  from op_RETURN_heap [OF rt] assms(2) have s1: "structFields t1 a = Some D"
    by (simp add: structFields_def)
  show ?thesis
  proof (cases "frames t1 = [] \<and> fut vm \<noteq> 0")
    case False
    with assms(1) pk rt s1 show ?thesis by (auto simp: vm_RETURN_def andThen_def)
  next
    case True
    with assms(1) pk rt obtain thr v ready vm1 where
      h: "heap t1 (fut vm) = Some (ObjFuture thr v ready)"
      and d: "deleteThread (fut vm)
                (vm\<lparr>thread := t1\<lparr>heap := (heap t1)(fut vm \<mapsto> ObjFuture thr result ready)\<rparr>\<rparr>) = Inr vm1"
      and r: "vm' = finish vm1"
      by (auto simp: vm_RETURN_def andThen_def split: sum.splits option.splits Obj.splits)
    from h s1 have
      "structFields (thread (vm\<lparr>thread := t1\<lparr>heap := (heap t1)(fut vm \<mapsto> ObjFuture thr result ready)\<rparr>\<rparr>)) a
         = Some D"
      by (auto simp: structFields_def)
    from deleteThread_keeps [OF d this] r show ?thesis by (simp add: finish_keeps)
  qed
qed

lemma vm_AWAIT_keeps:
  assumes "vm_AWAIT vm = Inr vm'" and "structFields (thread vm) a = Some D"
  shows "structFields (thread vm') a = Some D"
proof -
  from assms(1) obtain val t1 v vm1 where p: "pop (thread vm) = Inr (val, t1)"
    and d: "deleteThread (decodeObj val) (vm\<lparr>thread := t1\<rparr>) = Inr vm1"
    and pu: "onThread (push v) vm1 = Inr vm'"
    by (auto simp: vm_AWAIT_def andThen_def runtimeError_def
        split: sum.splits if_splits option.splits Obj.splits)
  from pop_heap [OF p] assms(2) have "structFields (thread (vm\<lparr>thread := t1\<rparr>)) a = Some D"
    by (simp add: structFields_def)
  from deleteThread_keeps [OF d this] pu show ?thesis
    by (auto simp: onThread_def andThen_def push_def runtimeError_def split: sum.splits if_splits)
qed

lemma vm_LAUNCH_ASYNC_keeps:
  assumes "nativesKeepStructs (nativeStubs P)" and "vm_LAUNCH_ASYNC P vm = Inr vm'"
    and "structFields (thread vm) a = Some D" and "a < nextFree (thread vm)"
    and "nextFree (thread vm) < 2 ^ 48"
  shows "structFields (thread vm') a = Some D"
proof -
  from assms(2) obtain argCount t1 where rb: "READ_BYTE (thread vm) = Inr (argCount, t1)"
    by (auto simp: vm_LAUNCH_ASYNC_def andThen_def split: sum.splits)
  then have t1: "t1 = (thread vm)\<lparr>pc := pc (thread vm) + 1\<rparr>"
    by (auto simp: READ_BYTE_def split: if_splits)
  define newFut where "newFut = nextFree t1"
  define t2 where "t2 = t1\<lparr>heap := (heap t1)(newFut \<mapsto> ObjFuture (Some (threadCount vm)) (unsettled P) False),
      nextFree := nextFree t1 + 16\<rparr>"
  define num where "num = unat argCount + 1"
  from assms(2) rb obtain child1 callee args child2 t3 t4 where
    c1: "push (encodeObj newFut) (t2\<lparr>stack := [], frames := []\<rparr>) = Inr child1"
    and cv: "callValue (nativeStubs P) callee (num - 1) (child1\<lparr>stack := stack child1 @ args\<rparr>) = Inr child2"
    and pn: "popn num (t2\<lparr>heap := heap child2, nextFree := nextFree child2\<rparr>) = Inr t3"
    and pu: "push (encodeObj newFut) t3 = Inr t4"
    and r: "thread vm' = t4"
    by (auto simp: vm_LAUNCH_ASYNC_def andThen_def new_def Let_def newFut_def t2_def num_def
        split: sum.splits if_splits)
  have u48: "unat (nextFree (thread vm)) < 2 ^ 48" using assms(5) by (rule below_48)
  then have no_wrap: "unat (nextFree (thread vm)) + 16 < 2 ^ 64" by simp
  from bump [OF assms(4) no_wrap] have b: "a < nextFree (thread vm) + 16" by simp
  have s2: "structFields t2 a = Some D" "a < nextFree t2"
    using assms(3,4) b by (auto simp: t2_def t1 newFut_def structFields_def)
  from c1 have hc1: "heap child1 = heap t2" "nextFree child1 = nextFree t2"
    by (auto simp: push_def runtimeError_def split: if_splits)
  with s2 have sc: "structFields (child1\<lparr>stack := stack child1 @ args\<rparr>) a = Some D"
    "a < nextFree (child1\<lparr>stack := stack child1 @ args\<rparr>)"
    by (simp_all add: structFields_def)
  from callValue_keeps [OF assms(1) cv sc] have s3: "structFields child2 a = Some D" .
  from pn pu have "heap t4 = heap child2"
    by (auto simp: popn_def push_def runtimeError_def split: if_splits)
  with s3 r show ?thesis by (simp add: structFields_def)
qed

subsection \<open>The opcodes defined from the macros\<close>

lemma op_BITWISE_XOR_heap: "op_BITWISE_XOR t = Inr t' \<Longrightarrow> heap t' = heap t"
  unfolding op_BITWISE_XOR_def by (rule INT_BINARY_OP_heap)

lemma op_BITWISE_OR_heap: "op_BITWISE_OR t = Inr t' \<Longrightarrow> heap t' = heap t"
  unfolding op_BITWISE_OR_def by (rule INT_BINARY_OP_heap)

lemma op_BITWISE_AND_heap: "op_BITWISE_AND t = Inr t' \<Longrightarrow> heap t' = heap t"
  unfolding op_BITWISE_AND_def by (rule INT_BINARY_OP_heap)

lemma op_MOD_heap: "op_MOD t = Inr t' \<Longrightarrow> heap t' = heap t"
  unfolding op_MOD_def by (rule INT_BINARY_OP_heap)

lemma op_BITSHIFT_LEFT_heap: "op_BITSHIFT_LEFT t = Inr t' \<Longrightarrow> heap t' = heap t"
  unfolding op_BITSHIFT_LEFT_def by (rule INT_BINARY_OP_heap)

lemma op_BITSHIFT_RIGHT_heap: "op_BITSHIFT_RIGHT t = Inr t' \<Longrightarrow> heap t' = heap t"
  unfolding op_BITSHIFT_RIGHT_def by (rule INT_BINARY_OP_heap)

lemma op_SUBTRACT_heap: "op_SUBTRACT P t = Inr t' \<Longrightarrow> heap t' = heap t"
  unfolding op_SUBTRACT_def by (rule BINARY_OP_heap)

lemma op_MULTIPLY_heap: "op_MULTIPLY P t = Inr t' \<Longrightarrow> heap t' = heap t"
  unfolding op_MULTIPLY_def by (rule BINARY_OP_heap)

lemma op_DIVIDE_heap: "op_DIVIDE P t = Inr t' \<Longrightarrow> heap t' = heap t"
  unfolding op_DIVIDE_def by (rule BINARY_OP_heap)

lemma op_GREATER_heap: "op_GREATER P t = Inr t' \<Longrightarrow> heap t' = heap t"
  unfolding op_GREATER_def by (rule compareNumbers_heap)

lemma op_GREATER_EQUAL_heap: "op_GREATER_EQUAL P t = Inr t' \<Longrightarrow> heap t' = heap t"
  unfolding op_GREATER_EQUAL_def by (rule compareNumbers_heap)

lemma op_LESS_heap: "op_LESS P t = Inr t' \<Longrightarrow> heap t' = heap t"
  unfolding op_LESS_def by (rule compareNumbers_heap)

lemma op_LESS_EQUAL_heap: "op_LESS_EQUAL P t = Inr t' \<Longrightarrow> heap t' = heap t"
  unfolding op_LESS_EQUAL_def by (rule compareNumbers_heap)

subsection \<open>Every case of the loop\<close>

text \<open>
  The body of the case of an opcode other than \<open>SET\<close>, \<open>SET_PROPERTY\<close> and \<open>SET_PROPERTY_LONG\<close>
  leaves a struct with the field names it has.
\<close>

lemma execute_keeps:
  assumes ex: "execute P opcode vm = Inr vm'"
    and s1v: "structFields (thread vm) a = Some D"
    and l1v: "a < nextFree (thread vm)" and b1v: "nextFree (thread vm) < 2 ^ 48"
    and c1v: "length (bytecode (code (thread vm))) < 2 ^ 32"
    and nat: "nativesKeepStructs (nativeStubs P)"
    and other: "opcode \<noteq> SET" "opcode \<noteq> SET_PROPERTY" "opcode \<noteq> SET_PROPERTY_LONG"
  shows "structFields (thread vm') a = Some D"
proof -
  define t1 where "t1 = thread vm"
  note s1 = s1v [folded t1_def] and l1 = l1v [folded t1_def] and b1 = b1v [folded t1_def]
    and c1 = c1v [folded t1_def]
  have H: "structFields (thread vm') a = Some D"
    if "onThread f vm = Inr vm'" and "\<And>t'. f t1 = Inr t' \<Longrightarrow> heap t' = heap t1" for f
    using that s1 by (auto simp: onThread_def andThen_def structFields_def t1_def split: sum.splits)
  have K: "structFields (thread vm') a = Some D"
    if "onThread f vm = Inr vm'" and "\<And>t'. f t1 = Inr t' \<Longrightarrow> structFields t' a = Some D" for f
    using that by (auto simp: onThread_def andThen_def t1_def split: sum.splits)
  have V: "structFields (thread vm') a = Some D" if "heap (thread vm') = heap (thread vm)"
    using that s1v by (simp add: structFields_def)
  show ?thesis
  proof (cases opcode)
    case POP
    with ex have "onThread (op_POP) vm = Inr vm'" by (simp add: execute_def)
    then show ?thesis by (rule H) (rule op_POP_heap)
  next
    case POPN
    with ex have "onThread (op_POPN) vm = Inr vm'" by (simp add: execute_def)
    then show ?thesis by (rule H) (rule op_POPN_heap)
  next
    case LOAD_INT
    with ex have "onThread (op_LOAD_INT) vm = Inr vm'" by (simp add: execute_def)
    then show ?thesis by (rule H) (rule op_LOAD_INT_heap)
  next
    case CONSTANT
    with ex have "onThread (op_CONSTANT) vm = Inr vm'" by (simp add: execute_def)
    then show ?thesis by (rule H) (rule op_CONSTANT_heap)
  next
    case CONSTANT_LONG
    with ex have "onThread (op_CONSTANT_LONG) vm = Inr vm'" by (simp add: execute_def)
    then show ?thesis by (rule H) (rule op_CONSTANT_LONG_heap)
  next
    case NIL_OP
    with ex have "onThread (op_NIL) vm = Inr vm'" by (simp add: execute_def)
    then show ?thesis by (rule H) (rule op_NIL_heap)
  next
    case TRUE
    with ex have "onThread (op_TRUE) vm = Inr vm'" by (simp add: execute_def)
    then show ?thesis by (rule H) (rule op_TRUE_heap)
  next
    case FALSE
    with ex have "onThread (op_FALSE) vm = Inr vm'" by (simp add: execute_def)
    then show ?thesis by (rule H) (rule op_FALSE_heap)
  next
    case NEGATE
    with ex have "onThread (op_NEGATE P) vm = Inr vm'" by (simp add: execute_def)
    then show ?thesis by (rule H) (rule op_NEGATE_heap)
  next
    case NOT_OP
    with ex have "onThread (op_NOT) vm = Inr vm'" by (simp add: execute_def)
    then show ?thesis by (rule H) (rule op_NOT_heap)
  next
    case BIN_NOT
    with ex have "onThread (op_BIN_NOT) vm = Inr vm'" by (simp add: execute_def)
    then show ?thesis by (rule H) (rule op_BIN_NOT_heap)
  next
    case INCREMENT
    with ex have "vm_INCREMENT P vm = Inr vm'" by (simp add: execute_def)
    then show ?thesis by (rule vm_INCREMENT_keeps [OF _ s1v])
  next
    case BITWISE_XOR
    with ex have "onThread (op_BITWISE_XOR) vm = Inr vm'" by (simp add: execute_def)
    then show ?thesis by (rule H) (rule op_BITWISE_XOR_heap)
  next
    case BITWISE_OR
    with ex have "onThread (op_BITWISE_OR) vm = Inr vm'" by (simp add: execute_def)
    then show ?thesis by (rule H) (rule op_BITWISE_OR_heap)
  next
    case BITWISE_AND
    with ex have "onThread (op_BITWISE_AND) vm = Inr vm'" by (simp add: execute_def)
    then show ?thesis by (rule H) (rule op_BITWISE_AND_heap)
  next
    case ADD
    with ex have "onThread (op_ADD P) vm = Inr vm'" by (simp add: execute_def)
    then show ?thesis by (rule K) (rule op_ADD_keeps [OF _ s1 l1])
  next
    case SUBTRACT
    with ex have "onThread (op_SUBTRACT P) vm = Inr vm'" by (simp add: execute_def)
    then show ?thesis by (rule H) (rule op_SUBTRACT_heap)
  next
    case MULTIPLY
    with ex have "onThread (op_MULTIPLY P) vm = Inr vm'" by (simp add: execute_def)
    then show ?thesis by (rule H) (rule op_MULTIPLY_heap)
  next
    case DIVIDE
    with ex have "onThread (op_DIVIDE P) vm = Inr vm'" by (simp add: execute_def)
    then show ?thesis by (rule H) (rule op_DIVIDE_heap)
  next
    case MOD
    with ex have "onThread (op_MOD) vm = Inr vm'" by (simp add: execute_def)
    then show ?thesis by (rule H) (rule op_MOD_heap)
  next
    case BITSHIFT_LEFT
    with ex have "onThread (op_BITSHIFT_LEFT) vm = Inr vm'" by (simp add: execute_def)
    then show ?thesis by (rule H) (rule op_BITSHIFT_LEFT_heap)
  next
    case BITSHIFT_RIGHT
    with ex have "onThread (op_BITSHIFT_RIGHT) vm = Inr vm'" by (simp add: execute_def)
    then show ?thesis by (rule H) (rule op_BITSHIFT_RIGHT_heap)
  next
    case EQUAL
    with ex have "onThread (op_EQUAL P) vm = Inr vm'" by (simp add: execute_def)
    then show ?thesis by (rule H) (rule op_EQUAL_heap)
  next
    case NOT_EQUAL
    with ex have "onThread (op_NOT_EQUAL P) vm = Inr vm'" by (simp add: execute_def)
    then show ?thesis by (rule H) (rule op_NOT_EQUAL_heap)
  next
    case GREATER
    with ex have "onThread (op_GREATER P) vm = Inr vm'" by (simp add: execute_def)
    then show ?thesis by (rule H) (rule op_GREATER_heap)
  next
    case GREATER_EQUAL
    with ex have "onThread (op_GREATER_EQUAL P) vm = Inr vm'" by (simp add: execute_def)
    then show ?thesis by (rule H) (rule op_GREATER_EQUAL_heap)
  next
    case LESS
    with ex have "onThread (op_LESS P) vm = Inr vm'" by (simp add: execute_def)
    then show ?thesis by (rule H) (rule op_LESS_heap)
  next
    case LESS_EQUAL
    with ex have "onThread (op_LESS_EQUAL P) vm = Inr vm'" by (simp add: execute_def)
    then show ?thesis by (rule H) (rule op_LESS_EQUAL_heap)
  next
    case GET_NATIVE
    with ex have "vm_GET_NATIVE vm = Inr vm'" by (simp add: execute_def)
    then show ?thesis by (intro V vm_GET_NATIVE_heap)
  next
    case DEFINE_GLOBAL
    with ex have "vm_DEFINE_GLOBAL vm = Inr vm'" by (simp add: execute_def)
    then show ?thesis by (intro V vm_DEFINE_GLOBAL_heap)
  next
    case DEFINE_GLOBAL_LONG
    with ex have "vm_DEFINE_GLOBAL_LONG vm = Inr vm'" by (simp add: execute_def)
    then show ?thesis by (intro V vm_DEFINE_GLOBAL_LONG_heap)
  next
    case GET_GLOBAL
    with ex have "vm_GET_GLOBAL vm = Inr vm'" by (simp add: execute_def)
    then show ?thesis by (intro V vm_GET_GLOBAL_heap)
  next
    case GET_GLOBAL_LONG
    with ex have "vm_GET_GLOBAL_LONG vm = Inr vm'" by (simp add: execute_def)
    then show ?thesis by (intro V vm_GET_GLOBAL_LONG_heap)
  next
    case SET_GLOBAL
    with ex have "vm_SET_GLOBAL vm = Inr vm'" by (simp add: execute_def)
    then show ?thesis by (intro V vm_SET_GLOBAL_heap)
  next
    case SET_GLOBAL_LONG
    with ex have "vm_SET_GLOBAL_LONG vm = Inr vm'" by (simp add: execute_def)
    then show ?thesis by (intro V vm_SET_GLOBAL_LONG_heap)
  next
    case GET_LOCAL
    with ex have "onThread (op_GET_LOCAL) vm = Inr vm'" by (simp add: execute_def)
    then show ?thesis by (rule H) (rule op_GET_LOCAL_heap)
  next
    case SET_LOCAL
    with ex have "onThread (op_SET_LOCAL) vm = Inr vm'" by (simp add: execute_def)
    then show ?thesis by (rule K) (rule op_SET_LOCAL_keeps [OF _ s1])
  next
    case GET_UPVALUE
    with ex have "onThread (op_GET_UPVALUE) vm = Inr vm'" by (simp add: execute_def)
    then show ?thesis by (rule H) (rule op_GET_UPVALUE_heap)
  next
    case SET_UPVALUE
    with ex have "onThread (op_SET_UPVALUE) vm = Inr vm'" by (simp add: execute_def)
    then show ?thesis by (rule K) (rule op_SET_UPVALUE_keeps [OF _ s1])
  next
    case JUMP
    with ex have "onThread (op_JUMP) vm = Inr vm'" by (simp add: execute_def)
    then show ?thesis by (rule H) (rule op_JUMP_heap)
  next
    case JUMP_IF_FALSE
    with ex have "onThread (op_JUMP_IF_FALSE) vm = Inr vm'" by (simp add: execute_def)
    then show ?thesis by (rule H) (rule op_JUMP_IF_FALSE_heap)
  next
    case JUMP_IF_TRUE
    with ex have "onThread (op_JUMP_IF_TRUE) vm = Inr vm'" by (simp add: execute_def)
    then show ?thesis by (rule H) (rule op_JUMP_IF_TRUE_heap)
  next
    case JUMP_IF_FALSE_POP
    with ex have "onThread (op_JUMP_IF_FALSE_POP) vm = Inr vm'" by (simp add: execute_def)
    then show ?thesis by (rule H) (rule op_JUMP_IF_FALSE_POP_heap)
  next
    case LOOP_IF_TRUE
    with ex have "onThread (op_LOOP_IF_TRUE) vm = Inr vm'" by (simp add: execute_def)
    then show ?thesis by (rule H) (rule op_LOOP_IF_TRUE_heap)
  next
    case LOOP
    with ex have "onThread (op_LOOP) vm = Inr vm'" by (simp add: execute_def)
    then show ?thesis by (rule H) (rule op_LOOP_heap)
  next
    case JUMP_POPN
    with ex have "onThread (op_JUMP_POPN) vm = Inr vm'" by (simp add: execute_def)
    then show ?thesis by (rule H) (rule op_JUMP_POPN_heap)
  next
    case SWITCH
    with ex have "onThread (op_SWITCH) vm = Inr vm'" by (simp add: execute_def)
    then show ?thesis by (rule H) (rule op_SWITCH_heap)
  next
    case SWITCH_LONG
    with ex have "onThread (op_SWITCH_LONG) vm = Inr vm'" by (simp add: execute_def)
    then show ?thesis by (rule H) (rule op_SWITCH_LONG_heap)
  next
    case CALL
    with ex have "onThread (op_CALL (nativeStubs P)) vm = Inr vm'" by (simp add: execute_def)
    then show ?thesis by (rule K) (rule op_CALL_keeps [OF nat _ s1 l1])
  next
    case RETURN
    with ex have "vm_RETURN vm = Inr vm'" by (simp add: execute_def)
    then show ?thesis by (rule vm_RETURN_keeps [OF _ s1v])
  next
    case CLOSURE_OP
    with ex have "onThread (op_CLOSURE) vm = Inr vm'" by (simp add: execute_def)
    then show ?thesis by (rule K) (rule op_CLOSURE_keeps [OF _ s1 l1 b1 c1])
  next
    case CLOSURE_LONG
    with ex have "onThread (op_CLOSURE_LONG) vm = Inr vm'" by (simp add: execute_def)
    then show ?thesis by (rule K) (rule op_CLOSURE_LONG_keeps [OF _ s1 l1 b1 c1])
  next
    case LAUNCH_ASYNC
    with ex have "vm_LAUNCH_ASYNC P vm = Inr vm'" by (simp add: execute_def)
    then show ?thesis by (rule vm_LAUNCH_ASYNC_keeps [OF nat _ s1v l1v b1v])
  next
    case AWAIT
    with ex have "vm_AWAIT vm = Inr vm'" by (simp add: execute_def)
    then show ?thesis by (rule vm_AWAIT_keeps [OF _ s1v])
  next
    case CREATE_ARRAY
    with ex have "onThread (op_CREATE_ARRAY) vm = Inr vm'" by (simp add: execute_def)
    then show ?thesis by (rule K) (rule op_CREATE_ARRAY_keeps [OF _ s1 l1])
  next
    case GET
    with ex have "onThread (op_GET) vm = Inr vm'" by (simp add: execute_def)
    then show ?thesis by (rule H) (rule op_GET_heap)
  next
    case SET
    with other show ?thesis by simp
  next
    case CLASS_OP
    with ex have "onThread (op_CLASS) vm = Inr vm'" by (simp add: execute_def)
    then show ?thesis by (rule K) (rule op_CLASS_keeps [OF _ s1 l1])
  next
    case GET_PROPERTY
    with ex have "onThread (op_GET_PROPERTY (nativeMethods P)) vm = Inr vm'" by (simp add: execute_def)
    then show ?thesis by (rule K) (rule op_GET_PROPERTY_keeps [OF _ s1 l1])
  next
    case GET_PROPERTY_LONG
    with ex have "onThread (op_GET_PROPERTY_LONG (nativeMethods P)) vm = Inr vm'" by (simp add: execute_def)
    then show ?thesis by (rule K) (rule op_GET_PROPERTY_LONG_keeps [OF _ s1 l1])
  next
    case SET_PROPERTY
    with other show ?thesis by simp
  next
    case SET_PROPERTY_LONG
    with other show ?thesis by simp
  next
    case CREATE_STRUCT
    with ex have "onThread (op_CREATE_STRUCT) vm = Inr vm'" by (simp add: execute_def)
    then show ?thesis by (rule K) (rule op_CREATE_STRUCT_keeps [OF _ s1 l1])
  next
    case CREATE_STRUCT_LONG
    with ex have "onThread (op_CREATE_STRUCT_LONG) vm = Inr vm'" by (simp add: execute_def)
    then show ?thesis by (rule K) (rule op_CREATE_STRUCT_LONG_keeps [OF _ s1 l1])
  next
    case METHOD
    with ex have "onThread (op_METHOD) vm = Inr vm'" by (simp add: execute_def)
    then show ?thesis by (rule K) (rule op_METHOD_keeps [OF _ s1])
  next
    case INVOKE
    with ex have "onThread (op_INVOKE (nativeStubs P) (nativeMethods P)) vm = Inr vm'" by (simp add: execute_def)
    then show ?thesis by (rule K) (rule op_INVOKE_keeps [OF nat _ s1 l1])
  next
    case INVOKE_LONG
    with ex have "onThread (op_INVOKE_LONG (nativeStubs P) (nativeMethods P)) vm = Inr vm'" by (simp add: execute_def)
    then show ?thesis by (rule K) (rule op_INVOKE_LONG_keeps [OF nat _ s1 l1])
  next
    case INHERIT
    with ex have "onThread (op_INHERIT) vm = Inr vm'" by (simp add: execute_def)
    then show ?thesis by (rule K) (rule op_INHERIT_keeps [OF _ s1])
  next
    case GET_SUPER
    with ex have "onThread (op_GET_SUPER) vm = Inr vm'" by (simp add: execute_def)
    then show ?thesis by (rule K) (rule op_GET_SUPER_keeps [OF _ s1 l1])
  next
    case GET_SUPER_LONG
    with ex have "onThread (op_GET_SUPER_LONG) vm = Inr vm'" by (simp add: execute_def)
    then show ?thesis by (rule K) (rule op_GET_SUPER_LONG_keeps [OF _ s1 l1])
  next
    case SUPER_INVOKE
    with ex have "onThread (op_SUPER_INVOKE) vm = Inr vm'" by (simp add: execute_def)
    then show ?thesis by (rule H) (rule op_SUPER_INVOKE_heap)
  next
    case SUPER_INVOKE_LONG
    with ex have "onThread (op_SUPER_INVOKE_LONG) vm = Inr vm'" by (simp add: execute_def)
    then show ?thesis by (rule H) (rule op_SUPER_INVOKE_LONG_heap)
  qed
qed

text \<open>
  C9, amended.  A turn of the interpreter loop leaves every struct (an instance whose
  class pointer is null) with the set of field names it has, whatever the opcode, with
  three exceptions: \<open>SET\<close> with a string key, \<open>SET_PROPERTY\<close> and \<open>SET_PROPERTY_LONG\<close>, which
  add the name they are given and no other.  Asked of the state: the struct lies below
  the allocation pointer, pointers have 48 bits, the code is shorter than \<open>2\<^sup>3\<^sup>2\<close> bytes,
  and the native stubs, which are not among the sources, leave the field names of structs
  alone.
\<close>

theorem struct_field_names_grow_only_by_SET:
  assumes "step P vm = Inr vm'"
    and "structFields (thread vm) a = Some names"
    and "a < nextFree (thread vm)" and "nextFree (thread vm) < 2 ^ 48"
    and "length (bytecode (code (thread vm))) < 2 ^ 32"
    and "nativesKeepStructs (nativeStubs P)"
  shows "structFields (thread vm') a = Some names
         \<or> (nextOpcode P vm \<in> {Some SET, Some SET_PROPERTY, Some SET_PROPERTY_LONG}
            \<and> (\<exists>name. assignedName P vm = Some name
                  \<and> structFields (thread vm') a = Some (insert name names)))"
proof -
  from assms(1) obtain b t1 where rb: "READ_BYTE (thread vm) = Inr (b, t1)"
    by (auto simp: step_def andThen_def split: sum.splits)
  then have t1: "t1 = (thread vm)\<lparr>pc := pc (thread vm) + 1\<rparr>"
    and nx: "nextOpcode P vm = opcodeOf P b"
    by (auto simp: READ_BYTE_def nextOpcode_def split: if_splits)
  define vm1 where "vm1 = vm\<lparr>thread := t1\<rparr>"
  have s1: "structFields (thread vm1) a = Some names"
    and l1: "a < nextFree (thread vm1)" and b1: "nextFree (thread vm1) < 2 ^ 48"
    and c1: "length (bytecode (code (thread vm1))) < 2 ^ 32"
    using assms(2-5) by (simp_all add: vm1_def t1)
  show ?thesis
  proof (cases "opcodeOf P b")
    case None
    with assms(1) rb have "vm' = finish vm1"
      by (simp add: step_def andThen_def vm1_def)
    with finish_keeps [OF s1] show ?thesis by simp
  next
    case (Some opcode)
    with assms(1) rb have ex: "execute P opcode vm1 = Inr vm'"
      by (simp add: step_def andThen_def vm1_def)
    have grows: ?thesis
      if "onThread f vm1 = Inr vm'"
        and "\<And>t'. f t1 = Inr t' \<Longrightarrow>
               structFields t' a = Some names
               \<or> (\<exists>name. assignedName P vm = Some name \<and> structFields t' a = Some (insert name names))"
        and "opcode \<in> {SET, SET_PROPERTY, SET_PROPERTY_LONG}" for f
    proof -
      from that(1) obtain t' where "f t1 = Inr t'" and "thread vm' = t'"
        by (auto simp: onThread_def andThen_def vm1_def split: sum.splits)
      with that(2) [of t'] that(3) nx Some show ?thesis by auto
    qed
    have s1': "structFields t1 a = Some names" using s1 by (simp add: vm1_def)
    consider "opcode = SET" | "opcode = SET_PROPERTY" | "opcode = SET_PROPERTY_LONG"
      | "opcode \<noteq> SET" "opcode \<noteq> SET_PROPERTY" "opcode \<noteq> SET_PROPERTY_LONG" by blast
    then show ?thesis
    proof cases
      case 1
      with nx Some have an: "assignedName P vm = keyOnTop t1"
        by (simp add: assignedName_def t1)
      from 1 ex have "onThread op_SET vm1 = Inr vm'" by (simp add: execute_def)
      then show ?thesis
        by (rule grows) (use op_SET_grows [OF _ s1'] an 1 in auto)
    next
      case 2
      with nx Some have an: "assignedName P vm = stringOperand t1"
        by (simp add: assignedName_def t1)
      from 2 ex have "onThread op_SET_PROPERTY vm1 = Inr vm'" by (simp add: execute_def)
      then show ?thesis
        by (rule grows) (use op_SET_PROPERTY_grows [OF _ s1'] an 2 in auto)
    next
      case 3
      with nx Some have an: "assignedName P vm = stringOperandLong t1"
        by (simp add: assignedName_def t1)
      from 3 ex have "onThread op_SET_PROPERTY_LONG vm1 = Inr vm'" by (simp add: execute_def)
      then show ?thesis
        by (rule grows) (use op_SET_PROPERTY_LONG_grows [OF _ s1'] an 3 in auto)
    next
      case 4
      from execute_keeps [OF ex s1 l1 b1 c1 assms(6) 4] show ?thesis by simp
    qed
  qed
qed

text \<open>With any other opcode next there is no assigned name, and the names stay.\<close>

lemma assignedName_other:
  assumes "nextOpcode P vm \<noteq> Some SET" and "nextOpcode P vm \<noteq> Some SET_PROPERTY"
    and "nextOpcode P vm \<noteq> Some SET_PROPERTY_LONG"
  shows "assignedName P vm = None"
  using assms by (simp add: assignedName_def)

lemma no_natives_keep_structs: "nativesKeepStructs no_natives"
  by (simp add: nativesKeepStructs_def no_natives_def)

lemma opcodeOf_example_56: "opcodeOf example_params 56 = Some SET"
  by (simp add: opcodeOf_def example_params_def inOrder_def opcodes_def)

lemma step_struct_vm:
  "step example_params struct_vm =
     Inr (struct_vm\<lparr>thread := (thread struct_vm)
            \<lparr>stack := [encodeObj 0x130, encodeObj 0x200, encodeInt 1], pc := 9,
             heap := (heap (thread struct_vm))
                       (0x200 \<mapsto> ObjInstance 0 (Map.empty(''x'' \<mapsto> encodeInt 1)))\<rparr>\<rparr>)"
  by (simp add: step_def opcodeOf_example_56 execute_def onThread_def struct_vm_def
      struct_before_SET_def struct_start_def op_SET_def vm_defs)

theorem struct_field_names_grow_only_by_SET_witness:
  "structFields (thread struct_vm) 0x200 = Some {}
   \<and> nextOpcode example_params struct_vm = Some SET
   \<and> assignedName example_params struct_vm = Some ''x''
   \<and> (\<exists>vm'. step example_params struct_vm = Inr vm'
         \<and> structFields (thread vm') 0x200 = Some {''x''})"
proof -
  define vm' where "vm' = struct_vm\<lparr>thread := (thread struct_vm)
            \<lparr>stack := [encodeObj 0x130, encodeObj 0x200, encodeInt 1], pc := 9,
             heap := (heap (thread struct_vm))
                       (0x200 \<mapsto> ObjInstance 0 (Map.empty(''x'' \<mapsto> encodeInt 1)))\<rparr>\<rparr>"
  have st: "step example_params struct_vm = Inr vm'"
    unfolding vm'_def by (rule step_struct_vm)
  have h2: "structFields (thread struct_vm) 0x200 = Some {}"
    by (simp add: structFields_def struct_vm_def struct_before_SET_def)
  have h3: "0x200 < nextFree (thread struct_vm)"
    by (simp add: struct_vm_def struct_before_SET_def)
  have h4: "nextFree (thread struct_vm) < 2 ^ 48"
    by (simp add: struct_vm_def struct_before_SET_def)
  have h5: "length (bytecode (code (thread struct_vm))) < 2 ^ 32"
    by (simp add: struct_vm_def)
  have h6: "nativesKeepStructs (nativeStubs example_params)"
    by (simp add: example_params_def no_natives_keep_structs)
  have nx: "nextOpcode example_params struct_vm = Some SET"
    by (simp add: nextOpcode_def struct_vm_def opcodeOf_example_56)
  have after: "structFields (thread vm') 0x200 = Some {''x''}"
    by (simp add: vm'_def structFields_def)
  have an: "assignedName example_params struct_vm = Some ''x''"
    by (simp add: assignedName_def nx keyOnTop_def)
      (simp add: struct_vm_def struct_before_SET_def struct_start_def vm_defs)
  from struct_field_names_grow_only_by_SET [OF st h2 h3 h4 h5 h6]
  have "structFields (thread vm') 0x200 = Some {}
      \<or> (\<exists>name. assignedName example_params struct_vm = Some name
            \<and> structFields (thread vm') 0x200 = Some {name})"
    by auto
  with after h2 nx an st show ?thesis by blast
qed

end
